theory Spec2Isabelle
  imports Complex_Main
begin

section \<open>JavaScript numbers and typed-array stores\<close>

text \<open>
  The engine computes on JavaScript numbers, IEEE binary64 values. In the perspective solver,
  the gradient fade and the size computation of the rasteriser, whose results turn on the
  last bit, every arithmetic operation is followed by \<open>fl\<close>, the rounding of its exact
  result to the nearest binary64 value, in the order in which the source evaluates it. The
  other filters are modelled over the mathematical reals. Overflow to an infinity and NaN
  are outside the model, and every theorem whose formula divides carries the hypothesis
  that keeps the divisor away from zero.
  Channel samples are the bytes of a \<^verbatim>\<open>Uint8ClampedArray\<close>, modelled as naturals.
\<close>

definition roundTiesToEven :: "real \<Rightarrow> int" where
  \<comment> \<open>the nearest integer, halves to the even neighbour\<close>
  "roundTiesToEven q =
     (let f = \<lfloor>q\<rfloor>
      in if q - of_int f < 1 / 2 then f
         else if 1 / 2 < q - of_int f then f + 1
         else if even f then f else f + 1)"

definition fl :: "real \<Rightarrow> real" where
  \<comment> \<open>the binary64 value nearest to \<open>x\<close>: 53 significant bits, exponent at least \<open>-1022\<close>
      (below it the spacing stays \<open>2 ^ -1074\<close>), halves to the even significand\<close>
  "fl x =
     (if x = 0 then 0
      else let e = max (- 1022) \<lfloor>log 2 \<bar>x\<bar>\<rfloor>;
               ulp = 2 powr (of_int e - 52)
           in of_int (roundTiesToEven (x / ulp)) * ulp)"

definition Math_round :: "real \<Rightarrow> int" where
  \<comment> \<open>\<^verbatim>\<open>Math.round\<close>: the nearest integer, halves towards plus infinity.\<close>
  "Math_round x = \<lfloor>x + 1 / 2\<rfloor>"

definition toUint8Clamp :: "real \<Rightarrow> nat" where
  \<comment> \<open>The store conversion of \<^verbatim>\<open>Uint8ClampedArray\<close>: clamp to 0..255, then round
      to the nearest integer, halves to the even neighbour.\<close>
  "toUint8Clamp x =
     (if x \<le> 0 then 0
      else if 255 \<le> x then 255
      else (let f = \<lfloor>x\<rfloor> in
            nat (if of_int f + 1 / 2 < x then f + 1
                 else if x < of_int f + 1 / 2 then f
                 else if even f then f else f + 1)))"

definition toUint8 :: "real \<Rightarrow> nat" where
  \<comment> \<open>The store conversion of \<^verbatim>\<open>Uint8Array\<close>: truncate towards zero, then modulo 256.\<close>
  "toUint8 x = nat ((if 0 \<le> x then \<lfloor>x\<rfloor> else \<lceil>x\<rceil>) mod 256)"

lemma roundTiesToEven_of_int: "roundTiesToEven (of_int n) = n"
  by (simp add: roundTiesToEven_def)

lemma fl_0: "fl 0 = 0"
  by (simp add: fl_def)

lemma fl_exact:
  assumes m: "\<bar>m\<bar> < 2 ^ 53" and k: "- 1074 \<le> k"
  shows "fl (of_int m * 2 powr of_int k) = of_int m * 2 powr of_int k"
proof (cases "m = 0")
  case True
  then show ?thesis by (simp add: fl_0)
next
  case False
  let ?x = "of_int m * 2 powr of_int k :: real"
  have x0: "?x \<noteq> 0" using False by simp
  define e where "e = max (- 1022) \<lfloor>log 2 \<bar>?x\<bar>\<rfloor>"
  have am: "0 < \<bar>real_of_int m\<bar>" using False by simp
  have "\<bar>?x\<bar> = \<bar>real_of_int m\<bar> * 2 powr of_int k" by (simp add: abs_mult)
  then have "log 2 \<bar>?x\<bar> = log 2 \<bar>real_of_int m\<bar> + of_int k"
    using am by (simp add: log_mult)
  moreover have "log 2 \<bar>real_of_int m\<bar> < 53"
  proof -
    have "real_of_int \<bar>m\<bar> < real_of_int (2 ^ 53)" using m by (simp only: of_int_less_iff)
    then have "\<bar>real_of_int m\<bar> < 2 ^ 53" by simp
    also have "(2::real) ^ 53 = 2 powr 53" by simp
    finally show ?thesis using am by (simp add: log_less_iff)
  qed
  ultimately have "log 2 \<bar>?x\<bar> < of_int (53 + k)" by simp
  then have "\<lfloor>log 2 \<bar>?x\<bar>\<rfloor> < 53 + k" by (simp only: floor_less_iff)
  then have e_le: "e \<le> k + 52" unfolding e_def using k by simp
  define d where "d = nat (k + 52 - e)"
  have dk: "real d = of_int k - (of_int e - 52)" unfolding d_def using e_le by simp
  have "2 powr of_int k / 2 powr (of_int e - 52) = (2::real) powr (real d)"
    unfolding dk by (simp add: powr_diff)
  also have "\<dots> = 2 ^ d" by (simp add: powr_realpow)
  finally have "2 powr of_int k / 2 powr (of_int e - 52) = (2::real) ^ d" .
  then have "?x / 2 powr (of_int e - 52) = of_int m * 2 ^ d"
    by (simp only: times_divide_eq_right [symmetric])
  then have q: "?x / 2 powr (of_int e - 52) = of_int (m * 2 ^ d)" by simp
  have undo: "of_int (m * 2 ^ d) * 2 powr (of_int e - 52) = ?x"
    using q by (auto simp: field_simps)
  have "fl ?x = of_int (roundTiesToEven (?x / 2 powr (of_int e - 52))) * 2 powr (of_int e - 52)"
    using x0 unfolding fl_def e_def Let_def by simp
  also have "\<dots> = ?x" unfolding q roundTiesToEven_of_int by (rule undo)
  finally show ?thesis .
qed

lemma fl_of_int:
  assumes "\<bar>n\<bar> < 2 ^ 53"
  shows "fl (of_int n) = of_int n"
  using fl_exact [OF assms, of 0] by simp



lemma fl_dyadic:
  assumes "\<bar>m\<bar> < 2 ^ 53" and "j \<le> 1074"
  shows "fl (of_int m / 2 ^ j) = of_int m / 2 ^ j"
proof -
  have "(2::real) powr of_int (- int j) = 1 / 2 ^ j"
    by (simp add: powr_minus_divide powr_realpow)
  then show ?thesis
    using fl_exact [OF assms(1), of "- int j"] assms(2) by simp
qed

lemma fl_numerals:
  "fl 1 = 1" "fl 255 = 255" "fl (1 / 2) = 1 / 2" "fl (1 / 4) = 1 / 4" "fl (3 / 4) = 3 / 4"
  "fl (255 / 2) = 255 / 2" "fl (255 / 4) = 255 / 4" "fl (765 / 4) = 765 / 4"
  using fl_of_int [of 1] fl_of_int [of 255] fl_dyadic [of 1 1] fl_dyadic [of 1 2] fl_dyadic [of 3 2]
    fl_dyadic [of 255 1] fl_dyadic [of 255 2] fl_dyadic [of 765 2]
  by simp_all

section \<open>Canvases\<close>

record canvas =
  width :: nat
  height :: nat
  data :: "nat list"

definition wf_canvas :: "canvas \<Rightarrow> bool" where
  \<comment> \<open>What \<^verbatim>\<open>getImageData\<close> guarantees: four bytes per pixel, row-major RGBA.\<close>
  "wf_canvas c \<longleftrightarrow>
     length (data c) = 4 * (width c * height c) \<and> (\<forall>v \<in> set (data c). v < 256)"

definition forPixels :: "(nat \<Rightarrow> 's \<Rightarrow> 's) \<Rightarrow> nat \<Rightarrow> 's \<Rightarrow> 's" where
  \<comment> \<open>\<^verbatim>\<open>for (let i = 0; i < len; i += 4) body(i)\<close>\<close>
  "forPixels body len s = fold body (map (\<lambda>k. 4 * k) [0..<(len + 3) div 4]) s"

section \<open>Brightness / contrast\<close>

definition clamp255 :: "real \<Rightarrow> real" where
  \<comment> \<open>\<^verbatim>\<open>Math.max(0, Math.min(255, v))\<close>\<close>
  "clamp255 v = max 0 (min 255 v)"

definition contrastFactor :: "real \<Rightarrow> real" where
  "contrastFactor contrast = (259 * (contrast + 255)) / (255 * (259 - contrast))"

definition bcChannel :: "real \<Rightarrow> real \<Rightarrow> nat \<Rightarrow> nat" where
  "bcChannel f b v = toUint8Clamp (clamp255 (f * (real v - 128) + 128 + b))"

definition applyBrightnessContrast :: "canvas \<Rightarrow> real \<Rightarrow> real \<Rightarrow> canvas" where
  "applyBrightnessContrast c brightness contrast =
     (let b = brightness;
          f = contrastFactor contrast
      in c\<lparr>data := forPixels (\<lambda>i d.
            let d = d[i := bcChannel f b (d ! i)];
                d = d[i + 1 := bcChannel f b (d ! (i + 1))];
                d = d[i + 2 := bcChannel f b (d ! (i + 2))]
            in d) (length (data c)) (data c)\<rparr>)"

subsection \<open>Loops over pixels\<close>

lemma fold_invariant:
  "P s \<Longrightarrow> (\<And>x s. x \<in> set xs \<Longrightarrow> P s \<Longrightarrow> P (f x s)) \<Longrightarrow> P (fold f xs s)"
  by (induction xs arbitrary: s) auto

lemma forPixels_invariant:
  "P s \<Longrightarrow> (\<And>k s. P s \<Longrightarrow> P (body (4 * k) s)) \<Longrightarrow> P (forPixels body len s)"
  unfolding forPixels_def by (rule fold_invariant) auto

lemma concat_replicate_nth:
  "xs \<noteq> [] \<Longrightarrow> j < n * length xs \<Longrightarrow> concat (replicate n xs) ! j = xs ! (j mod length xs)"
proof (induction n arbitrary: j)
  case 0 then show ?case by simp
next
  case (Suc n)
  show ?case
  proof (cases "j < length xs")
    case True then show ?thesis by (simp add: nth_append)
  next
    case False
    then have "j - length xs < n * length xs" using Suc.prems by simp
    then have "concat (replicate n xs) ! (j - length xs) = xs ! ((j - length xs) mod length xs)"
      using Suc.IH Suc.prems(1) by blast
    moreover have "(j - length xs) mod length xs = j mod length xs"
      using False by (simp add: le_mod_geq)
    ultimately show ?thesis using False by (simp add: nth_append)
  qed
qed

lemma pointwise_fold:
  assumes "\<And>i d. body i d = d[i := g (d ! i), i + 1 := g (d ! (i + 1)), i + 2 := g (d ! (i + 2))]"
  shows "4 * n \<le> length d \<Longrightarrow> fold body (map (\<lambda>k. 4 * k) [0..<n]) d =
         map (\<lambda>j. if j < 4 * n \<and> j mod 4 \<noteq> 3 then g (d ! j) else d ! j) [0..<length d]"
proof (induction n)
  case 0
  then show ?case by (simp add: map_nth)
next
  case (Suc n)
  let ?d = "fold body (map (\<lambda>k. 4 * k) [0..<n]) d"
  have IH: "?d = map (\<lambda>j. if j < 4 * n \<and> j mod 4 \<noteq> 3 then g (d ! j) else d ! j) [0..<length d]"
    using Suc by simp
  have len: "length ?d = length d" by (subst IH) simp
  have rd: "\<And>j. 4 * n \<le> j \<Longrightarrow> j < length d \<Longrightarrow> ?d ! j = d ! j"
    by (subst IH) simp
  have "fold body (map (\<lambda>k. 4 * k) [0..<Suc n]) d = body (4 * n) ?d" by simp
  also have "\<dots> = ?d[4 * n := g (d ! (4 * n)), 4 * n + 1 := g (d ! (4 * n + 1)), 4 * n + 2 := g (d ! (4 * n + 2))]"
    using rd Suc.prems by (simp add: assms)
  also have "\<dots> = map (\<lambda>j. if j < 4 * Suc n \<and> j mod 4 \<noteq> 3 then g (d ! j) else d ! j) [0..<length d]"
  proof (rule nth_equalityI)
    show "length (?d[4 * n := g (d ! (4 * n)), 4 * n + 1 := g (d ! (4 * n + 1)), 4 * n + 2 := g (d ! (4 * n + 2))]) =
      length (map (\<lambda>j. if j < 4 * Suc n \<and> j mod 4 \<noteq> 3 then g (d ! j) else d ! j) [0..<length d])"
      using len by simp
  next
    fix j assume "j < length (?d[4 * n := g (d ! (4 * n)), 4 * n + 1 := g (d ! (4 * n + 1)), 4 * n + 2 := g (d ! (4 * n + 2))])"
    then have j: "j < length d" using len by simp
    have m: "(4 * n) mod 4 = 0" "(4 * n + 1) mod 4 = 1" "(4 * n + 2) mod 4 = 2" by presburger+
    consider "j = 4 * n" | "j = 4 * n + 1" | "j = 4 * n + 2" | "j < 4 * n" | "j \<ge> 4 * n + 3" by linarith
    then show "?d[4 * n := g (d ! (4 * n)), 4 * n + 1 := g (d ! (4 * n + 1)), 4 * n + 2 := g (d ! (4 * n + 2))] ! j =
       map (\<lambda>j. if j < 4 * Suc n \<and> j mod 4 \<noteq> 3 then g (d ! j) else d ! j) [0..<length d] ! j"
    proof cases
      case 4
      then show ?thesis using j len by (simp add: IH)
    next
      case 5
      then have "j < 4 * Suc n \<longrightarrow> j mod 4 = 3" by presburger
      with 5 show ?thesis using j len by (auto simp: IH)
    qed (use j len m in \<open>simp_all\<close>)
  qed
  finally show ?case .
qed

subsection \<open>The per-channel formula\<close>

lemma length_concat_replicate [simp]: "length (concat (replicate n xs)) = n * length xs"
  by (simp add: length_concat sum_list_replicate)

lemma applyBrightnessContrast_data:
  assumes "length (data c) = 4 * n"
  shows "data (applyBrightnessContrast c b ct) =
     map (\<lambda>j. if j mod 4 \<noteq> 3 then bcChannel (contrastFactor ct) b (data c ! j) else data c ! j)
       [0..<length (data c)]"
proof -
  have "(length (data c) + 3) div 4 = n" using assms by simp
  then have "data (applyBrightnessContrast c b ct) =
     map (\<lambda>j. if j < 4 * n \<and> j mod 4 \<noteq> 3 then bcChannel (contrastFactor ct) b (data c ! j) else data c ! j)
       [0..<length (data c)]"
    unfolding applyBrightnessContrast_def forPixels_def Let_def
    using pointwise_fold [where g = "bcChannel (contrastFactor ct) b" and n = n and d = "data c", OF refl]
      assms by simp
  then show ?thesis using assms by simp
qed

text \<open>
  C5: for every channel value and parameters brightness \<open>b\<close> and contrast \<open>c\<close>, the
  Brightness/Contrast filter stores \<open>clamp (f * (in - 128) + 128 + b)\<close> with
  \<open>f = 259 * (c + 255) / (255 * (259 - c))\<close> (the typed array rounds the clamped value to a byte)
  and leaves alpha alone; a 4x4 opaque red buffer with brightness 50 and contrast 0 becomes
  (255, 50, 50, 255) at every pixel. At \<open>c = 259\<close> the JavaScript factor is infinite, which
  the real-number model does not represent.
\<close>

theorem applyBrightnessContrast_formula:
  assumes "contrast \<noteq> 259" and "length (data c) = 4 * (width c * height c)"
  shows "(\<forall>k < width c * height c.
           (\<forall>ch < 3. data (applyBrightnessContrast c b contrast) ! (4 * k + ch) =
              toUint8Clamp (max 0 (min 255
                (259 * (contrast + 255) / (255 * (259 - contrast)) * (real (data c ! (4 * k + ch)) - 128) + 128 + b))))
           \<and> data (applyBrightnessContrast c b contrast) ! (4 * k + 3) = data c ! (4 * k + 3))
       \<and> applyBrightnessContrast \<lparr>width = 4, height = 4, data = concat (replicate 16 [255, 0, 0, 255])\<rparr> 50 0
           = \<lparr>width = 4, height = 4, data = concat (replicate 16 [255, 50, 50, 255])\<rparr>"
proof (intro conjI allI impI)
  fix k ch :: nat assume k: "k < width c * height c" and ch: "ch < 3"
  have m: "(4 * k + ch) mod 4 \<noteq> 3" using ch by presburger
  have "4 * k + ch < length (data c)" using k ch assms(2) by simp
  then show "data (applyBrightnessContrast c b contrast) ! (4 * k + ch) =
      toUint8Clamp (max 0 (min 255
        (259 * (contrast + 255) / (255 * (259 - contrast)) * (real (data c ! (4 * k + ch)) - 128) + 128 + b)))"
    using m by (simp add: applyBrightnessContrast_data [OF assms(2)] bcChannel_def clamp255_def contrastFactor_def)
next
  fix k :: nat assume k: "k < width c * height c"
  have m: "(4 * k + 3) mod 4 = 3" by presburger
  have "4 * k + 3 < length (data c)" using k assms(2) by simp
  then show "data (applyBrightnessContrast c b contrast) ! (4 * k + 3) = data c ! (4 * k + 3)"
    using m by (simp add: applyBrightnessContrast_data [OF assms(2)])
next
  let ?c = "\<lparr>width = 4, height = 4, data = concat (replicate 16 [255, 0, 0, 255::nat])\<rparr>"
  have len: "length (data ?c) = 4 * 16" by (simp add: length_concat sum_list_replicate)
  have f: "contrastFactor 0 = 1" by (simp add: contrastFactor_def)
  have r: "bcChannel 1 50 255 = 255" "bcChannel 1 50 0 = 50"
    by (simp_all add: bcChannel_def clamp255_def toUint8Clamp_def)
  have "data (applyBrightnessContrast ?c 50 0) = concat (replicate 16 [255, 50, 50, 255])"
  proof (rule nth_equalityI)
    show "length (data (applyBrightnessContrast ?c 50 0)) = length (concat (replicate 16 [255, 50, 50, 255::nat]))"
      using len by (simp add: applyBrightnessContrast_data [OF len] length_concat sum_list_replicate)
  next
    fix j assume "j < length (data (applyBrightnessContrast ?c 50 0))"
    then have j: "j < 64" using len by (simp add: applyBrightnessContrast_data [OF len])
    have a: "concat (replicate 16 [255, 0, 0, 255::nat]) ! j = [255, 0, 0, 255] ! (j mod 4)"
      using concat_replicate_nth [of "[255, 0, 0, 255::nat]" j 16] j by simp
    have b: "concat (replicate 16 [255, 50, 50, 255::nat]) ! j = [255, 50, 50, 255] ! (j mod 4)"
      using concat_replicate_nth [of "[255, 50, 50, 255::nat]" j 16] j by simp
    have "j mod 4 = 0 \<or> j mod 4 = 1 \<or> j mod 4 = 2 \<or> j mod 4 = 3" by presburger
    then show "data (applyBrightnessContrast ?c 50 0) ! j = concat (replicate 16 [255, 50, 50, 255]) ! j"
      using j a b by (auto simp: applyBrightnessContrast_data [OF len] f r)
  qed
  moreover have "width (applyBrightnessContrast ?c 50 0) = 4" "height (applyBrightnessContrast ?c 50 0) = 4"
    by (simp_all add: applyBrightnessContrast_def Let_def)
  ultimately show "applyBrightnessContrast ?c 50 0 = \<lparr>width = 4, height = 4, data = concat (replicate 16 [255, 50, 50, 255])\<rparr>"
    by (cases "applyBrightnessContrast ?c 50 0") simp
qed

theorem applyBrightnessContrast_formula_witness:
  "(4::real) \<noteq> 259
   \<and> length (data \<lparr>width = 1, height = 1, data = [128, 0, 255, 7]\<rparr>) = 4 * (1 * 1)
   \<and> data (applyBrightnessContrast \<lparr>width = 1, height = 1, data = [128, 0, 255, 7]\<rparr> (- 10) 4) ! 0 = 118
   \<and> data (applyBrightnessContrast \<lparr>width = 1, height = 1, data = [128, 0, 255, 7]\<rparr> (- 10) 4) ! 1 = 0
   \<and> data (applyBrightnessContrast \<lparr>width = 1, height = 1, data = [128, 0, 255, 7]\<rparr> (- 10) 4) ! 2 = 249
   \<and> data (applyBrightnessContrast \<lparr>width = 1, height = 1, data = [128, 0, 255, 7]\<rparr> (- 10) 4) ! 3 = 7"
proof -
  let ?c = "\<lparr>width = 1, height = 1, data = [128, 0, 255, 7::nat]\<rparr>"
  have h1: "(4::real) \<noteq> 259" by simp
  have h2: "length (data ?c) = 4 * (width ?c * height ?c)" by simp
  note t = applyBrightnessContrast_formula [OF h1 h2, of "- 10", THEN conjunct1, rule_format, of 0]
  have a: "data (applyBrightnessContrast ?c (- 10) 4) ! 3 = 7" using t by simp
  have b: "data (applyBrightnessContrast ?c (- 10) 4) ! 0 = 118"
    using t [THEN conjunct1, rule_format, of 0] by (simp add: toUint8Clamp_def)
  have c: "data (applyBrightnessContrast ?c (- 10) 4) ! 1 = 0"
    using t [THEN conjunct1, rule_format, of 1] by (simp add: toUint8Clamp_def)
  have d: "data (applyBrightnessContrast ?c (- 10) 4) ! 2 = 249"
    using t [THEN conjunct1, rule_format, of 2] by (simp add: toUint8Clamp_def numeral_2_eq_2)
  show ?thesis using a b c d by simp
qed

section \<open>Gradient fade\<close>

definition forYX :: "nat \<Rightarrow> nat \<Rightarrow> (nat \<Rightarrow> nat \<Rightarrow> 's \<Rightarrow> 's) \<Rightarrow> 's \<Rightarrow> 's" where
  \<comment> \<open>\<^verbatim>\<open>for (let y = 0; y < h; y++) for (let x = 0; x < w; x++) body(x, y)\<close>\<close>
  "forYX h w body s = fold (\<lambda>y s. fold (\<lambda>x s. body x y s) [0..<w] s) [0..<h] s"

definition gradientT :: "real \<Rightarrow> nat \<Rightarrow> nat \<Rightarrow> nat \<Rightarrow> nat \<Rightarrow> real" where
  \<comment> \<open>the \<^verbatim>\<open>switch (direction)\<close>: the gradient position of pixel \<open>(x, y)\<close>\<close>
  "gradientT direction w h x y =
     (if direction = 0 then fl (real x / real w)
      else if direction = 1 then fl (1 - fl (real x / real w))
      else if direction = 2 then fl (real y / real h)
      else if direction = 3 then fl (1 - fl (real y / real h))
      else if direction = 4 then
        (let dx = fl (fl (fl (real x / real w) - 0.5) * 2);
             dy = fl (fl (fl (real y / real h) - 0.5) * 2)
         in fl (fl (sqrt (fl (fl (dx * dx) + fl (dy * dy)))) / fl 1.414))
      else 0)"

definition gradientFadePixel :: "real \<Rightarrow> real \<Rightarrow> nat \<Rightarrow> nat \<Rightarrow> nat \<Rightarrow> nat \<Rightarrow> nat list \<Rightarrow> nat list" where
  \<comment> \<open>the body of the pixel loop\<close>
  "gradientFadePixel direction strength w h x y d =
     (let i = (y * w + x) * 4;
          t = gradientT direction w h x y;
          fade = fl (1 - fl (t * strength))
      in d[i + 3 := toUint8Clamp (real_of_int (Math_round (fl (real (d ! (i + 3)) * max 0 fade))))])"

definition applyGradientFade :: "canvas \<Rightarrow> real \<Rightarrow> real \<Rightarrow> canvas" where
  "applyGradientFade c direction amount =
     (let w = width c; h = height c;
          strength = fl (amount / 100)
      in c\<lparr>data := forYX h w (gradientFadePixel direction strength w h) (data c)\<rparr>)"

lemma nth_update_other_pixel:
  fixes d :: "'a list"
  assumes "j div 4 \<noteq> p" and "ch < 4"
  shows "d[4 * p + ch := v] ! j = d ! j"
proof -
  have "(4 * p + ch) div 4 = p" using assms(2) by simp
  then have "j \<noteq> 4 * p + ch" using assms(1) by blast
  then show ?thesis by simp
qed

lemma nth_update_local:
  fixes d d' :: "'a list"
  assumes "length d = length d'" and "d ! j = d' ! j"
  shows "d[i := v] ! j = d'[i := v] ! j"
proof (cases "i = j \<and> j < length d")
  case True
  then show ?thesis using assms(1) by simp
next
  case False
  then consider "i \<noteq> j" | "length d \<le> i" by fastforce
  then have "d[i := v] ! j = d ! j \<and> d'[i := v] ! j = d' ! j"
    using assms(1) by cases (simp_all add: list_update_beyond)
  then show ?thesis using assms(2) by simp
qed

lemma forYX_flat:
  "forYX h w body s = fold (\<lambda>p. body (p mod w) (p div w)) [0..<h * w] s"
proof (induction h arbitrary: s)
  case 0
  then show ?case by (simp add: forYX_def)
next
  case (Suc h)
  have row: "fold (\<lambda>p. body (p mod w) (p div w)) [h * w..<h * w + w] t = fold (\<lambda>x. body x h) [0..<w] t" for t
  proof -
    have "[h * w..<h * w + w] = map (\<lambda>x. x + h * w) [0..<w]"
      by (simp add: map_add_upt add.commute)
    then have "fold (\<lambda>p. body (p mod w) (p div w)) [h * w..<h * w + w] t
        = fold ((\<lambda>p. body (p mod w) (p div w)) \<circ> (\<lambda>x. x + h * w)) [0..<w] t"
      by (simp add: fold_map)
    also have "\<dots> = fold (\<lambda>x. body x h) [0..<w] t"
      by (rule fold_cong) auto
    finally show ?thesis .
  qed
  have "Suc h * w = h * w + w" by simp
  then have "[0..<Suc h * w] = [0..<h * w] @ [h * w..<h * w + w]"
    using upt_add_eq_append [of 0 "h * w" w] by (simp only: le0)
  then have "fold (\<lambda>p. body (p mod w) (p div w)) [0..<Suc h * w] s
       = fold (\<lambda>x. body x h) [0..<w] (fold (\<lambda>p. body (p mod w) (p div w)) [0..<h * w] s)"
    using row by simp
  also have "\<dots> = forYX (Suc h) w body s"
    using Suc [of s] by (simp add: forYX_def)
  finally show ?case by simp
qed

lemma fold_per_pixel:
  assumes len: "\<And>p d. length (body p d) = length d"
    and frame: "\<And>p d j. j div 4 \<noteq> p \<Longrightarrow> body p d ! j = d ! j"
    and local: "\<And>p d d' j. length d = length d' \<Longrightarrow> (\<forall>i. i div 4 = p \<longrightarrow> d ! i = d' ! i)
                  \<Longrightarrow> j div 4 = p \<Longrightarrow> body p d ! j = body p d' ! j"
  shows "length (fold body [0..<n] d) = length d \<and>
         (\<forall>j. fold body [0..<n] d ! j = (if j div 4 < n then body (j div 4) d ! j else d ! j))"
proof (induction n)
  case 0
  then show ?case by simp
next
  case (Suc n)
  let ?r = "fold body [0..<n] d"
  have l: "length ?r = length d" and v: "\<And>j. ?r ! j = (if j div 4 < n then body (j div 4) d ! j else d ! j)"
    using Suc by simp_all
  have step: "fold body [0..<Suc n] d = body n ?r" by simp
  show ?case
  proof (intro conjI allI)
    show "length (fold body [0..<Suc n] d) = length d" using l len by (simp del: upt_Suc add: step)
  next
    fix j
    show "fold body [0..<Suc n] d ! j = (if j div 4 < Suc n then body (j div 4) d ! j else d ! j)"
    proof (cases "j div 4 = n")
      case True
      have "body n ?r ! j = body n d ! j"
        by (rule local) (use l v True in auto)
      then show ?thesis using True by (simp del: upt_Suc add: step)
    next
      case False
      then have "body n ?r ! j = ?r ! j" by (rule frame)
      then show ?thesis using False v by (simp del: upt_Suc add: step) 
    qed
  qed
qed

lemma toUint8Clamp_of_int:
  "0 \<le> n \<Longrightarrow> n \<le> 255 \<Longrightarrow> toUint8Clamp (real_of_int n) = nat n"
  by (auto simp: toUint8Clamp_def Let_def)

lemma applyGradientFade_alpha:
  assumes "length (data c) = 4 * (width c * height c)" and "x < width c" and "y < height c"
  shows "data (applyGradientFade c direction amount) ! (4 * (y * width c + x) + 3)
       = toUint8Clamp (real_of_int (Math_round (fl (real (data c ! (4 * (y * width c + x) + 3))
            * max 0 (fl (1 - fl (gradientT direction (width c) (height c) x y * fl (amount / 100))))))))"
proof -
  let ?w = "width c" and ?h = "height c"
  let ?body = "\<lambda>p. gradientFadePixel direction (fl (amount / 100)) ?w ?h (p mod ?w) (p div ?w)"
  have d: "data (applyGradientFade c direction amount) = fold ?body [0..<?h * ?w] (data c)"
    by (simp add: applyGradientFade_def Let_def forYX_flat)
  let ?p = "y * ?w + x"
  have p: "?p < ?h * ?w"
  proof -
    have "y * ?w + x < y * ?w + ?w" using assms(2) by simp
    also have "\<dots> = Suc y * ?w" by simp
    also have "\<dots> \<le> ?h * ?w" using assms(3) by (intro mult_le_mono1) simp
    finally show ?thesis .
  qed
  have pm: "?p mod ?w = x" "?p div ?w = y" using assms(2) by simp_all
  have idx: "(4 * ?p + 3) div 4 = ?p" by simp
  have pp: "(p div ?w * ?w + p mod ?w) * 4 + 3 = 4 * p + 3" for p by simp
  have b: "?body p d = d[4 * p + 3 := toUint8Clamp (real_of_int (Math_round (fl (real (d ! (4 * p + 3))
            * max 0 (fl (1 - fl (gradientT direction ?w ?h (p mod ?w) (p div ?w) * fl (amount / 100))))))))]" for p d
    unfolding gradientFadePixel_def Let_def pp ..
  have "fold ?body [0..<?h * ?w] (data c) ! (4 * ?p + 3) = ?body ?p (data c) ! (4 * ?p + 3)"
  proof -
    have "\<forall>j. fold ?body [0..<?h * ?w] (data c) ! j
        = (if j div 4 < ?h * ?w then ?body (j div 4) (data c) ! j else data c ! j)"
    proof (rule fold_per_pixel [THEN conjunct2])
      show "length (?body p d) = length d" for p d by (simp only: b length_list_update)
      show "j div 4 \<noteq> p \<Longrightarrow> ?body p d ! j = d ! j" for p d j
        by (simp only: b) (rule nth_update_other_pixel, simp_all)
      show "length d = length d' \<Longrightarrow> (\<forall>i. i div 4 = p \<longrightarrow> d ! i = d' ! i)
                  \<Longrightarrow> j div 4 = p \<Longrightarrow> ?body p d ! j = ?body p d' ! j" for p d d' j
      proof -
        assume l: "length d = length d'" and e: "\<forall>i. i div 4 = p \<longrightarrow> d ! i = d' ! i" and j: "j div 4 = p"
        have e3: "d ! (4 * p + 3) = d' ! (4 * p + 3)" using e by simp
        have ej: "d ! j = d' ! j" using e j by simp
        show ?thesis by (simp only: b e3) (rule nth_update_local [OF l ej])
      qed
    qed
    then show ?thesis using p by (simp only: idx if_True)
  qed
  moreover have "4 * ?p + 3 < length (data c)" using p assms(1) by (simp add: mult.commute)
  moreover have "?body ?p (data c) = (data c)[4 * ?p + 3 := toUint8Clamp (real_of_int (Math_round (fl (real (data c ! (4 * ?p + 3))
            * max 0 (fl (1 - fl (gradientT direction ?w ?h x y * fl (amount / 100))))))))]"
    using b [of ?p "data c"] by (simp only: pm)
  ultimately show ?thesis
    by (simp only: d nth_list_update_eq)
qed

lemma applyGradientFade_leftmost:
  assumes "length (data c) = 4 * (width c * height c)"
    and "y < height c" and "0 < width c"
    and "data c ! (4 * (y * width c + 0) + 3) = 255"
  shows "data (applyGradientFade c 0 100) ! (4 * (y * width c + 0) + 3) = 255"
  using applyGradientFade_alpha [OF assms(1) assms(3) assms(2), of 0 100] assms(4)
    toUint8Clamp_of_int [of 255]
  by (simp add: gradientT_def Math_round_def fl_0 fl_numerals)

lemma applyGradientFade_rightmost:
  assumes "length (data c) = 4 * (width c * height c)"
    and "y < height c" and "0 < width c"
    and "data c ! (4 * (y * width c + (width c - 1)) + 3) = 255"
  shows "data (applyGradientFade c 0 100) ! (4 * (y * width c + (width c - 1)) + 3)
       = toUint8Clamp (real_of_int (Math_round (fl (255 *
            max 0 (fl (1 - fl (fl (real (width c - 1) / real (width c)) * 1)))))))"
proof -
  have x1: "width c - 1 < width c" using assms(3) by simp
  show ?thesis
    using applyGradientFade_alpha [OF assms(1) x1 assms(2), of 0 100] assms(4)
    by (simp add: gradientT_def fl_numerals)
qed

definition opaqueRow :: canvas where
  \<comment> \<open>4x1, opaque red\<close>
  "opaqueRow = \<lparr>width = 4, height = 1,
     data = [255, 0, 0, 255,  255, 0, 0, 255,  255, 0, 0, 255,  255, 0, 0, 255]\<rparr>"

text \<open>
  C7: with direction 0 and amount 100 on a fully opaque buffer four pixels wide, the leftmost
  pixel keeps alpha 255, as the claim says, but the rightmost pixel gets alpha 64 and not 0:
  its gradient position is \<open>x / w = 3 / 4\<close>, so \<open>t\<close> never reaches the 1 at which the fade
  is transparent. The alphas along the row are 255, 191, 128, 64.
\<close>

theorem applyGradientFade_rightmost_not_transparent:
  "data (applyGradientFade opaqueRow 0 100) ! 3 = 255
   \<and> data (applyGradientFade opaqueRow 0 100) ! 7 = 191
   \<and> data (applyGradientFade opaqueRow 0 100) ! 11 = 128
   \<and> data (applyGradientFade opaqueRow 0 100) ! 15 = 64"
proof -
  have h1: "length (data opaqueRow) = 4 * (width opaqueRow * height opaqueRow)"
    by (simp add: opaqueRow_def)
  have px: "data (applyGradientFade opaqueRow 0 100) ! (4 * (0 * width opaqueRow + x) + 3)
       = toUint8Clamp (real_of_int (Math_round (fl (real (data opaqueRow ! (4 * (0 * width opaqueRow + x) + 3))
            * max 0 (fl (1 - fl (gradientT 0 (width opaqueRow) (height opaqueRow) x 0 * fl (100 / 100))))))))"
    if "x < 4" for x
    by (rule applyGradientFade_alpha [OF h1]) (use that in \<open>simp_all add: opaqueRow_def\<close>)
  have a0: "data (applyGradientFade opaqueRow 0 100) ! 3 = 255"
    using px [of 0] by (simp add: opaqueRow_def gradientT_def Math_round_def toUint8Clamp_def fl_0 fl_numerals)
  have a1: "data (applyGradientFade opaqueRow 0 100) ! 7 = 191"
    using px [of 1] by (simp add: opaqueRow_def gradientT_def Math_round_def toUint8Clamp_def fl_0 fl_numerals)
  have a2: "data (applyGradientFade opaqueRow 0 100) ! 11 = 128"
    using px [of 2] by (simp add: opaqueRow_def gradientT_def Math_round_def toUint8Clamp_def fl_0 fl_numerals)
  have a3: "data (applyGradientFade opaqueRow 0 100) ! 15 = 64"
    using px [of 3] by (simp add: opaqueRow_def gradientT_def Math_round_def toUint8Clamp_def fl_0 fl_numerals)
  show ?thesis using a0 a1 a2 a3 by simp
qed

section \<open>Levels\<close>

definition Math_pow :: "real \<Rightarrow> real \<Rightarrow> real" where
  \<comment> \<open>\<^verbatim>\<open>Math.pow\<close> on a base that is not negative, for a finite exponent; a zero base with a
      negative exponent (infinity in JavaScript) is outside the model.\<close>
  "Math_pow x y = (if y = 0 then 1 else x powr y)"

definition levelsRange :: "real \<Rightarrow> real \<Rightarrow> real" where
  "levelsRange black white = max 1 (white - black)"

definition levelsValue :: "real \<Rightarrow> real \<Rightarrow> real \<Rightarrow> nat \<Rightarrow> int" where
  \<comment> \<open>the number computed for LUT entry \<open>i\<close>, before the store into the \<^verbatim>\<open>Uint8Array\<close>\<close>
  "levelsValue black white gamma i =
     (let v = (real i - black) / levelsRange black white;
          v = max 0 (min 1 v);
          v = Math_pow v (1 / gamma)
      in Math_round (v * 255))"

definition levelsLUT :: "real \<Rightarrow> real \<Rightarrow> real \<Rightarrow> nat list" where
  "levelsLUT black white gamma =
     map (\<lambda>i. toUint8 (real_of_int (levelsValue black white gamma i))) [0..<256]"

definition levelsPixel :: "nat list \<Rightarrow> bool \<Rightarrow> nat \<Rightarrow> nat list \<Rightarrow> nat list" where
  "levelsPixel lut monochrome i d =
     (if monochrome then
        (let gray = Math_round (real (d ! i) * 0.299 + real (d ! (i + 1)) * 0.587 + real (d ! (i + 2)) * 0.114);
             v = lut ! nat gray
         in d[i := v, i + 1 := v, i + 2 := v])
      else
        (let d = d[i := lut ! (d ! i)];
             d = d[i + 1 := lut ! (d ! (i + 1))];
             d = d[i + 2 := lut ! (d ! (i + 2))]
         in d))"

definition applyLevels :: "canvas \<Rightarrow> real \<Rightarrow> real \<Rightarrow> real \<Rightarrow> bool \<Rightarrow> canvas" where
  "applyLevels c black white gamma monochrome =
     (let lut = levelsLUT black white gamma
      in c\<lparr>data := forPixels (levelsPixel lut monochrome) (length (data c)) (data c)\<rparr>)"

lemma levelsRange_ge_1: "1 \<le> levelsRange black white"
  by (simp add: levelsRange_def)

lemma levelsValue_bounds:
  assumes "0 < gamma"
  shows "0 \<le> levelsValue black white gamma i" and "levelsValue black white gamma i \<le> 255"
proof -
  define v where "v = max 0 (min 1 ((real i - black) / levelsRange black white))"
  have v: "0 \<le> v" "v \<le> 1" by (simp_all add: v_def)
  have e: "1 / gamma \<noteq> 0" "0 \<le> 1 / gamma" using assms by simp_all
  have p0: "0 \<le> v powr (1 / gamma)" by simp
  have "v powr (1 / gamma) \<le> 1 powr (1 / gamma)"
    using v e(2) by (intro powr_mono2) simp_all
  then have p1: "v powr (1 / gamma) \<le> 1" by simp
  have val: "levelsValue black white gamma i = Math_round (v powr (1 / gamma) * 255)"
    using e(1) by (simp add: levelsValue_def Let_def v_def Math_pow_def)
  have "0 \<le> v powr (1 / gamma) * 255" "v powr (1 / gamma) * 255 \<le> 255"
    using p0 p1 by simp_all
  then show "0 \<le> levelsValue black white gamma i" "levelsValue black white gamma i \<le> 255"
    unfolding val Math_round_def by linarith+
qed

lemma toUint8_of_int:
  "0 \<le> n \<Longrightarrow> n \<le> 255 \<Longrightarrow> toUint8 (real_of_int n) = nat n"
  by (simp add: toUint8_def)

text \<open>
  C10: applyLevels divides by \<open>max 1 (white - black)\<close>, which is at least 1 for all black and
  white values, also when white is equal to or below black; the table has 256 entries, and
  each one is the rounded value itself, a number between 0 and 255 (the byte store does not
  wrap). The exponent \<open>1 / gamma\<close> is taken for a positive gamma, as the Gamma slider gives.
\<close>

theorem applyLevels_lut_total:
  assumes "0 < gamma"
  shows "1 \<le> levelsRange black white
       \<and> levelsRange black white = max 1 (white - black)
       \<and> length (levelsLUT black white gamma) = 256
       \<and> (\<forall>i < 256. 0 \<le> levelsValue black white gamma i
                    \<and> levelsValue black white gamma i \<le> 255
                    \<and> int (levelsLUT black white gamma ! i) = levelsValue black white gamma i
                    \<and> levelsLUT black white gamma ! i \<le> 255)"
proof -
  have "int (levelsLUT black white gamma ! i) = levelsValue black white gamma i
      \<and> levelsLUT black white gamma ! i \<le> 255" if "i < 256" for i
  proof -
    have "levelsLUT black white gamma ! i = nat (levelsValue black white gamma i)"
      using that levelsValue_bounds [OF assms, of black white i]
      by (simp add: levelsLUT_def toUint8_of_int)
    then show ?thesis using levelsValue_bounds [OF assms, of black white i] by simp
  qed
  then show ?thesis
    using levelsValue_bounds [OF assms] levelsRange_ge_1
    by (simp add: levelsLUT_def levelsRange_def)
qed

theorem applyLevels_lut_total_witness:
  "(0::real) < 1
   \<and> levelsRange 200 50 = 1
   \<and> levelsLUT 200 50 1 ! 199 = 0
   \<and> levelsLUT 200 50 1 ! 200 = 0
   \<and> levelsLUT 200 50 1 ! 201 = 255"
proof -
  have h: "(0::real) < 1" by simp
  note t = applyLevels_lut_total [OF h, of 200 50]
  have r: "levelsRange 200 50 = 1" using t by simp
  have v: "levelsValue 200 50 1 199 = 0" "levelsValue 200 50 1 200 = 0" "levelsValue 200 50 1 201 = 255"
    by (simp_all add: levelsValue_def r Math_pow_def Math_round_def)
  have "int (levelsLUT 200 50 1 ! 199) = 0" "int (levelsLUT 200 50 1 ! 200) = 0"
    "int (levelsLUT 200 50 1 ! 201) = 255"
    using t v by simp_all
  then show ?thesis using r by simp
qed

section \<open>Warp mesh\<close>

record point =
  pt_x :: real
  pt_y :: real

record mesh =
  rows :: int
  cols :: int
  points :: "point list"

definition getPoint :: "mesh \<Rightarrow> real \<Rightarrow> real \<Rightarrow> int \<Rightarrow> int \<Rightarrow> point" where
  \<comment> \<open>\<^verbatim>\<open>points[idx] || { x: c * cellW, y: r * cellH }\<close>: an index outside the array reads
      \<^verbatim>\<open>undefined\<close> and falls back to the uniform grid position\<close>
  "getPoint m cellW cellH r c =
     (let idx = r * cols m + c
      in if 0 \<le> idx \<and> idx < int (length (points m)) then points m ! nat idx
         else \<lparr>pt_x = real_of_int c * cellW, pt_y = real_of_int r * cellH\<rparr>)"

definition bilinear :: "real \<Rightarrow> real \<Rightarrow> point \<Rightarrow> point \<Rightarrow> point \<Rightarrow> point \<Rightarrow> point" where
  "bilinear x y p00 p10 p01 p11 =
     (let tx = x; ty = y;
          x0 = pt_x p00 * (1 - tx) + pt_x p10 * tx;
          x1 = pt_x p01 * (1 - tx) + pt_x p11 * tx;
          y0 = pt_y p00 * (1 - ty) + pt_y p10 * ty;
          y1 = pt_y p01 * (1 - ty) + pt_y p11 * ty
      in \<lparr>pt_x = x0 * (1 - ty) + x1 * ty, pt_y = y0 * (1 - ty) + y1 * ty\<rparr>)"

definition warpCell :: "nat \<Rightarrow> nat \<Rightarrow> mesh \<Rightarrow> nat \<Rightarrow> nat \<Rightarrow> int \<times> int" where
  \<comment> \<open>the mesh cell \<open>(ci, ri)\<close> of destination pixel \<open>(dx, dy)\<close>\<close>
  "warpCell w h m dx dy =
     (let cellW = real w / real_of_int (cols m - 1);
          cellH = real h / real_of_int (rows m - 1);
          gx = real dx / cellW;
          gy = real dy / cellH
      in (min (cols m - 2) \<lfloor>gx\<rfloor>, min (rows m - 2) \<lfloor>gy\<rfloor>))"

definition warpSrcPos :: "nat \<Rightarrow> nat \<Rightarrow> mesh \<Rightarrow> nat \<Rightarrow> nat \<Rightarrow> point" where
  \<comment> \<open>\<^verbatim>\<open>srcPos\<close>: the source position of destination pixel \<open>(dx, dy)\<close>\<close>
  "warpSrcPos w h m dx dy =
     (let cellW = real w / real_of_int (cols m - 1);
          cellH = real h / real_of_int (rows m - 1);
          gx = real dx / cellW;
          gy = real dy / cellH;
          ci = min (cols m - 2) \<lfloor>gx\<rfloor>;
          ri = min (rows m - 2) \<lfloor>gy\<rfloor>;
          fx = gx - real_of_int ci;
          fy = gy - real_of_int ri;
          p00 = getPoint m cellW cellH ri ci;
          p10 = getPoint m cellW cellH ri (ci + 1);
          p01 = getPoint m cellW cellH (ri + 1) ci;
          p11 = getPoint m cellW cellH (ri + 1) (ci + 1)
      in bilinear fx fy p00 p10 p01 p11)"

definition warpPixel :: "nat \<Rightarrow> nat \<Rightarrow> mesh \<Rightarrow> nat list \<Rightarrow> nat \<Rightarrow> nat \<Rightarrow> nat list \<Rightarrow> nat list" where
  \<comment> \<open>the body of the loop over destination pixels\<close>
  "warpPixel w h m src dx dy dst =
     (let srcPos = warpSrcPos w h m dx dy;
          sx = Math_round (pt_x srcPos);
          sy = Math_round (pt_y srcPos);
          di = (dy * w + dx) * 4
      in if 0 \<le> sx \<and> sx < int w \<and> 0 \<le> sy \<and> sy < int h then
           (let si = (nat sy * w + nat sx) * 4
            in dst[di := src ! si, di + 1 := src ! (si + 1), di + 2 := src ! (si + 2), di + 3 := src ! (si + 3)])
         else dst[di + 3 := 0])"

definition applyWarpMesh :: "canvas \<Rightarrow> mesh \<Rightarrow> canvas" where
  "applyWarpMesh c m =
     (let w = width c; h = height c;
          src = data c;
          dst = replicate (w * h * 4) 0
      in \<lparr>width = w, height = h, data = forYX h w (warpPixel w h m src) dst\<rparr>)"

definition bilinear_spec :: "real \<Rightarrow> real \<Rightarrow> point \<Rightarrow> point \<Rightarrow> point \<Rightarrow> point \<Rightarrow> point" where
  \<comment> \<open>From the specification's words: the bilinear interpolation of the four corner positions
      at the fractional position \<open>(fx, fy)\<close>, both coordinates alike.\<close>
  "bilinear_spec fx fy p00 p10 p01 p11 =
     \<lparr>pt_x = (pt_x p00 * (1 - fx) + pt_x p10 * fx) * (1 - fy) + (pt_x p01 * (1 - fx) + pt_x p11 * fx) * fy,
      pt_y = (pt_y p00 * (1 - fx) + pt_y p10 * fx) * (1 - fy) + (pt_y p01 * (1 - fx) + pt_y p11 * fx) * fy\<rparr>"

lemma pixel_index_neq:
  fixes j p :: nat
  assumes "j div 4 \<noteq> p"
  shows "j \<noteq> 4 * p" "j \<noteq> 4 * p + 1" "j \<noteq> 4 * p + 2" "j \<noteq> 4 * p + 3"
  using assms by presburger+

lemma pixel_in_canvas:
  fixes x y w h :: nat
  assumes "x < w" and "y < h"
  shows "y * w + x < h * w" and "(y * w + x) mod w = x" and "(y * w + x) div w = y"
proof -
  have "y * w + x < Suc y * w" using assms(1) by simp
  also have "\<dots> \<le> h * w" using assms(2) by (intro mult_le_mono1) simp
  finally show "y * w + x < h * w" .
  show "(y * w + x) mod w = x" "(y * w + x) div w = y" using assms(1) by simp_all
qed

lemma warpPixel_normal:
  "warpPixel w h m src (p mod w) (p div w) d =
     (let srcPos = warpSrcPos w h m (p mod w) (p div w);
          sx = Math_round (pt_x srcPos);
          sy = Math_round (pt_y srcPos)
      in if 0 \<le> sx \<and> sx < int w \<and> 0 \<le> sy \<and> sy < int h then
           d[4 * p := src ! (4 * (nat sy * w + nat sx)),
             4 * p + 1 := src ! (4 * (nat sy * w + nat sx) + 1),
             4 * p + 2 := src ! (4 * (nat sy * w + nat sx) + 2),
             4 * p + 3 := src ! (4 * (nat sy * w + nat sx) + 3)]
         else d[4 * p + 3 := 0])"
proof -
  have "(p div w * w + p mod w) * 4 = 4 * p" by simp
  then show ?thesis
    unfolding warpPixel_def Let_def by (simp only: mult.commute [of _ 4])
qed

lemma applyWarpMesh_pixel:
  assumes "x < width c" and "y < height c" and "ch < 4"
  shows "data (applyWarpMesh c m) ! (4 * (y * width c + x) + ch) =
     (let srcPos = warpSrcPos (width c) (height c) m x y;
          sx = Math_round (pt_x srcPos);
          sy = Math_round (pt_y srcPos)
      in if 0 \<le> sx \<and> sx < int (width c) \<and> 0 \<le> sy \<and> sy < int (height c)
         then data c ! (4 * (nat sy * width c + nat sx) + ch) else 0)"
proof -
  let ?w = "width c" and ?h = "height c"
  let ?body = "\<lambda>p. warpPixel ?w ?h m (data c) (p mod ?w) (p div ?w)"
  let ?d0 = "replicate (?w * ?h * 4) (0::nat)"
  let ?p = "y * ?w + x"
  note pc = pixel_in_canvas [OF assms(1,2)]
  have d: "data (applyWarpMesh c m) = fold ?body [0..<?h * ?w] ?d0"
    by (simp add: applyWarpMesh_def Let_def forYX_flat)
  have all: "\<forall>j. fold ?body [0..<?h * ?w] ?d0 ! j
        = (if j div 4 < ?h * ?w then ?body (j div 4) ?d0 ! j else ?d0 ! j)"
  proof (rule fold_per_pixel [THEN conjunct2])
    show "length (?body p d) = length d" for p d
      by (simp add: warpPixel_normal Let_def)
    show "j div 4 \<noteq> p \<Longrightarrow> ?body p d ! j = d ! j" for p d j
      by (simp add: warpPixel_normal Let_def pixel_index_neq)
    show "length d = length d' \<Longrightarrow> (\<forall>i. i div 4 = p \<longrightarrow> d ! i = d' ! i)
                  \<Longrightarrow> j div 4 = p \<Longrightarrow> ?body p d ! j = ?body p d' ! j" for p d d' j
    proof -
      assume l: "length d = length d'" and e: "\<forall>i. i div 4 = p \<longrightarrow> d ! i = d' ! i" and j: "j div 4 = p"
      have ej: "d ! j = d' ! j" using e j by simp
      have "d[i0 := a, i1 := b, i2 := e, i3 := f] ! j = d'[i0 := a, i1 := b, i2 := e, i3 := f] ! j"
        for i0 i1 i2 i3 a b e f
        using l ej by (intro nth_update_local) simp_all
      moreover have "d[i := a] ! j = d'[i := a] ! j" for i a
        using l ej by (rule nth_update_local)
      ultimately show ?thesis by (simp add: warpPixel_normal Let_def)
    qed
  qed
  have idx: "(4 * ?p + ch) div 4 = ?p" using assms(3) by simp
  have inb: "4 * ?p + ch < length ?d0" using pc(1) assms(3) by (simp add: mult.commute)
  have "data (applyWarpMesh c m) ! (4 * ?p + ch) = ?body ?p ?d0 ! (4 * ?p + ch)"
    using all pc(1) by (simp only: d idx if_True)
  also have "\<dots> = warpPixel ?w ?h m (data c) x y ?d0 ! (4 * ?p + ch)"
    by (simp only: pc)
  finally have r: "data (applyWarpMesh c m) ! (4 * ?p + ch) = warpPixel ?w ?h m (data c) x y ?d0 ! (4 * ?p + ch)" .
  have chc: "ch = 0 \<or> ch = 1 \<or> ch = 2 \<or> ch = 3" using assms(3) by linarith
  have n: "warpPixel ?w ?h m (data c) x y ?d0 =
     (let srcPos = warpSrcPos ?w ?h m x y;
          sx = Math_round (pt_x srcPos);
          sy = Math_round (pt_y srcPos)
      in if 0 \<le> sx \<and> sx < int ?w \<and> 0 \<le> sy \<and> sy < int ?h then
           ?d0[4 * ?p := data c ! (4 * (nat sy * ?w + nat sx)),
             4 * ?p + 1 := data c ! (4 * (nat sy * ?w + nat sx) + 1),
             4 * ?p + 2 := data c ! (4 * (nat sy * ?w + nat sx) + 2),
             4 * ?p + 3 := data c ! (4 * (nat sy * ?w + nat sx) + 3)]
         else ?d0[4 * ?p + 3 := 0])"
    using warpPixel_normal [of ?w ?h m "data c" ?p ?d0] by (simp only: pc)
  have l0: "4 * ?p + 3 < length ?d0" using pc(1) by (simp add: mult.commute)
  show ?thesis
    unfolding r n Let_def using chc l0 inb
    by (auto simp: nth_list_update)
qed

definition warpExampleMesh :: mesh where
  \<comment> \<open>a 2x2 mesh over a 4x4 canvas whose top-right control point is moved down by 2\<close>
  "warpExampleMesh = \<lparr>rows = 2, cols = 2,
     points = [\<lparr>pt_x = 0, pt_y = 0\<rparr>, \<lparr>pt_x = 4, pt_y = 2\<rparr>,
               \<lparr>pt_x = 0, pt_y = 4\<rparr>, \<lparr>pt_x = 4, pt_y = 4\<rparr>]\<rparr>"

definition warpExampleCanvas :: canvas where
  \<comment> \<open>a 4x4 canvas whose pixel number \<open>p\<close> is \<open>(p, p, p, 255)\<close>\<close>
  "warpExampleCanvas = \<lparr>width = 4, height = 4, data =
       [0, 0, 0, 255, 1, 1, 1, 255, 2, 2, 2, 255, 3, 3, 3, 255, 4, 4, 4, 255, 5, 5, 5,
        255, 6, 6, 6, 255, 7, 7, 7, 255, 8, 8, 8, 255, 9, 9, 9, 255, 10, 10, 10, 255,
        11, 11, 11, 255, 12, 12, 12, 255, 13, 13, 13, 255, 14, 14, 14, 255, 15, 15, 15,
        255]\<rparr>"

lemma warpExample_srcPos:
  "warpSrcPos 4 4 warpExampleMesh 2 0 = \<lparr>pt_x = 2, pt_y = 0\<rparr>"
  by (simp add: warpSrcPos_def warpExampleMesh_def getPoint_def bilinear_def Let_def)

lemma bilinear_x_is_bilinear:
  "pt_x (bilinear fx fy p00 p10 p01 p11) = pt_x (bilinear_spec fx fy p00 p10 p01 p11)"
  by (simp add: bilinear_def bilinear_spec_def)

lemma bilinear_y_on_level_rows:
  assumes "pt_y p00 = pt_y p10" and "pt_y p01 = pt_y p11"
  shows "bilinear fx fy p00 p10 p01 p11 = bilinear_spec fx fy p00 p10 p01 p11"
proof -
  have "a * (1 - fy) + a * fy = a * (1 - fx) + a * fx" for a :: real
    by (simp add: right_diff_distrib)
  then show ?thesis
    using assms by (simp add: bilinear_def bilinear_spec_def)
qed

lemma warpCell_clamped:
  assumes "2 \<le> cols m" and "2 \<le> rows m" and "0 < w" and "0 < h"
  shows "0 \<le> fst (warpCell w h m dx dy) \<and> fst (warpCell w h m dx dy) \<le> cols m - 2
       \<and> 0 \<le> snd (warpCell w h m dx dy) \<and> snd (warpCell w h m dx dy) \<le> rows m - 2"
proof -
  have c: "0 < real_of_int (cols m - 1)" "0 < real_of_int (rows m - 1)" using assms by simp_all
  have "0 \<le> real dx / (real w / real_of_int (cols m - 1))"
    using c(1) by (intro divide_nonneg_nonneg) simp_all
  then have a: "0 \<le> \<lfloor>real dx / (real w / real_of_int (cols m - 1))\<rfloor>" by (simp only: zero_le_floor)
  have "0 \<le> real dy / (real h / real_of_int (rows m - 1))"
    using c(2) by (intro divide_nonneg_nonneg) simp_all
  then have b: "0 \<le> \<lfloor>real dy / (real h / real_of_int (rows m - 1))\<rfloor>" by (simp only: zero_le_floor)
  show ?thesis using a b assms(1,2) unfolding warpCell_def Let_def fst_conv snd_conv by linarith
qed

text \<open>
  C8: at destination pixel (2, 0) of the example, the fractional position in the only cell is
  (1/2, 0). The bilinear interpolation of the four corner positions is (2, 1); the code's
  \<^verbatim>\<open>bilinear\<close> weights the corners' y coordinates along each row with \<open>ty\<close> where \<open>tx\<close>
  belongs and returns (2, 0), so the output pixel is source pixel (2, 0) and not (2, 1).
\<close>

theorem applyWarpMesh_y_not_bilinear:
  "warpCell 4 4 warpExampleMesh 2 0 = (0, 0)
   \<and> warpSrcPos 4 4 warpExampleMesh 2 0 = \<lparr>pt_x = 2, pt_y = 0\<rparr>
   \<and> bilinear_spec (1 / 2) 0 (points warpExampleMesh ! 0) (points warpExampleMesh ! 1)
         (points warpExampleMesh ! 2) (points warpExampleMesh ! 3) = \<lparr>pt_x = 2, pt_y = 1\<rparr>
   \<and> data (applyWarpMesh warpExampleCanvas warpExampleMesh) ! (4 * (0 * 4 + 2)) = 2
   \<and> data warpExampleCanvas ! (4 * (0 * 4 + 2)) = 2
   \<and> data warpExampleCanvas ! (4 * (1 * 4 + 2)) = 6"
proof -
  have cell: "warpCell 4 4 warpExampleMesh 2 0 = (0, 0)"
    by (simp add: warpCell_def warpExampleMesh_def Let_def)
  have spec: "bilinear_spec (1 / 2) 0 (points warpExampleMesh ! 0) (points warpExampleMesh ! 1)
         (points warpExampleMesh ! 2) (points warpExampleMesh ! 3) = \<lparr>pt_x = 2, pt_y = 1\<rparr>"
    by (simp add: bilinear_spec_def warpExampleMesh_def)
  have wh: "width warpExampleCanvas = 4" "height warpExampleCanvas = 4"
    by (simp_all add: warpExampleCanvas_def)
  have "data (applyWarpMesh warpExampleCanvas warpExampleMesh) ! (4 * (0 * width warpExampleCanvas + 2) + 0)
      = data warpExampleCanvas ! (4 * (0 * 4 + 2))"
    by (subst applyWarpMesh_pixel) (simp_all add: wh warpExample_srcPos Math_round_def)
  moreover have "data warpExampleCanvas ! (4 * (0 * 4 + 2)) = 2" "data warpExampleCanvas ! (4 * (1 * 4 + 2)) = 6"
    by (simp_all add: warpExampleCanvas_def)
  ultimately show ?thesis using cell spec warpExample_srcPos by (simp add: wh)
qed

section \<open>Perspective transform\<close>

datatype js_error = TypeError

definition perspectiveEquations :: "point list \<Rightarrow> point list \<Rightarrow> real list list \<times> real list" where
  \<comment> \<open>the loop that pushes two rows to \<^verbatim>\<open>A\<close> and two entries to \<^verbatim>\<open>B\<close> per point pair\<close>
  "perspectiveEquations src dst =
     fold (\<lambda>i (A, B).
             let sx = pt_x (src ! i); sy = pt_y (src ! i);
                 dx = pt_x (dst ! i); dy = pt_y (dst ! i)
             in (A @ [[sx, sy, 1, 0, 0, 0, fl (- sx * dx), fl (- sy * dx)]]
                   @ [[0, 0, 0, sx, sy, 1, fl (- sx * dy), fl (- sy * dy)]],
                 B @ [dx] @ [dy]))
          [0..<4] ([], [])"

definition findPivot :: "nat \<Rightarrow> nat \<Rightarrow> real list list \<Rightarrow> real \<times> nat" where
  \<comment> \<open>\<^verbatim>\<open>maxVal\<close> and \<^verbatim>\<open>maxRow\<close> after the search below row \<open>col\<close>\<close>
  "findPivot n col M =
     fold (\<lambda>row (maxVal, maxRow).
             if \<bar>M ! row ! col\<bar> > maxVal then (\<bar>M ! row ! col\<bar>, row) else (maxVal, maxRow))
          [col + 1..<n] (\<bar>M ! col ! col\<bar>, col)"

definition swapRows :: "nat \<Rightarrow> nat \<Rightarrow> real list list \<Rightarrow> real list list" where
  \<comment> \<open>\<^verbatim>\<open>[M[col], M[maxRow]] = [M[maxRow], M[col]]\<close>\<close>
  "swapRows col maxRow M = M[col := M ! maxRow, maxRow := M ! col]"

definition eliminateRow :: "nat \<Rightarrow> nat \<Rightarrow> nat \<Rightarrow> real list list \<Rightarrow> real list list" where
  "eliminateRow n col row M =
     (let factor = fl (M ! row ! col / M ! col ! col)
      in fold (\<lambda>j M. M[row := (M ! row)[j := fl (M ! row ! j - fl (factor * M ! col ! j))]]) [col..<n + 1] M)"

definition eliminate :: "nat \<Rightarrow> nat \<Rightarrow> real list list \<Rightarrow> real list list" where
  "eliminate n col M = fold (eliminateRow n col) [col + 1..<n] M"

definition eliminationStep :: "nat \<Rightarrow> nat \<Rightarrow> real list list \<Rightarrow> real list list" where
  \<comment> \<open>one round of the column loop once the pivot has passed the test\<close>
  "eliminationStep n col M = eliminate n col (swapRows col (snd (findPivot n col M)) M)"

function forwardElimination :: "nat \<Rightarrow> nat \<Rightarrow> real list list \<Rightarrow> real list list option" where
  "forwardElimination n col M =
     (if col < n then
        (if fst (findPivot n col M) < fl (1 / 10 ^ 10) then None
         else forwardElimination n (col + 1) (eliminationStep n col M))
      else Some M)"
  by pat_completeness auto
termination
  by (relation "measure (\<lambda>(n, col, M). n - col)") auto

definition backSubstitution :: "nat \<Rightarrow> real list list \<Rightarrow> real list" where
  "backSubstitution n M =
     fold (\<lambda>row x.
             let x = x[row := M ! row ! n];
                 x = fold (\<lambda>col x. x[row := fl (x ! row - fl (M ! row ! col * x ! col))]) [row + 1..<n] x
             in x[row := fl (x ! row / M ! row ! row)])
          (rev [0..<n]) (replicate n 0)"

definition augmented :: "real list list \<Rightarrow> real list \<Rightarrow> real list list" where
  \<comment> \<open>\<^verbatim>\<open>A.map((row, i) => [...row, B[i]])\<close>\<close>
  "augmented A B = map (\<lambda>(row, i). row @ [B ! i]) (zip A [0..<length A])"

definition solveLinearSystem :: "real list list \<Rightarrow> real list \<Rightarrow> real list option" where
  "solveLinearSystem A B =
     (let n = length B;
          M = augmented A B
      in case forwardElimination n 0 M of
           None \<Rightarrow> None
         | Some M \<Rightarrow> Some (backSubstitution n M))"

definition computePerspectiveTransform :: "point list \<Rightarrow> point list \<Rightarrow> js_error + real list" where
  \<comment> \<open>reading \<^verbatim>\<open>src[i].x\<close> of a missing point throws a \<^verbatim>\<open>TypeError\<close>\<close>
  "computePerspectiveTransform src dst =
     (if length src < 4 \<or> length dst < 4 then Inl TypeError
      else
        (let (A, B) = perspectiveEquations src dst
         in case solveLinearSystem A B of
              None \<Rightarrow> Inr [1, 0, 0, 0, 1, 0, 0, 0, 1]
            | Some result \<Rightarrow> Inr (result @ [1])))"



declare forwardElimination.simps [simp del]





lemma computePerspectiveTransform_returns:
  assumes "4 \<le> length src" and "4 \<le> length dst"
  shows "\<exists>m. computePerspectiveTransform src dst = Inr m"
  using assms by (auto simp: computePerspectiveTransform_def split: prod.splits option.splits)











section \<open>The environment of the filters\<close>

text \<open>
  Two things the filters use are not code of the engine: the sequence of results of
  \<^verbatim>\<open>Math.random()\<close> and the Canvas 2D renderer behind \<^verbatim>\<open>drawImage\<close> and \<^verbatim>\<open>strokeRect\<close>. Both
  are parameters of the model. A filter that draws random numbers takes the number of calls made so far and returns
  it updated. Five filters whose result is produced by further Canvas 2D rendering (CSS
  blur, arcs, scaled and blended redraws) are parameters as well: no property below depends
  on what they compute.
\<close>

record drawCmd =
  cmd_alpha :: real \<comment> \<open>\<^verbatim>\<open>ctx.globalAlpha\<close> at the call\<close>
  cmd_x :: real
  cmd_y :: real
  cmd_w :: real
  cmd_h :: real

type_synonym world = "canvas \<times> nat"

record env =
  rnd :: "nat \<Rightarrow> real" \<comment> \<open>the result of the \<open>k\<close>-th call of \<^verbatim>\<open>Math.random()\<close>\<close>
  drawImage :: "canvas \<Rightarrow> canvas \<Rightarrow> drawCmd \<Rightarrow> canvas"
    \<comment> \<open>\<^verbatim>\<open>ctx.drawImage(img, x, y, w, h)\<close> on the first canvas, under \<^verbatim>\<open>globalAlpha\<close>\<close>
  strokeRect :: "canvas \<Rightarrow> string \<Rightarrow> real \<Rightarrow> real \<Rightarrow> real \<Rightarrow> real \<Rightarrow> real \<Rightarrow> canvas"
    \<comment> \<open>\<^verbatim>\<open>ctx.strokeRect(x, y, w, h)\<close> under the given \<^verbatim>\<open>strokeStyle\<close> and \<^verbatim>\<open>lineWidth\<close>\<close>
  applyFrostedGlass :: "real \<Rightarrow> world \<Rightarrow> world"
  applyLineArt :: "real \<Rightarrow> real \<Rightarrow> real \<Rightarrow> world \<Rightarrow> world"
  applyFindEdges :: "real \<Rightarrow> real \<Rightarrow> world \<Rightarrow> world"
  applyHalftone :: "real \<Rightarrow> real \<Rightarrow> real \<Rightarrow> real \<Rightarrow> real \<Rightarrow> world \<Rightarrow> world"
  applyGameFilter :: "real \<Rightarrow> real \<Rightarrow> world \<Rightarrow> world"

definition blankCanvas :: "nat \<Rightarrow> nat \<Rightarrow> canvas" where
  \<comment> \<open>a new canvas, or a canvas after \<^verbatim>\<open>clearRect(0, 0, w, h)\<close>: transparent black\<close>
  "blankCanvas w h = \<lparr>width = w, height = h, data = replicate (w * h * 4) 0\<rparr>"

definition cloneCanvas :: "('a env_scheme) \<Rightarrow> canvas \<Rightarrow> canvas" where
  "cloneCanvas E src =
     drawImage E (blankCanvas (width src) (height src)) src
       \<lparr>cmd_alpha = 1, cmd_x = 0, cmd_y = 0, cmd_w = real (width src), cmd_h = real (height src)\<rparr>"

section \<open>Blur\<close>

definition gaussKernel :: "real \<Rightarrow> real list" where
  \<comment> \<open>the normalised kernel; its rounding to \<^verbatim>\<open>Float32Array\<close> entries is not modelled\<close>
  "gaussKernel radius =
     (let r = \<lceil>radius * 2.5\<rceil>;
          kernelSize = nat (r * 2 + 1);
          sigma = radius;
          raw = map (\<lambda>i. let x = real i - real_of_int r in exp (- (x * x) / (2 * sigma * sigma)))
                  [0..<kernelSize];
          sum = fold (\<lambda>v s. s + v) raw 0
      in map (\<lambda>v. v / sum) raw)"

definition clampIndex :: "nat \<Rightarrow> int \<Rightarrow> nat" where
  \<comment> \<open>\<^verbatim>\<open>Math.min(n - 1, Math.max(0, i))\<close>\<close>
  "clampIndex n i = nat (min (int n - 1) (max 0 i))"

definition gaussHorizontal :: "nat \<Rightarrow> int \<Rightarrow> real list \<Rightarrow> nat list \<Rightarrow> nat \<Rightarrow> nat \<Rightarrow> nat list \<Rightarrow> nat list" where
  "gaussHorizontal w r kern src x y tmp =
     (let acc = (\<lambda>ch. fold (\<lambda>k a.
                    let sx = clampIndex w (int x + int k - r);
                        si = (y * w + sx) * 4;
                        kv = kern ! k
                    in a + real (src ! (si + ch)) * kv) [0..<length kern] 0);
          di = (y * w + x) * 4
      in tmp[di := toUint8Clamp (acc 0), di + 1 := toUint8Clamp (acc 1),
             di + 2 := toUint8Clamp (acc 2), di + 3 := toUint8Clamp (acc 3)])"

definition gaussVertical :: "nat \<Rightarrow> nat \<Rightarrow> int \<Rightarrow> real list \<Rightarrow> nat list \<Rightarrow> nat \<Rightarrow> nat \<Rightarrow> nat list \<Rightarrow> nat list" where
  "gaussVertical w h r kern tmp x y src =
     (let acc = (\<lambda>ch. fold (\<lambda>k a.
                    let sy = clampIndex h (int y + int k - r);
                        si = (sy * w + x) * 4;
                        kv = kern ! k
                    in a + real (tmp ! (si + ch)) * kv) [0..<length kern] 0);
          di = (y * w + x) * 4
      in src[di := toUint8Clamp (acc 0), di + 1 := toUint8Clamp (acc 1),
             di + 2 := toUint8Clamp (acc 2), di + 3 := toUint8Clamp (acc 3)])"

definition gaussianBlur :: "canvas \<Rightarrow> real \<Rightarrow> canvas" where
  "gaussianBlur c radius =
     (let w = width c; h = height c;
          r = \<lceil>radius * 2.5\<rceil>;
          kern = gaussKernel radius;
          src = data c;
          tmp = replicate (length src) 0;
          tmp = forYX h w (gaussHorizontal w r kern src) tmp;
          src = forYX h w (gaussVertical w h r kern tmp) src
      in c\<lparr>data := src\<rparr>)"

definition boxHorizontal :: "nat \<Rightarrow> int \<Rightarrow> nat list \<Rightarrow> nat \<Rightarrow> nat \<Rightarrow> nat list \<Rightarrow> nat list" where
  "boxHorizontal w r copy x y d =
     (let (sr, sg, sb, cnt) = fold (\<lambda>dx (sr, sg, sb, cnt).
              let sx = nat (max 0 (min (int w - 1) (int x + dx)));
                  si = (y * w + sx) * 4
              in (sr + real (copy ! si), sg + real (copy ! (si + 1)), sb + real (copy ! (si + 2)), cnt + 1))
            [- r..r] (0, 0, 0, 0 :: real);
          di = (y * w + x) * 4
      in d[di := toUint8Clamp (sr / cnt), di + 1 := toUint8Clamp (sg / cnt), di + 2 := toUint8Clamp (sb / cnt)])"

definition boxVertical :: "nat \<Rightarrow> nat \<Rightarrow> int \<Rightarrow> nat list \<Rightarrow> nat \<Rightarrow> nat \<Rightarrow> nat list \<Rightarrow> nat list" where
  "boxVertical w h r copy2 x y d =
     (let (sr, sg, sb, cnt) = fold (\<lambda>dy (sr, sg, sb, cnt).
              let sy = nat (max 0 (min (int h - 1) (int y + dy)));
                  si = (sy * w + x) * 4
              in (sr + real (copy2 ! si), sg + real (copy2 ! (si + 1)), sb + real (copy2 ! (si + 2)), cnt + 1))
            [- r..r] (0, 0, 0, 0 :: real);
          di = (y * w + x) * 4
      in d[di := toUint8Clamp (sr / cnt), di + 1 := toUint8Clamp (sg / cnt), di + 2 := toUint8Clamp (sb / cnt)])"

definition boxBlur :: "canvas \<Rightarrow> real \<Rightarrow> canvas" where
  "boxBlur c radius =
     (let w = width c; h = height c;
          d = data c;
          copy = d;
          r = Math_round radius;
          d = forYX h w (boxHorizontal w r copy) d;
          copy2 = d;
          d = forYX h w (boxVertical w h r copy2) d
      in c\<lparr>data := d\<rparr>)"

definition Math_PI :: real where
  "Math_PI = pi"

definition motionBlurDraws :: "nat \<Rightarrow> nat \<Rightarrow> real \<Rightarrow> real \<Rightarrow> drawCmd list" where
  \<comment> \<open>the \<^verbatim>\<open>drawImage(orig3, t * mdx, t * mdy)\<close> calls of the motion blur, in order, each with
      the \<^verbatim>\<open>globalAlpha\<close> set before it\<close>
  "motionBlurDraws w h radius angle =
     (let rad = (angle * Math_PI) / 180;
          mdx = cos rad;
          mdy = sin rad;
          mSteps = min (Math_round (radius * 2)) 40;
          stepScale = (radius * 2) / real_of_int mSteps
      in map (\<lambda>i.
            let t = (real i / real_of_int mSteps - 0.5) * radius
                      * (if stepScale / radius = 0 then 1 else stepScale / radius)
            in \<lparr>cmd_alpha = 1 / real_of_int mSteps, cmd_x = t * mdx, cmd_y = t * mdy,
                cmd_w = real w, cmd_h = real h\<rparr>)
          [0..<nat mSteps])"

definition radialBlurDraws :: "nat \<Rightarrow> nat \<Rightarrow> real \<Rightarrow> drawCmd list" where
  "radialBlurDraws w h radius =
     (let rSteps = min (max 4 (Math_round (radius * 1.5))) 30
      in map (\<lambda>i.
            let sc = 1 + (real i / real_of_int rSteps - 0.5) * (radius / 100);
                rsw = real w * sc;
                rsh = real h * sc
            in \<lparr>cmd_alpha = 1 / real_of_int rSteps, cmd_x = (real w - rsw) / 2, cmd_y = (real h - rsh) / 2,
                cmd_w = rsw, cmd_h = rsh\<rparr>)
          [0..<nat rSteps])"

definition applyNewBlur :: "('a env_scheme) \<Rightarrow> canvas \<Rightarrow> real \<Rightarrow> real \<Rightarrow> real \<Rightarrow> canvas" where
  "applyNewBlur E c type radius angle =
     (if radius \<le> 0 \<or> type = 0 then c
      else if type = 1 then gaussianBlur c radius
      else if type = 2 then boxBlur c radius
      else if type = 3 then
        (let orig3 = cloneCanvas E c
         in fold (\<lambda>cmd cv. drawImage E cv orig3 cmd)
              (motionBlurDraws (width c) (height c) radius angle) (blankCanvas (width c) (height c)))
      else if type = 4 then
        (let orig4 = cloneCanvas E c
         in fold (\<lambda>cmd cv. drawImage E cv orig4 cmd)
              (radialBlurDraws (width c) (height c) radius) (blankCanvas (width c) (height c)))
      else c)"

lemma upt_0_20: "[0..<20] = [0, 1, 2, 3, 4, 5, 6, 7, 8, 9, 10, 11, 12, 13, 14, 15, 16, 17, 18, 19::nat]"
  by code_simp

lemma motionBlurDraws_offsets:
  assumes "0 < radius" and "1 \<le> Math_round (radius * 2)"
  shows "motionBlurDraws w h radius angle =
     (let N = min (Math_round (radius * 2)) 40
      in map (\<lambda>i. \<lparr>cmd_alpha = 1 / real_of_int N,
                    cmd_x = (real i / real_of_int N - 1 / 2) * (2 * radius / real_of_int N) * cos (angle * pi / 180),
                    cmd_y = (real i / real_of_int N - 1 / 2) * (2 * radius / real_of_int N) * sin (angle * pi / 180),
                    cmd_w = real w, cmd_h = real h\<rparr>) [0..<nat N])"
proof -
  let ?N = "min (Math_round (radius * 2)) 40"
  have n: "0 < real_of_int ?N" using assms(2) by simp
  have q: "radius * 2 / real_of_int ?N / radius = 2 / real_of_int ?N"
    using assms(1) by simp
  have nz: "2 / real_of_int ?N \<noteq> 0" using n by simp
  have "(x - 0.5) * radius * (2 / real_of_int ?N) = (x - 1 / 2) * (2 * radius / real_of_int ?N)" for x
    by simp
  then show ?thesis
    unfolding motionBlurDraws_def Let_def Math_PI_def q using nz by simp
qed

text \<open>
  C6: motion blur with radius 10 and angle 0 draws 20 copies at opacity 1/20, as the claim says,
  but their offsets along the direction run from -1/2 to 9/20 in steps of 1/20: the code
  multiplies \<open>(i / N - 0.5) * radius\<close>, which spans \<open>[-radius/2, radius/2)\<close>, by
  \<open>stepScale / radius = 2 / N\<close>, so the offsets do not span \<open>[-5, 5]\<close>.
\<close>

theorem motionBlur_offsets_at_radius_10:
  "map cmd_alpha (motionBlurDraws 100 100 10 0) = replicate 20 (1 / 20)
   \<and> map cmd_x (motionBlurDraws 100 100 10 0) =
        [- 1 / 2, - 9 / 20, - 2 / 5, - 7 / 20, - 3 / 10, - 1 / 4, - 1 / 5, - 3 / 20, - 1 / 10, - 1 / 20,
         0, 1 / 20, 1 / 10, 3 / 20, 1 / 5, 1 / 4, 3 / 10, 7 / 20, 2 / 5, 9 / 20]
   \<and> map cmd_y (motionBlurDraws 100 100 10 0) = replicate 20 0"
proof -
  have r: "Math_round 20 = 20" by (simp add: Math_round_def)
  have h1: "(0::real) < 10" by simp
  have h2: "1 \<le> Math_round (10 * 2)" by (simp add: r)
  have d: "motionBlurDraws 100 100 10 0 =
      map (\<lambda>i. \<lparr>cmd_alpha = 1 / 20, cmd_x = (real i / 20 - 1 / 2), cmd_y = 0, cmd_w = 100, cmd_h = 100\<rparr>) [0..<20]"
    using motionBlurDraws_offsets [OF h1 h2, of 100 100 0] by (simp add: r Let_def)
  have a: "map cmd_alpha (motionBlurDraws 100 100 10 0) = replicate 20 (1 / 20)"
    unfolding d by (simp add: comp_def map_replicate_const)
  have y: "map cmd_y (motionBlurDraws 100 100 10 0) = replicate 20 0"
    unfolding d by (simp add: comp_def map_replicate_const)
  have x: "map cmd_x (motionBlurDraws 100 100 10 0) =
        [- 1 / 2, - 9 / 20, - 2 / 5, - 7 / 20, - 3 / 10, - 1 / 4, - 1 / 5, - 3 / 20, - 1 / 10, - 1 / 20,
         0, 1 / 20, 1 / 10, 3 / 20, 1 / 5, 1 / 4, 3 / 10, 7 / 20, 2 / 5, 9 / 20]"
    unfolding d upt_0_20 by simp
  show ?thesis using a x y by simp
qed

section \<open>Noise\<close>

definition gaussRand :: "('a env_scheme) \<Rightarrow> nat \<Rightarrow> real \<times> nat" where
  \<comment> \<open>Box-Muller from two calls of \<^verbatim>\<open>Math.random()\<close>; \<^verbatim>\<open>u1 || 0.001\<close> replaces a zero\<close>
  "gaussRand E k =
     (let u1 = rnd E k;
          u2 = rnd E (k + 1)
      in (sqrt (- 2 * ln (if u1 = 0 then 0.001 else u1)) * cos (2 * Math_PI * u2), k + 2))"

definition addNoise :: "nat list \<Rightarrow> nat \<Rightarrow> real \<Rightarrow> nat list" where
  \<comment> \<open>\<^verbatim>\<open>data[j] = Math.max(0, Math.min(255, data[j] + n))\<close>\<close>
  "addNoise d j n = d[j := toUint8Clamp (clamp255 (real (d ! j) + n))]"

definition gaussianNoisePixel :: "('a env_scheme) \<Rightarrow> real \<Rightarrow> real \<Rightarrow> nat \<Rightarrow> nat list \<times> nat \<Rightarrow> nat list \<times> nat" where
  "gaussianNoisePixel E strength densityF i = (\<lambda>(d, k).
     if rnd E k > densityF then (d, k + 1)
     else
       (let (g, k) = gaussRand E (k + 1);
            n = g * strength * 0.4;
            d = addNoise d i n;
            d = addNoise d (i + 1) n;
            d = addNoise d (i + 2) n
        in (d, k)))"

definition filmGrainPixel :: "('a env_scheme) \<Rightarrow> real \<Rightarrow> real \<Rightarrow> nat \<Rightarrow> nat list \<times> nat \<Rightarrow> nat list \<times> nat" where
  "filmGrainPixel E strength densityF i = (\<lambda>(d, k).
     if rnd E k > densityF then (d, k + 1)
     else
       (let lum = (real (d ! i) * 0.299 + real (d ! (i + 1)) * 0.587 + real (d ! (i + 2)) * 0.114) / 255;
            midtoneFactor = 1 - \<bar>lum - 0.5\<bar> * 2;
            grainStrength = strength * 0.5 * (0.3 + midtoneFactor * 0.7);
            (g, k) = gaussRand E (k + 1);
            n = g * grainStrength;
            d = addNoise d i n;
            d = addNoise d (i + 1) n;
            d = addNoise d (i + 2) n
        in (d, k)))"

definition colorNoisePixel :: "('a env_scheme) \<Rightarrow> real \<Rightarrow> real \<Rightarrow> nat \<Rightarrow> nat list \<times> nat \<Rightarrow> nat list \<times> nat" where
  "colorNoisePixel E strength densityF i = (\<lambda>(d, k).
     if rnd E k > densityF then (d, k + 1)
     else
       (let (g1, k) = gaussRand E (k + 1); nr = g1 * strength * 0.5;
            (g2, k) = gaussRand E k; ng = g2 * strength * 0.5;
            (g3, k) = gaussRand E k; nb = g3 * strength * 0.5;
            d = addNoise d i nr;
            d = addNoise d (i + 1) ng;
            d = addNoise d (i + 2) nb
        in (d, k)))"

definition monoNoisePixel :: "('a env_scheme) \<Rightarrow> real \<Rightarrow> real \<Rightarrow> nat \<Rightarrow> nat list \<times> nat \<Rightarrow> nat list \<times> nat" where
  "monoNoisePixel E strength densityF i = (\<lambda>(d, k).
     if rnd E k > densityF then (d, k + 1)
     else
       (let n = (rnd E (k + 1) - 0.5) * strength;
            k = k + 2;
            d = addNoise d i n;
            d = addNoise d (i + 1) n;
            d = addNoise d (i + 2) n
        in (d, k)))"

definition applyNewNoise :: "('a env_scheme) \<Rightarrow> real \<Rightarrow> real \<Rightarrow> real \<Rightarrow> world \<Rightarrow> world" where
  "applyNewNoise E type amount density = (\<lambda>(c, k).
     if amount \<le> 0 \<or> type = 0 then (c, k)
     else
       (let strength = amount * 2.55;
            densityF = density / 100;
            n = length (data c);
            (d, k) =
              (if type = 1 then forPixels (gaussianNoisePixel E strength densityF) n (data c, k)
               else if type = 2 then forPixels (filmGrainPixel E strength densityF) n (data c, k)
               else if type = 3 then forPixels (colorNoisePixel E strength densityF) n (data c, k)
               else if type = 4 then forPixels (monoNoisePixel E strength densityF) n (data c, k)
               else (data c, k))
        in (c\<lparr>data := d\<rparr>, k)))"

section \<open>Posterize and invert\<close>

definition posterizeChannel :: "real \<Rightarrow> nat \<Rightarrow> nat" where
  \<comment> \<open>\<^verbatim>\<open>Math.round(Math.round(v / step) * step)\<close>, stored in the clamped array. With one
      level \<^verbatim>\<open>step\<close> is infinite in JavaScript and the stored byte is 0; here \<open>step\<close> is 0 and
      the byte is 0 as well.\<close>
  "posterizeChannel step v =
     toUint8Clamp (real_of_int (Math_round (real_of_int (Math_round (real v / step)) * step)))"

definition applyPosterize :: "canvas \<Rightarrow> real \<Rightarrow> canvas" where
  "applyPosterize c levels =
     (let step = 255 / (levels - 1)
      in c\<lparr>data := forPixels (\<lambda>i d.
            let d = d[i := posterizeChannel step (d ! i)];
                d = d[i + 1 := posterizeChannel step (d ! (i + 1))];
                d = d[i + 2 := posterizeChannel step (d ! (i + 2))]
            in d) (length (data c)) (data c)\<rparr>)"

definition applyInvert :: "canvas \<Rightarrow> canvas" where
  "applyInvert c =
     c\<lparr>data := forPixels (\<lambda>i d.
            let d = d[i := 255 - d ! i];
                d = d[i + 1 := 255 - d ! (i + 1)];
                d = d[i + 2 := 255 - d ! (i + 2)]
            in d) (length (data c)) (data c)\<rparr>"

section \<open>Colour spaces\<close>

definition rgbToHsl :: "real \<Rightarrow> real \<Rightarrow> real \<Rightarrow> real \<times> real \<times> real" where
  "rgbToHsl r0 g0 b0 =
     (let r = r0 / 255; g = g0 / 255; b = b0 / 255;
          mx = max (max r g) b; mn = min (min r g) b;
          l = (mx + mn) / 2
      in if mx \<noteq> mn then
           (let d = mx - mn;
                s = (if l > 0.5 then d / (2 - mx - mn) else d / (mx + mn));
                h = (if mx = r then ((g - b) / d + (if g < b then 6 else 0)) / 6
                     else if mx = g then ((b - r) / d + 2) / 6
                     else ((r - g) / d + 4) / 6)
            in (h * 360, s, l))
         else (0 * 360, 0, l))"

definition js_rem :: "real \<Rightarrow> real \<Rightarrow> real" where
  \<comment> \<open>the \<^verbatim>\<open>%\<close> operator: the remainder has the sign of the dividend\<close>
  "js_rem x m = x - m * real_of_int (if 0 \<le> x / m then \<lfloor>x / m\<rfloor> else \<lceil>x / m\<rceil>)"

definition hue2rgb :: "real \<Rightarrow> real \<Rightarrow> real \<Rightarrow> real" where
  "hue2rgb p q t0 =
     (let t = (if t0 < 0 then t0 + 1 else t0);
          t = (if t > 1 then t - 1 else t)
      in if t < 1 / 6 then p + (q - p) * 6 * t
         else if t < 1 / 2 then q
         else if t < 2 / 3 then p + (q - p) * (2 / 3 - t) * 6
         else p)"

definition hslToRgb :: "real \<Rightarrow> real \<Rightarrow> real \<Rightarrow> int \<times> int \<times> int" where
  "hslToRgb h0 s l =
     (let h = js_rem (js_rem h0 360 + 360) 360;
          h = h / 360
      in if s = 0 then (let v = Math_round (l * 255) in (v, v, v))
         else
           (let q = (if l < 0.5 then l * (1 + s) else l + s - l * s);
                p = 2 * l - q
            in (Math_round (hue2rgb p q (h + 1 / 3) * 255),
                Math_round (hue2rgb p q h * 255),
                Math_round (hue2rgb p q (h - 1 / 3) * 255))))"

definition storeInt :: "int \<Rightarrow> nat" where
  \<comment> \<open>an integer stored in a \<^verbatim>\<open>Uint8ClampedArray\<close>\<close>
  "storeInt v = toUint8Clamp (real_of_int v)"

section \<open>Hue, saturation and colour temperature\<close>

definition hueSatTempPixel :: "real \<Rightarrow> real \<Rightarrow> real \<Rightarrow> nat \<Rightarrow> nat list \<Rightarrow> nat list" where
  "hueSatTempPixel hueShift sF tempShift i d =
     (let r = real (d ! i); g = real (d ! (i + 1)); b = real (d ! (i + 2));
          (r, b) = (if tempShift \<noteq> 0
                    then (clamp255 (r + tempShift * 0.8), clamp255 (b - tempShift * 0.8))
                    else (r, b));
          (h, s, l) = rgbToHsl r g b;
          newH = h + hueShift;
          newS = max 0 (min 1 (s * sF));
          (nr, ng, nb) = hslToRgb newH newS l
      in d[i := storeInt nr, i + 1 := storeInt ng, i + 2 := storeInt nb])"

definition applyHueSatTemp :: "canvas \<Rightarrow> real \<Rightarrow> real \<Rightarrow> real \<Rightarrow> canvas" where
  "applyHueSatTemp c hueShift satShift tempShift =
     (let sF = 1 + satShift / 100
      in c\<lparr>data := forPixels (hueSatTempPixel hueShift sF tempShift) (length (data c)) (data c)\<rparr>)"

section \<open>Posterize styles, colour separation, channel shifts\<close>

definition retroPalette :: "int \<Rightarrow> int \<times> int \<times> int" where
  \<comment> \<open>\<^verbatim>\<open>palettes[Math.min(lv, 3)]\<close>\<close>
  "retroPalette lv =
     (let k = min lv 3
      in if k = 0 then (40, 30, 20) else if k = 1 then (120, 80, 40)
         else if k = 2 then (200, 160, 80) else (240, 220, 180))"

definition posterizeStylePixel :: "real \<Rightarrow> real \<Rightarrow> nat \<Rightarrow> nat list \<Rightarrow> nat list" where
  "posterizeStylePixel style colorShift i d =
     (let r = real (d ! i); g = real (d ! (i + 1)); b = real (d ! (i + 2));
          (r, g, b) = (if colorShift \<noteq> 0 then
                         (let (ph, ps, pl) = rgbToHsl r g b;
                              (pr, pg, pb) = hslToRgb (ph + colorShift) ps pl
                          in (real_of_int pr, real_of_int pg, real_of_int pb))
                       else (r, g, b))
      in if style = 1 then
           (let r = real_of_int (Math_round (r / 64) * 85);
                g = real_of_int (Math_round (g / 64) * 85);
                b = real_of_int (Math_round (b / 64) * 85);
                (h, s, l) = rgbToHsl r g b;
                (nr, ng, nb) = hslToRgb h (min 1 (s * 2.5)) l
            in d[i := storeInt nr, i + 1 := storeInt ng, i + 2 := storeInt nb])
         else if style = 2 then
           (let gray = r * 0.299 + g * 0.587 + b * 0.114;
                lv = \<lfloor>gray / 64\<rfloor>;
                (p0, p1, p2) = retroPalette lv
            in d[i := storeInt p0, i + 1 := storeInt p1, i + 2 := storeInt p2])
         else if style = 3 then
           (let r = real_of_int (Math_round (r / 85) * 85);
                g = real_of_int (Math_round (g / 85) * 85);
                b = real_of_int (Math_round (b / 85) * 85)
            in d[i := storeInt (Math_round (r * 0.5 + 128)),
                 i + 1 := storeInt (Math_round (g * 0.5 + 128)),
                 i + 2 := storeInt (Math_round (b * 0.5 + 128))])
         else if style = 4 then
           (let gray = r * 0.299 + g * 0.587 + b * 0.114;
                t = gray / 255
            in d[i := storeInt (Math_round (20 * (1 - t) + 255 * t)),
                 i + 1 := storeInt (Math_round (10 * (1 - t) + 200 * t)),
                 i + 2 := storeInt (Math_round (80 * (1 - t) + 50 * t))])
         else d)"

definition applyPosterizeStyle :: "canvas \<Rightarrow> real \<Rightarrow> real \<Rightarrow> canvas" where
  "applyPosterizeStyle c style colorShift =
     c\<lparr>data := forPixels (posterizeStylePixel style colorShift) (length (data c)) (data c)\<rparr>"

definition applyColorSeparation :: "canvas \<Rightarrow> real \<Rightarrow> real \<Rightarrow> real \<Rightarrow> real \<Rightarrow> canvas" where
  "applyColorSeparation c levR levG levB mix =
     (if mix \<le> 0 then c
      else
        (let stepR = 255 / (levR - 1);
             stepG = 255 / (levG - 1);
             stepB = 255 / (levB - 1);
             m = mix;
             m1 = 1 - m
         in c\<lparr>data := forPixels (\<lambda>i d.
               let sr = Math_round (real_of_int (Math_round (real (d ! i) / stepR)) * stepR);
                   sg = Math_round (real_of_int (Math_round (real (d ! (i + 1)) / stepG)) * stepG);
                   sb = Math_round (real_of_int (Math_round (real (d ! (i + 2)) / stepB)) * stepB);
                   d = d[i := storeInt (Math_round (real (d ! i) * m1 + real_of_int sr * m))];
                   d = d[i + 1 := storeInt (Math_round (real (d ! (i + 1)) * m1 + real_of_int sg * m))];
                   d = d[i + 2 := storeInt (Math_round (real (d ! (i + 2)) * m1 + real_of_int sb * m))]
               in d) (length (data c)) (data c)\<rparr>))"

definition channelShiftsPixel :: "real \<Rightarrow> real \<Rightarrow> real \<Rightarrow> nat \<Rightarrow> nat list \<Rightarrow> nat list" where
  "channelShiftsPixel rg yb pc i d =
     (let r = real (d ! i); g = real (d ! (i + 1)); b = real (d ! (i + 2));
          (r, g) = (if rg \<noteq> 0 then
                      (let shift = rg * 1.27 in (clamp255 (r + shift), clamp255 (g - shift)))
                    else (r, g));
          (r, g, b) = (if yb \<noteq> 0 then
                         (let shift = yb * 1.27
                          in (clamp255 (r + shift * 0.5), clamp255 (g + shift * 0.5), clamp255 (b - shift)))
                       else (r, g, b));
          (r, g, b) = (if pc \<noteq> 0 then
                         (let shift = pc * 1.27
                          in (clamp255 (r + shift * 0.5), clamp255 (g - shift), clamp255 (b + shift * 0.5)))
                       else (r, g, b))
      in d[i := toUint8Clamp r, i + 1 := toUint8Clamp g, i + 2 := toUint8Clamp b])"

definition applyChannelShifts :: "canvas \<Rightarrow> real \<Rightarrow> real \<Rightarrow> real \<Rightarrow> canvas" where
  "applyChannelShifts c rg yb pc =
     (if rg = 0 \<and> yb = 0 \<and> pc = 0 then c
      else c\<lparr>data := forPixels (channelShiftsPixel rg yb pc) (length (data c)) (data c)\<rparr>)"

section \<open>The per-layer adjustments\<close>

definition applyGlobalHueRotate :: "canvas \<Rightarrow> real \<Rightarrow> canvas" where
  "applyGlobalHueRotate c degrees =
     (if degrees = 0 then c
      else c\<lparr>data := forPixels (\<lambda>i d.
             let (h, s, l) = rgbToHsl (real (d ! i)) (real (d ! (i + 1))) (real (d ! (i + 2)));
                 (r, g, b) = hslToRgb (h + degrees) s l
             in d[i := storeInt r, i + 1 := storeInt g, i + 2 := storeInt b])
           (length (data c)) (data c)\<rparr>)"

definition layerSaturationPixel :: "real \<Rightarrow> nat \<Rightarrow> nat list \<Rightarrow> nat list" where
  "layerSaturationPixel factor i d =
     (let r = real (d ! i); g = real (d ! (i + 1)); b = real (d ! (i + 2));
          gray = 0.299 * r + 0.587 * g + 0.114 * b
      in d[i := toUint8Clamp (clamp255 (gray + (r - gray) * factor)),
           i + 1 := toUint8Clamp (clamp255 (gray + (g - gray) * factor)),
           i + 2 := toUint8Clamp (clamp255 (gray + (b - gray) * factor))])"

definition applyLayerSaturation :: "canvas \<Rightarrow> real \<Rightarrow> canvas" where
  "applyLayerSaturation c saturation =
     (if saturation = 100 then c
      else
        (let factor = saturation / 100
         in c\<lparr>data := forPixels (layerSaturationPixel factor) (length (data c)) (data c)\<rparr>))"

section \<open>Stroke\<close>

definition hexDigit :: "char \<Rightarrow> nat option" where
  "hexDigit ch =
     (let n = (of_char ch :: nat)
      in if 48 \<le> n \<and> n \<le> 57 then Some (n - 48)
         else if 97 \<le> n \<and> n \<le> 102 then Some (n - 87)
         else if 65 \<le> n \<and> n \<le> 70 then Some (n - 55)
         else None)"

fun parseHexDigits :: "string \<Rightarrow> nat option \<Rightarrow> nat option" where
  "parseHexDigits [] acc = acc"
| "parseHexDigits (ch # cs) acc =
     (case hexDigit ch of
        None \<Rightarrow> acc
      | Some v \<Rightarrow> parseHexDigits cs (Some ((case acc of None \<Rightarrow> 0 | Some a \<Rightarrow> a) * 16 + v)))"

definition parseInt16 :: "string \<Rightarrow> nat option" where
  \<comment> \<open>\<^verbatim>\<open>parseInt(s, 16)\<close> on a piece of a colour string: the longest prefix of hexadecimal
      digits, \<open>None\<close> for \<^verbatim>\<open>NaN\<close> (leading blanks, a sign and a \<^verbatim>\<open>0x\<close> prefix are not modelled)\<close>
  "parseInt16 s = parseHexDigits s None"

definition slice :: "string \<Rightarrow> nat \<Rightarrow> nat \<Rightarrow> string" where
  \<comment> \<open>\<^verbatim>\<open>s.slice(a, b)\<close> for \<open>0 \<le> a \<le> b\<close>\<close>
  "slice s a b = take (b - a) (drop a s)"

definition storeParsed :: "nat option \<Rightarrow> nat" where
  \<comment> \<open>a parsed colour component stored in the clamped array: \<^verbatim>\<open>NaN\<close> is stored as 0\<close>
  "storeParsed v = (case v of None \<Rightarrow> 0 | Some n \<Rightarrow> min n 255)"

definition alphaMask :: "canvas \<Rightarrow> nat list" where
  \<comment> \<open>\<^verbatim>\<open>alpha[i] = data[i * 4 + 3] > 128 ? 1 : 0\<close>\<close>
  "alphaMask c = map (\<lambda>i. if data c ! (i * 4 + 3) > 128 then 1 else 0) [0..<width c * height c]"

definition hasTransparency :: "nat \<Rightarrow> nat \<Rightarrow> nat list \<Rightarrow> bool" where
  \<comment> \<open>some transparent pixel that is not on the border\<close>
  "hasTransparency w h alpha =
     list_ex (\<lambda>i. alpha ! i = 0 \<and> 0 < i mod w \<and> int (i mod w) < int w - 1
                  \<and> 0 < i div w \<and> int (i div w) < int h - 1) [0..<w * h]"

definition edgePixel :: "nat \<Rightarrow> nat list \<Rightarrow> nat \<Rightarrow> nat \<Rightarrow> nat list \<times> nat list \<Rightarrow> nat list \<times> nat list" where
  \<comment> \<open>the body of the edge-map pass at an inner pixel \<open>(x, y)\<close>\<close>
  "edgePixel w alpha x y = (\<lambda>(innerEdge, outerEdge).
     let idx = y * w + x
     in if alpha ! idx \<noteq> 0 then
          (if alpha ! (idx - 1) = 0 \<or> alpha ! (idx + 1) = 0 \<or> alpha ! (idx - w) = 0 \<or> alpha ! (idx + w) = 0
           then (innerEdge[idx := 1], outerEdge) else (innerEdge, outerEdge))
        else
          (if alpha ! (idx - 1) \<noteq> 0 \<or> alpha ! (idx + 1) \<noteq> 0 \<or> alpha ! (idx - w) \<noteq> 0 \<or> alpha ! (idx + w) \<noteq> 0
           then (innerEdge, outerEdge[idx := 1]) else (innerEdge, outerEdge)))"

definition edgeMaps :: "nat \<Rightarrow> nat \<Rightarrow> nat list \<Rightarrow> nat list \<times> nat list" where
  \<comment> \<open>\<^verbatim>\<open>for (y = 1; y < h - 1; y++) for (x = 1; x < w - 1; x++)\<close>\<close>
  "edgeMaps w h alpha =
     fold (\<lambda>y s. fold (\<lambda>x s. edgePixel w alpha x y s) [1..<w - 1] s) [1..<h - 1]
       (replicate (w * h) 0, replicate (w * h) 0)"

definition uint16 :: "nat \<Rightarrow> nat" where
  \<comment> \<open>a coordinate stored in the \<^verbatim>\<open>Uint16Array\<close> frontier\<close>
  "uint16 n = n mod 65536"

definition expandNeighbor :: "nat \<Rightarrow> nat \<Rightarrow> nat list \<Rightarrow> nat \<Rightarrow> int \<times> int
     \<Rightarrow> nat list \<times> (nat \<times> nat) list \<Rightarrow> nat list \<times> (nat \<times> nat) list" where
  "expandNeighbor w h msk matchVal = (\<lambda>(nx, ny) (result, newFrontier).
     if nx \<ge> 0 \<and> nx < int w \<and> ny \<ge> 0 \<and> ny < int h then
       (let ni = nat ny * w + nat nx
        in if result ! ni = 0 \<and> msk ! ni = matchVal
           then (result[ni := 1], newFrontier @ [(uint16 (nat nx), uint16 (nat ny))])
           else (result, newFrontier))
     else (result, newFrontier))"

definition expandFrontier :: "nat \<Rightarrow> nat \<Rightarrow> nat list \<Rightarrow> nat \<Rightarrow> (nat \<times> nat) list \<Rightarrow> nat list
     \<Rightarrow> nat list \<times> (nat \<times> nat) list" where
  \<comment> \<open>one round of the dilation: the loop over the frontier\<close>
  "expandFrontier w h msk matchVal frontier result =
     fold (\<lambda>(fx, fy) s.
             let neighbors = [(int fx - 1, int fy), (int fx + 1, int fy), (int fx, int fy - 1), (int fx, int fy + 1)]
             in fold (expandNeighbor w h msk matchVal) neighbors s)
          frontier (result, [])"

fun dilateRounds :: "nat \<Rightarrow> nat \<Rightarrow> nat \<Rightarrow> nat list \<Rightarrow> nat \<Rightarrow> nat list \<times> (nat \<times> nat) list \<Rightarrow> nat list" where
  \<comment> \<open>the loop \<^verbatim>\<open>for (step = 1; step < width; step++)\<close> with the given number of rounds
      left; it breaks when a round leaves the frontier empty\<close>
  "dilateRounds 0 w h msk matchVal (result, frontier) = result"
| "dilateRounds (Suc n) w h msk matchVal (result, frontier) =
     (let (result, newFrontier) = expandFrontier w h msk matchVal frontier result
      in if newFrontier = [] then result
         else dilateRounds n w h msk matchVal (result, newFrontier))"

definition dilate :: "nat \<Rightarrow> nat \<Rightarrow> real \<Rightarrow> nat list \<Rightarrow> nat list \<Rightarrow> nat \<Rightarrow> nat list" where
  "dilate w h strokeWidth edge msk matchVal =
     (let result = edge;
          frontier = concat (map (\<lambda>y. concat (map (\<lambda>x.
                        if result ! (y * w + x) \<noteq> 0 then [(uint16 x, uint16 y)] else []) [0..<w])) [0..<h])
      in dilateRounds (nat (\<lceil>strokeWidth\<rceil> - 1)) w h msk matchVal (result, frontier))"

definition strokePaint :: "nat list \<Rightarrow> nat list \<Rightarrow> nat \<Rightarrow> nat \<Rightarrow> nat \<Rightarrow> nat \<Rightarrow> nat list \<Rightarrow> nat list" where
  \<comment> \<open>the body of the loop that paints the outer stroke\<close>
  "strokePaint dilated alpha cr cg cb i d =
     (if dilated ! i \<noteq> 0 \<and> alpha ! i = 0
      then (let p = i * 4 in d[p := cr, p + 1 := cg, p + 2 := cb, p + 3 := 255])
      else d)"

definition strokePaintInner :: "nat list \<Rightarrow> nat list \<Rightarrow> nat \<Rightarrow> nat \<Rightarrow> nat \<Rightarrow> nat \<Rightarrow> nat list \<Rightarrow> nat list" where
  \<comment> \<open>the body of the loop that paints the inner stroke\<close>
  "strokePaintInner dilated alpha cr cg cb i d =
     (if dilated ! i \<noteq> 0 \<and> alpha ! i \<noteq> 0
      then (let p = i * 4 in d[p := cr, p + 1 := cg, p + 2 := cb])
      else d)"

definition applyStroke :: "('a env_scheme) \<Rightarrow> canvas \<Rightarrow> string \<Rightarrow> real \<Rightarrow> bool \<Rightarrow> bool \<Rightarrow> canvas" where
  "applyStroke E c color strokeWidth inner outer =
     (let w = width c; h = height c;
          totalPx = w * h;
          cr = storeParsed (parseInt16 (slice color 1 3));
          cg = storeParsed (parseInt16 (slice color 3 5));
          cb = storeParsed (parseInt16 (slice color 5 7));
          alpha = alphaMask c
      in if \<not> hasTransparency w h alpha then
           (let c = (if outer then strokeRect E c color (strokeWidth * 2) (- strokeWidth) (- strokeWidth)
                                     (real w + strokeWidth * 2) (real h + strokeWidth * 2) else c);
                c = (if inner then strokeRect E c color (strokeWidth * 2) strokeWidth strokeWidth
                                     (real w - strokeWidth * 2) (real h - strokeWidth * 2) else c)
            in c)
         else
           (let (innerEdge, outerEdge) = edgeMaps w h alpha;
                d = data c;
                d = (if outer then
                       (let dilated = (if strokeWidth > 1 then dilate w h strokeWidth outerEdge alpha 0 else outerEdge)
                        in fold (strokePaint dilated alpha cr cg cb) [0..<totalPx] d)
                     else d);
                d = (if inner then
                       (let dilated = (if strokeWidth > 1 then dilate w h strokeWidth innerEdge alpha 1 else innerEdge)
                        in fold (strokePaintInner dilated alpha cr cg cb) [0..<totalPx] d)
                     else d)
            in c\<lparr>data := d\<rparr>))"

definition manhattan :: "nat \<Rightarrow> nat \<Rightarrow> nat \<Rightarrow> nat \<Rightarrow> nat" where
  \<comment> \<open>the 4-connected graph distance between two pixels of the grid\<close>
  "manhattan x y x' y' = nat (\<bar>int x - int x'\<bar> + \<bar>int y - int y'\<bar>)"

definition opaqueAt :: "canvas \<Rightarrow> nat \<Rightarrow> nat \<Rightarrow> bool" where
  \<comment> \<open>the pixel counts as opaque in the alpha mask\<close>
  "opaqueAt c x y \<longleftrightarrow> data c ! ((y * width c + x) * 4 + 3) > 128"

definition nearOpaque :: "canvas \<Rightarrow> nat \<Rightarrow> nat \<Rightarrow> nat \<Rightarrow> bool" where
  \<comment> \<open>some opaque pixel lies within graph distance \<open>n\<close> of \<open>(x, y)\<close>\<close>
  "nearOpaque c n x y \<longleftrightarrow>
     (\<exists>ox < width c. \<exists>oy < height c. opaqueAt c ox oy \<and> manhattan x y ox oy \<le> n)"

definition pixelAt :: "canvas \<Rightarrow> nat \<Rightarrow> nat \<Rightarrow> nat list" where
  "pixelAt c x y =
     (let i = (y * width c + x) * 4
      in [data c ! i, data c ! (i + 1), data c ! (i + 2), data c ! (i + 3)])"

definition pixelMeetsStroke :: "real \<Rightarrow> real \<Rightarrow> real \<Rightarrow> real \<Rightarrow> real \<Rightarrow> nat \<Rightarrow> nat \<Rightarrow> bool" where
  \<comment> \<open>the unit square of pixel \<open>(px, py)\<close> overlaps the band of half-width \<open>lw / 2\<close> around
      the outline of the rectangle \<open>(x, y, rw, rh)\<close>, mitred at the corners\<close>
  "pixelMeetsStroke lw x y rw rh px py \<longleftrightarrow>
     (real px + 1 > x - lw / 2 \<and> real px < x + rw + lw / 2
      \<and> real py + 1 > y - lw / 2 \<and> real py < y + rh + lw / 2)
     \<and> \<not> (x + lw / 2 \<le> real px \<and> real px + 1 \<le> x + rw - lw / 2
          \<and> y + lw / 2 \<le> real py \<and> real py + 1 \<le> y + rh - lw / 2)"

definition strokesWithinBand :: "('a env_scheme) \<Rightarrow> bool" where
  \<comment> \<open>what is asked of the renderer: stroking a rectangle keeps the canvas size and leaves
      alone every pixel that the stroked band does not overlap\<close>
  "strokesWithinBand E \<longleftrightarrow>
     (\<forall>c color lw x y rw rh. 0 < lw \<and> 0 < rw \<and> 0 < rh \<longrightarrow>
        width (strokeRect E c color lw x y rw rh) = width c
        \<and> height (strokeRect E c color lw x y rw rh) = height c
        \<and> (\<forall>px < width c. \<forall>py < height c. \<not> pixelMeetsStroke lw x y rw rh px py \<longrightarrow>
              pixelAt (strokeRect E c color lw x y rw rh) px py = pixelAt c px py))"

definition nearMask :: "nat \<Rightarrow> nat list \<Rightarrow> nat \<Rightarrow> nat \<Rightarrow> bool" where
  \<comment> \<open>pixel number \<open>i\<close> is within distance \<open>n\<close> of a pixel that the mask marks\<close>
  "nearMask w alpha n i \<longleftrightarrow>
     (\<exists>j < length alpha. alpha ! j \<noteq> 0 \<and> manhattan (i mod w) (i div w) (j mod w) (j div w) \<le> n)"

lemma manhattan_triangle:
  "manhattan x y x'' y'' \<le> manhattan x y x' y' + manhattan x' y' x'' y''"
  by (simp add: manhattan_def)

lemma nearMask_mono: "nearMask w alpha n i \<Longrightarrow> n \<le> m \<Longrightarrow> nearMask w alpha m i"
  unfolding nearMask_def by (meson le_trans)

lemma nearMask_step:
  assumes "nearMask w alpha n i"
    and "manhattan (k mod w) (k div w) (i mod w) (i div w) \<le> 1"
  shows "nearMask w alpha (Suc n) k"
proof -
  obtain j where j: "j < length alpha" "alpha ! j \<noteq> 0"
    "manhattan (i mod w) (i div w) (j mod w) (j div w) \<le> n"
    using assms(1) unfolding nearMask_def by blast
  have "manhattan (k mod w) (k div w) (j mod w) (j div w)
      \<le> manhattan (k mod w) (k div w) (i mod w) (i div w) + manhattan (i mod w) (i div w) (j mod w) (j div w)"
    by (rule manhattan_triangle)
  then have "manhattan (k mod w) (k div w) (j mod w) (j div w) \<le> Suc n"
    using assms(2) j(3) by linarith
  then show ?thesis unfolding nearMask_def using j(1,2) by blast
qed

lemma nearMask_self:
  "j < length alpha \<Longrightarrow> alpha ! j \<noteq> 0 \<Longrightarrow> nearMask w alpha 0 j"
  unfolding nearMask_def manhattan_def by auto

lemma inner_pixel_neighbours:
  fixes x y w h :: nat
  assumes "1 \<le> x" "x < w - 1" "1 \<le> y" "y < h - 1"
  shows "y * w + x < w * h" "y * w + x - 1 < w * h" "y * w + x + 1 < w * h"
    "y * w + x - w < w * h" "y * w + x + w < w * h"
    "(y * w + x) mod w = x" "(y * w + x) div w = y"
    "(y * w + x - 1) mod w = x - 1" "(y * w + x - 1) div w = y"
    "(y * w + x + 1) mod w = x + 1" "(y * w + x + 1) div w = y"
    "(y * w + x - w) mod w = x" "(y * w + x - w) div w = y - 1"
    "(y * w + x + w) mod w = x" "(y * w + x + w) div w = y + 1"
proof -
  have xw: "x < w" "x - 1 < w" "x + 1 < w" using assms by linarith+
  have yh: "y < h" "y + 1 < h" using assms by linarith+
  have a: "y * w + x' < w * h" if "x' < w" for x'
    using pixel_in_canvas(1) [OF that yh(1)] by (simp add: mult.commute)
  have b: "(y + 1) * w + x < w * h"
    using pixel_in_canvas(1) [OF xw(1) yh(2)] by (simp add: mult.commute)
  have m1: "y * w + x - 1 = y * w + (x - 1)" using assms(1) by simp
  have m2: "y * w + x + 1 = y * w + (x + 1)" by simp
  have m3: "y * w + x - w = (y - 1) * w + x"
  proof -
    have "y * w = (y - 1) * w + w" using assms(3) by (simp add: algebra_simps flip: mult_Suc)
    then show ?thesis by simp
  qed
  have m4: "y * w + x + w = (y + 1) * w + x" by simp
  show "y * w + x < w * h" using a [OF xw(1)] .
  show "y * w + x - 1 < w * h" unfolding m1 using a [OF xw(2)] .
  show "y * w + x + 1 < w * h" unfolding m2 using a [OF xw(3)] .
  have "(y - 1) * w + x \<le> y * w + x" by (simp add: mult_le_mono1)
  then show "y * w + x - w < w * h" unfolding m3 using a [OF xw(1)] by linarith
  show "y * w + x + w < w * h" unfolding m4 using b .
  have mm: "(y' * w + x') mod w = x' \<and> (y' * w + x') div w = y'" if "x' < w" for x' y'
    using that by simp
  show "(y * w + x) mod w = x" "(y * w + x) div w = y" using mm [OF xw(1)] by blast+
  show "(y * w + x - 1) mod w = x - 1" "(y * w + x - 1) div w = y" unfolding m1 using mm [OF xw(2)] by blast+
  show "(y * w + x + 1) mod w = x + 1" "(y * w + x + 1) div w = y" unfolding m2 using mm [OF xw(3)] by blast+
  show "(y * w + x - w) mod w = x" "(y * w + x - w) div w = y - 1" unfolding m3 using mm [OF xw(1)] by blast+
  show "(y * w + x + w) mod w = x" "(y * w + x + w) div w = y + 1" unfolding m4 using mm [OF xw(1)] by blast+
qed

definition outerEdgeInv :: "nat \<Rightarrow> nat \<Rightarrow> nat list \<Rightarrow> nat list \<times> nat list \<Rightarrow> bool" where
  "outerEdgeInv w h alpha s \<longleftrightarrow>
     length (snd s) = w * h \<and> (\<forall>i < w * h. snd s ! i \<noteq> 0 \<longrightarrow> nearMask w alpha 1 i)"

lemma edgePixel_outer:
  assumes "length alpha = w * h" and "1 \<le> x" "x < w - 1" "1 \<le> y" "y < h - 1"
    and "outerEdgeInv w h alpha s"
  shows "outerEdgeInv w h alpha (edgePixel w alpha x y s)"
proof -
  obtain ie oe where s: "s = (ie, oe)" by (cases s)
  note nb = inner_pixel_neighbours [OF assms(2-5)]
  have len: "length oe = w * h" and old: "\<And>i. i < w * h \<Longrightarrow> oe ! i \<noteq> 0 \<Longrightarrow> nearMask w alpha 1 i"
    using assms(6) by (simp_all add: outerEdgeInv_def s)
  let ?idx = "y * w + x"
  have near: "nearMask w alpha 1 ?idx"
    if "alpha ! (?idx - 1) \<noteq> 0 \<or> alpha ! (?idx + 1) \<noteq> 0 \<or> alpha ! (?idx - w) \<noteq> 0 \<or> alpha ! (?idx + w) \<noteq> 0"
  proof -
    from that consider "alpha ! (?idx - 1) \<noteq> 0" | "alpha ! (?idx + 1) \<noteq> 0"
      | "alpha ! (?idx - w) \<noteq> 0" | "alpha ! (?idx + w) \<noteq> 0" by blast
    then show ?thesis
    proof cases
      case 1
      have "manhattan (?idx mod w) (?idx div w) ((?idx - 1) mod w) ((?idx - 1) div w) \<le> 1"
        unfolding nb manhattan_def using assms(2) by simp
      then show ?thesis unfolding nearMask_def using 1 nb(2) assms(1) by auto
    next
      case 2
      have "manhattan (?idx mod w) (?idx div w) ((?idx + 1) mod w) ((?idx + 1) div w) \<le> 1"
        unfolding nb manhattan_def by simp
      then show ?thesis unfolding nearMask_def using 2 nb(3) assms(1) by auto
    next
      case 3
      have "manhattan (?idx mod w) (?idx div w) ((?idx - w) mod w) ((?idx - w) div w) \<le> 1"
        unfolding nb manhattan_def using assms(4) by simp
      then show ?thesis unfolding nearMask_def using 3 nb(4) assms(1) by auto
    next
      case 4
      have "manhattan (?idx mod w) (?idx div w) ((?idx + w) mod w) ((?idx + w) div w) \<le> 1"
        unfolding nb manhattan_def by simp
      then show ?thesis unfolding nearMask_def using 4 nb(5) assms(1) by auto
    qed
  qed
  have upd: "outerEdgeInv w h alpha (ie', oe[?idx := 1])" if n: "nearMask w alpha 1 ?idx" for ie'
  proof -
    have "nearMask w alpha 1 i" if "i < w * h" "oe[?idx := 1] ! i \<noteq> 0" for i
    proof (cases "i = ?idx")
      case True
      then show ?thesis using n by simp
    next
      case False
      then have "oe ! i \<noteq> 0" using that(2) by simp
      then show ?thesis using old that(1) by blast
    qed
    then show ?thesis unfolding outerEdgeInv_def using len by simp
  qed
  have keep: "outerEdgeInv w h alpha (ie', oe)" for ie'
    unfolding outerEdgeInv_def using len old by auto
  show ?thesis
    unfolding s edgePixel_def Let_def using near upd keep by (auto simp only: split: if_splits prod.splits)
qed

lemma edgeMaps_outer:
  assumes "length alpha = w * h"
  shows "outerEdgeInv w h alpha (edgeMaps w h alpha)"
  unfolding edgeMaps_def
proof (rule fold_invariant [where P = "outerEdgeInv w h alpha"])
  show "outerEdgeInv w h alpha (replicate (w * h) 0, replicate (w * h) 0)"
    by (simp add: outerEdgeInv_def)
next
  fix y s assume y: "y \<in> set [1..<h - 1]" and s: "outerEdgeInv w h alpha s"
  show "outerEdgeInv w h alpha (fold (\<lambda>x. edgePixel w alpha x y) [1..<w - 1] s)"
  proof (rule fold_invariant [where P = "outerEdgeInv w h alpha", OF s])
    fix x t assume "x \<in> set [1..<w - 1]" and "outerEdgeInv w h alpha t"
    then show "outerEdgeInv w h alpha (edgePixel w alpha x y t)"
      using y assms by (intro edgePixel_outer) simp_all
  qed
qed

definition dilateInv :: "nat \<Rightarrow> nat \<Rightarrow> nat list \<Rightarrow> nat \<Rightarrow> nat list \<times> (nat \<times> nat) list \<Rightarrow> bool" where
  "dilateInv w h alpha n s \<longleftrightarrow>
     length (fst s) = w * h
     \<and> (\<forall>i < w * h. fst s ! i \<noteq> 0 \<longrightarrow> nearMask w alpha n i)
     \<and> (\<forall>(fx, fy) \<in> set (snd s). fx < w \<and> fy < h \<and> fst s ! (fy * w + fx) \<noteq> 0)"

lemma expandNeighbor_inv:
  assumes big: "w \<le> 65536" "h \<le> 65536"
    and f: "fx < w" "fy < h" "nearMask w alpha n (fy * w + fx)"
    and nb: "(nx, ny) \<in> {(int fx - 1, int fy), (int fx + 1, int fy), (int fx, int fy - 1), (int fx, int fy + 1)}"
    and inv: "dilateInv w h alpha (Suc n) s"
  shows "dilateInv w h alpha (Suc n) (expandNeighbor w h msk matchVal (nx, ny) s)"
proof (cases "nx \<ge> 0 \<and> nx < int w \<and> ny \<ge> 0 \<and> ny < int h
               \<and> fst s ! (nat ny * w + nat nx) = 0 \<and> msk ! (nat ny * w + nat nx) = matchVal")
  case False
  then have "expandNeighbor w h msk matchVal (nx, ny) s = s"
    by (cases s) (auto simp: expandNeighbor_def Let_def)
  then show ?thesis using inv by simp
next
  case True
  obtain result nf where s: "s = (result, nf)" by (cases s)
  let ?ni = "nat ny * w + nat nx"
  have xb: "nat nx < w" and yb: "nat ny < h" using True by linarith+
  have e: "expandNeighbor w h msk matchVal (nx, ny) s
      = (result[?ni := 1], nf @ [(uint16 (nat nx), uint16 (nat ny))])"
    using True by (simp add: s expandNeighbor_def Let_def)
  have u: "uint16 (nat nx) = nat nx" "uint16 (nat ny) = nat ny"
    using xb yb big by (simp_all add: uint16_def)
  have len: "length result = w * h"
    and old: "\<And>i. i < w * h \<Longrightarrow> result ! i \<noteq> 0 \<Longrightarrow> nearMask w alpha (Suc n) i"
    and fr: "\<And>a b. (a, b) \<in> set nf \<Longrightarrow> a < w \<and> b < h \<and> result ! (b * w + a) \<noteq> 0"
    using inv by (auto simp: dilateInv_def s)
  have ni: "?ni < w * h" using pixel_in_canvas(1) [OF xb yb] by (simp add: mult.commute)
  have co: "?ni mod w = nat nx" "?ni div w = nat ny" "(fy * w + fx) mod w = fx" "(fy * w + fx) div w = fy"
    using xb f(1) by simp_all
  have "manhattan (nat nx) (nat ny) fx fy \<le> 1"
    using nb True by (auto simp: manhattan_def)
  then have near: "nearMask w alpha (Suc n) ?ni"
    using nearMask_step [OF f(3), of ?ni] by (simp only: co)
  have set_ne: "result[?ni := 1] ! i \<noteq> 0" if "result ! i \<noteq> 0 \<or> i = ?ni" "i < w * h" for i
    using that len by (cases "i = ?ni") simp_all
  have a: "\<forall>i < w * h. result[?ni := 1] ! i \<noteq> 0 \<longrightarrow> nearMask w alpha (Suc n) i"
  proof (intro allI impI)
    fix i assume i: "i < w * h" "result[?ni := 1] ! i \<noteq> 0"
    show "nearMask w alpha (Suc n) i"
    proof (cases "i = ?ni")
      case True then show ?thesis using near by simp
    next
      case False
      then have "result ! i \<noteq> 0" using i(2) by simp
      then show ?thesis using old i(1) by blast
    qed
  qed
  have b: "\<forall>(a, b) \<in> set (nf @ [(nat nx, nat ny)]). a < w \<and> b < h \<and> result[?ni := 1] ! (b * w + a) \<noteq> 0"
  proof (clarify)
    fix a b assume ab: "(a, b) \<in> set (nf @ [(nat nx, nat ny)])"
    show "a < w \<and> b < h \<and> result[?ni := 1] ! (b * w + a) \<noteq> 0"
    proof (cases "(a, b) = (nat nx, nat ny)")
      case True
      then show ?thesis using xb yb ni len by simp
    next
      case False
      then have m: "(a, b) \<in> set nf" using ab by auto
      then have r: "a < w" "b < h" "result ! (b * w + a) \<noteq> 0" using fr by blast+
      have "b * w + a < w * h" using pixel_in_canvas(1) [OF r(1,2)] by (simp add: mult.commute)
      then show ?thesis using r set_ne by blast
    qed
  qed
  show ?thesis
    unfolding e u dilateInv_def using a b len by simp
qed

lemma dilateInv_mono:
  assumes "dilateInv w h alpha n s" and "n \<le> m"
  shows "dilateInv w h alpha m s"
  using assms unfolding dilateInv_def by (meson nearMask_mono)

lemma expandFrontier_inv:
  assumes big: "w \<le> 65536" "h \<le> 65536"
    and inv: "dilateInv w h alpha n (result, frontier)"
  shows "dilateInv w h alpha (Suc n) (expandFrontier w h msk matchVal frontier result)"
  unfolding expandFrontier_def
proof (rule fold_invariant [where P = "dilateInv w h alpha (Suc n)"])
  have "dilateInv w h alpha n (result, [])"
    using inv by (simp add: dilateInv_def)
  then show "dilateInv w h alpha (Suc n) (result, [])"
    by (rule dilateInv_mono) simp
next
  fix p s assume p: "p \<in> set frontier" and s: "dilateInv w h alpha (Suc n) s"
  obtain fx fy where pf: "p = (fx, fy)" by (cases p)
  have f: "fx < w" "fy < h" "result ! (fy * w + fx) \<noteq> 0"
    using inv p by (auto simp: dilateInv_def pf)
  have "fy * w + fx < w * h" using pixel_in_canvas(1) [OF f(1,2)] by (simp add: mult.commute)
  then have near: "nearMask w alpha n (fy * w + fx)"
    using inv f(3) by (simp add: dilateInv_def)
  have "dilateInv w h alpha (Suc n)
      (fold (expandNeighbor w h msk matchVal)
         [(int fx - 1, int fy), (int fx + 1, int fy), (int fx, int fy - 1), (int fx, int fy + 1)] s)"
  proof (rule fold_invariant [where P = "dilateInv w h alpha (Suc n)", OF s])
    fix q t
    assume q: "q \<in> set [(int fx - 1, int fy), (int fx + 1, int fy), (int fx, int fy - 1), (int fx, int fy + 1)]"
      and t: "dilateInv w h alpha (Suc n) t"
    obtain nx ny where qn: "q = (nx, ny)" by (cases q)
    have "(nx, ny) \<in> {(int fx - 1, int fy), (int fx + 1, int fy), (int fx, int fy - 1), (int fx, int fy + 1)}"
      using q qn by simp
    then show "dilateInv w h alpha (Suc n) (expandNeighbor w h msk matchVal q t)"
      unfolding qn using expandNeighbor_inv [OF big f(1,2) near _ t] by blast
  qed
  then show "dilateInv w h alpha (Suc n)
      ((case p of (fx, fy) \<Rightarrow> \<lambda>s.
          let neighbors = [(int fx - 1, int fy), (int fx + 1, int fy), (int fx, int fy - 1), (int fx, int fy + 1)]
          in fold (expandNeighbor w h msk matchVal) neighbors s) s)"
    by (simp add: pf Let_def)
qed

lemma dilateRounds_near:
  assumes big: "w \<le> 65536" "h \<le> 65536"
    and inv: "dilateInv w h alpha n (result, frontier)"
    and i: "i < w * h" "dilateRounds k w h msk matchVal (result, frontier) ! i \<noteq> 0"
  shows "nearMask w alpha (n + k) i"
  using inv i(2)
proof (induction k arbitrary: n result frontier)
  case 0
  then show ?case using i(1) by (simp add: dilateInv_def)
next
  case (Suc k)
  obtain r' nf where e: "expandFrontier w h msk matchVal frontier result = (r', nf)"
    by (cases "expandFrontier w h msk matchVal frontier result")
  have inv': "dilateInv w h alpha (Suc n) (r', nf)"
    using expandFrontier_inv [OF big Suc.prems(1), of msk matchVal] by (simp add: e)
  show ?case
  proof (cases "nf = []")
    case True
    then have "r' ! i \<noteq> 0" using Suc.prems(2) by (simp add: e)
    then have "nearMask w alpha (Suc n) i" using inv' i(1) by (simp add: dilateInv_def)
    then show ?thesis by (rule nearMask_mono) simp
  next
    case False
    then have "dilateRounds k w h msk matchVal (r', nf) ! i \<noteq> 0"
      using Suc.prems(2) by (simp add: e)
    then have "nearMask w alpha (Suc n + k) i" using Suc.IH [OF inv'] by blast
    then show ?thesis by simp
  qed
qed

lemma dilate_near:
  assumes big: "w \<le> 65536" "h \<le> 65536"
    and edge: "length edge = w * h" "\<forall>i < w * h. edge ! i \<noteq> 0 \<longrightarrow> nearMask w alpha 1 i"
    and i: "i < w * h" "dilate w h (real n) edge msk matchVal ! i \<noteq> 0"
    and n: "1 \<le> n"
  shows "nearMask w alpha n i"
proof -
  let ?frontier = "concat (map (\<lambda>y. concat (map (\<lambda>x.
                        if edge ! (y * w + x) \<noteq> 0 then [(uint16 x, uint16 y)] else []) [0..<w])) [0..<h])"
  have fr: "\<forall>(fx, fy) \<in> set ?frontier. fx < w \<and> fy < h \<and> edge ! (fy * w + fx) \<noteq> 0"
  proof (clarify)
    fix fx fy assume "(fx, fy) \<in> set ?frontier"
    then obtain x y where xy: "y < h" "x < w" "edge ! (y * w + x) \<noteq> 0" "(fx, fy) = (uint16 x, uint16 y)"
      by (auto split: if_splits)
    have "uint16 x = x" "uint16 y = y" using xy(1,2) big by (simp_all add: uint16_def)
    then show "fx < w \<and> fy < h \<and> edge ! (fy * w + fx) \<noteq> 0" using xy by simp
  qed
  have inv: "dilateInv w h alpha 1 (edge, ?frontier)"
    unfolding dilateInv_def using edge fr by simp
  have rounds: "nat (\<lceil>real n\<rceil> - 1) = n - 1" using n by simp
  have "dilate w h (real n) edge msk matchVal = dilateRounds (n - 1) w h msk matchVal (edge, ?frontier)"
    unfolding dilate_def Let_def rounds ..
  then have "dilateRounds (n - 1) w h msk matchVal (edge, ?frontier) ! i \<noteq> 0"
    using i(2) by simp
  then have "nearMask w alpha (1 + (n - 1)) i"
    using dilateRounds_near [OF big inv i(1)] by blast
  then show ?thesis using n by simp
qed

lemma strokePaint_fold:
  assumes "p < n" and "ch < 4"
  shows "fold (strokePaint dilated alpha cr cg cb) [0..<n] d ! (4 * p + ch)
       = strokePaint dilated alpha cr cg cb p d ! (4 * p + ch)"
proof -
  let ?body = "strokePaint dilated alpha cr cg cb"
  have "\<forall>j. fold ?body [0..<n] d ! j = (if j div 4 < n then ?body (j div 4) d ! j else d ! j)"
  proof (rule fold_per_pixel [THEN conjunct2])
    show "length (?body p d) = length d" for p d
      by (simp add: strokePaint_def Let_def)
    show "j div 4 \<noteq> p \<Longrightarrow> ?body p d ! j = d ! j" for p d j
      by (simp add: strokePaint_def Let_def mult.commute [of _ 4] pixel_index_neq)
    show "length d = length d' \<Longrightarrow> (\<forall>i. i div 4 = p \<longrightarrow> d ! i = d' ! i)
                  \<Longrightarrow> j div 4 = p \<Longrightarrow> ?body p d ! j = ?body p d' ! j" for p d d' j
    proof -
      assume l: "length d = length d'" and e: "\<forall>i. i div 4 = p \<longrightarrow> d ! i = d' ! i" and j: "j div 4 = p"
      have ej: "d ! j = d' ! j" using e j by simp
      have "d[i0 := a, i1 := b, i2 := e, i3 := f] ! j = d'[i0 := a, i1 := b, i2 := e, i3 := f] ! j"
        for i0 i1 i2 i3 a b e f
        using l ej by (intro nth_update_local) simp_all
      then show ?thesis using ej by (simp add: strokePaint_def Let_def)
    qed
  qed
  moreover have "(4 * p + ch) div 4 = p" using assms(2) by simp
  ultimately show ?thesis using assms(1) by simp
qed

lemma alphaMask_nth:
  assumes "x < width c" and "y < height c"
  shows "alphaMask c ! (y * width c + x) = (if opaqueAt c x y then 1 else 0)"
proof -
  have "y * width c + x < width c * height c"
    using pixel_in_canvas(1) [OF assms] by (simp add: mult.commute)
  then show ?thesis by (simp add: alphaMask_def opaqueAt_def)
qed

lemma nearMask_nearOpaque:
  assumes "nearMask (width c) (alphaMask c) n (y * width c + x)" and "x < width c"
  shows "nearOpaque c n x y"
proof -
  let ?w = "width c"
  obtain j where j: "j < ?w * height c" "alphaMask c ! j \<noteq> 0"
    "manhattan ((y * ?w + x) mod ?w) ((y * ?w + x) div ?w) (j mod ?w) (j div ?w) \<le> n"
    using assms(1) unfolding nearMask_def by (auto simp: alphaMask_def)
  have w: "0 < ?w" using assms(2) by simp
  have ox: "j mod ?w < ?w" using w by simp
  have oy: "j div ?w < height c" using j(1) w by (simp add: less_mult_imp_div_less mult.commute)
  have jj: "j div ?w * ?w + j mod ?w = j" by simp
  have "opaqueAt c (j mod ?w) (j div ?w)"
    using j(2) alphaMask_nth [OF ox oy] by (simp add: jj split: if_splits)
  moreover have "manhattan x y (j mod ?w) (j div ?w) \<le> n"
    using j(3) assms(2) by simp
  ultimately show ?thesis unfolding nearOpaque_def using ox oy by blast
qed

lemma applyStroke_outer_fast_path:
  assumes band: "strokesWithinBand E" and n: "1 \<le> n"
    and x: "x < width c" and y: "y < height c"
  shows "pixelAt (strokeRect E c color (real n * 2) (- real n) (- real n)
            (real (width c) + real n * 2) (real (height c) + real n * 2)) x y = pixelAt c x y"
proof -
  have pos: "0 < real n * 2" "0 < real (width c) + real n * 2" "0 < real (height c) + real n * 2"
    using n x by simp_all
  have "\<not> pixelMeetsStroke (real n * 2) (- real n) (- real n)
            (real (width c) + real n * 2) (real (height c) + real n * 2) x y"
    using x y by (simp add: pixelMeetsStroke_def)
  then show ?thesis
    using band pos x y unfolding strokesWithinBand_def by blast
qed

text \<open>
  C3: with outer = true and inner = false, a pixel whose colour applyStroke changes was
  transparent in the input (alpha at most 128) and lies within \<open>width\<close> pixels, in 4-connected
  graph distance, of an opaque pixel; an opaque pixel keeps its colour. The width is a whole
  number of at least 1, as the Width slider gives; the canvas sides fit the 16-bit frontier
  entries; on the path for layers without inner transparency the renderer's \<^verbatim>\<open>strokeRect\<close>
  paints only what its band overlaps.
\<close>

theorem applyStroke_outer_containment:
  assumes band: "strokesWithinBand E"
    and n: "1 \<le> n"
    and big: "width c \<le> 65536" "height c \<le> 65536"
    and x: "x < width c" and y: "y < height c"
  shows "(pixelAt (applyStroke E c color (real n) False True) x y \<noteq> pixelAt c x y
           \<longrightarrow> \<not> opaqueAt c x y \<and> nearOpaque c n x y)
       \<and> (opaqueAt c x y \<longrightarrow> pixelAt (applyStroke E c color (real n) False True) x y = pixelAt c x y)"
proof -
  let ?w = "width c" and ?h = "height c"
  let ?alpha = "alphaMask c"
  let ?c' = "applyStroke E c color (real n) False True"
  let ?p = "y * ?w + x"
  have main: "\<not> opaqueAt c x y \<and> nearOpaque c n x y" if ch: "pixelAt ?c' x y \<noteq> pixelAt c x y"
  proof (cases "hasTransparency ?w ?h ?alpha")
    case False
    then have "?c' = strokeRect E c color (real n * 2) (- real n) (- real n)
            (real ?w + real n * 2) (real ?h + real n * 2)"
      by (simp add: applyStroke_def Let_def)
    then have "pixelAt ?c' x y = pixelAt c x y"
      using applyStroke_outer_fast_path [OF band n x y] by simp
    then show ?thesis using ch by simp
  next
    case True
    obtain ie oe where em: "edgeMaps ?w ?h ?alpha = (ie, oe)" by (cases "edgeMaps ?w ?h ?alpha")
    define dilated where "dilated = (if real n > 1 then dilate ?w ?h (real n) oe ?alpha 0 else oe)"
    define cr where "cr = storeParsed (parseInt16 (slice color 1 3))"
    define cg where "cg = storeParsed (parseInt16 (slice color 3 5))"
    define cb where "cb = storeParsed (parseInt16 (slice color 5 7))"
    have c': "?c' = c\<lparr>data := fold (strokePaint dilated ?alpha cr cg cb) [0..<?w * ?h] (data c)\<rparr>"
      using True by (simp add: applyStroke_def Let_def em dilated_def cr_def cg_def cb_def)
    have p: "?p < ?w * ?h" using pixel_in_canvas(1) [OF x y] by (simp add: mult.commute)
    have ent: "data ?c' ! (4 * ?p + k) = strokePaint dilated ?alpha cr cg cb ?p (data c) ! (4 * ?p + k)"
      if "k < 4" for k
      unfolding c' using strokePaint_fold [OF p that] by simp
    have painted: "dilated ! ?p \<noteq> 0 \<and> ?alpha ! ?p = 0"
    proof (rule ccontr)
      assume "\<not> (dilated ! ?p \<noteq> 0 \<and> ?alpha ! ?p = 0)"
      then have "strokePaint dilated ?alpha cr cg cb ?p (data c) = data c"
        unfolding strokePaint_def by (simp only: if_False)
      then have "data ?c' ! (4 * ?p + k) = data c ! (4 * ?p + k)" if "k < 4" for k
        using ent [OF that] by simp
      from this [of 0] this [of 1] this [of 2] this [of 3]
      have "pixelAt ?c' x y = pixelAt c x y"
        by (simp add: pixelAt_def Let_def c' mult.commute [of _ 4])
      then show False using ch by simp
    qed
    have la: "length ?alpha = ?w * ?h" by (simp add: alphaMask_def)
    have oe: "length oe = ?w * ?h" "\<forall>i < ?w * ?h. oe ! i \<noteq> 0 \<longrightarrow> nearMask ?w ?alpha 1 i"
      using edgeMaps_outer [OF la] by (simp_all add: outerEdgeInv_def em)
    have near: "nearMask ?w ?alpha n ?p"
    proof (cases "real n > 1")
      case True
      then have "dilate ?w ?h (real n) oe ?alpha 0 ! ?p \<noteq> 0"
        using painted by (simp add: dilated_def)
      then show ?thesis using dilate_near [OF big oe p _ n] by blast
    next
      case False
      then have "oe ! ?p \<noteq> 0" using painted by (simp add: dilated_def)
      then have "nearMask ?w ?alpha 1 ?p" using oe(2) p by blast
      then show ?thesis using n by (rule nearMask_mono)
    qed
    have "\<not> opaqueAt c x y"
      using painted alphaMask_nth [OF x y] by (simp split: if_splits)
    then show ?thesis using nearMask_nearOpaque [OF near x] by simp
  qed
  then show ?thesis by blast
qed

definition idleEnv :: env where
  \<comment> \<open>an environment whose renderer draws nothing and whose random numbers are all 0\<close>
  "idleEnv = \<lparr>rnd = (\<lambda>k. 0), drawImage = (\<lambda>dst src cmd. dst),
     strokeRect = (\<lambda>c color lw x y rw rh. c),
     applyFrostedGlass = (\<lambda>amount s. s), applyLineArt = (\<lambda>threshold blend colorBlend s. s),
     applyFindEdges = (\<lambda>strength blend s. s),
     applyHalftone = (\<lambda>dotSize angle colorMode colorBlend blendMode s. s),
     applyGameFilter = (\<lambda>mode intensity s. s)\<rparr>"

definition ringCanvas :: canvas where
  \<comment> \<open>3x3, opaque white with a fully transparent centre\<close>
  "ringCanvas = \<lparr>width = 3, height = 3, data =
     [255, 255, 255, 255,  255, 255, 255, 255,  255, 255, 255, 255,
      255, 255, 255, 255,  0, 0, 0, 0,          255, 255, 255, 255,
      255, 255, 255, 255,  255, 255, 255, 255,  255, 255, 255, 255]\<rparr>"

lemma idleEnv_strokesWithinBand: "strokesWithinBand idleEnv"
  by (simp add: strokesWithinBand_def idleEnv_def)

lemma upt_0_9: "[0..<9] = [0, 1, 2, 3, 4, 5, 6, 7, 8::nat]"
  by code_simp

lemma upt_1_2: "[Suc 0..<2] = [1::nat]"
  by code_simp

lemma ring_alphaMask: "alphaMask ringCanvas = [1, 1, 1, 1, 0, 1, 1, 1, 1]"
  by (simp add: alphaMask_def ringCanvas_def upt_0_9)

lemma ring_hasTransparency: "hasTransparency 3 3 [1, 1, 1, 1, 0, 1, 1, 1, 1]"
  by (simp add: hasTransparency_def upt_0_9)

lemma replicate_9: "replicate 9 x = [x, x, x, x, x, x, x, x, x]"
  by (simp add: numeral_eq_Suc)

lemma ring_edgePixel:
  "edgePixel 3 [1, 1, 1, 1, 0, 1, 1, 1, 1] 1 1 ([0, 0, 0, 0, 0, 0, 0, 0, 0], [0, 0, 0, 0, 0, 0, 0, 0, 0])
     = ([0, 0, 0, 0, 0, 0, 0, 0, 0], [0, 0, 0, 0, 1, 0, 0, 0, 0])"
  by (simp add: edgePixel_def)

lemma ring_edgeMaps:
  "edgeMaps 3 3 [1, 1, 1, 1, 0, 1, 1, 1, 1] =
     ([0, 0, 0, 0, 0, 0, 0, 0, 0], [0, 0, 0, 0, 1, 0, 0, 0, 0])"
proof -
  have u: "[1..<3 - 1] = [1::nat]" by code_simp
  have r: "replicate (3 * 3) (0::nat) = [0, 0, 0, 0, 0, 0, 0, 0, 0]"
    using replicate_9 [of "0::nat"] by simp
  show ?thesis
    unfolding edgeMaps_def u r by (simp only: fold_simps id_apply comp_apply ring_edgePixel)
qed

lemma ring_colour:
  "storeParsed (parseInt16 (slice ''#ff0000'' 1 3)) = 255"
  "storeParsed (parseInt16 (slice ''#ff0000'' 3 5)) = 0"
  "storeParsed (parseInt16 (slice ''#ff0000'' 5 7)) = 0"
  by (simp_all add: storeParsed_def parseInt16_def slice_def hexDigit_def)

lemma ring_paint:
  "fold (strokePaint [0, 0, 0, 0, 1, 0, 0, 0, 0] [1, 1, 1, 1, 0, 1, 1, 1, 1] 255 0 0) [0..<3 * 3] (data ringCanvas) =
     [255, 255, 255, 255,  255, 255, 255, 255,  255, 255, 255, 255,
      255, 255, 255, 255,  255, 0, 0, 255,      255, 255, 255, 255,
      255, 255, 255, 255,  255, 255, 255, 255,  255, 255, 255, 255]"
  by (simp add: strokePaint_def upt_0_9 ringCanvas_def)

lemma ring_stroke:
  "applyStroke idleEnv ringCanvas ''#ff0000'' 1 False True = \<lparr>width = 3, height = 3, data =
     [255, 255, 255, 255,  255, 255, 255, 255,  255, 255, 255, 255,
      255, 255, 255, 255,  255, 0, 0, 255,      255, 255, 255, 255,
      255, 255, 255, 255,  255, 255, 255, 255,  255, 255, 255, 255]\<rparr>"
proof -
  have wh: "width ringCanvas = 3" "height ringCanvas = 3" by (simp_all add: ringCanvas_def)
  have r: "\<not> (1::real) > 1" by simp
  have "applyStroke idleEnv ringCanvas ''#ff0000'' 1 False True =
      ringCanvas\<lparr>data := fold (strokePaint [0, 0, 0, 0, 1, 0, 0, 0, 0] [1, 1, 1, 1, 0, 1, 1, 1, 1] 255 0 0)
         [0..<3 * 3] (data ringCanvas)\<rparr>"
    unfolding applyStroke_def Let_def wh ring_alphaMask ring_colour
    by (simp only: ring_hasTransparency ring_edgeMaps r not_True_eq_False if_False if_True prod.case)
  then show ?thesis
    unfolding ring_paint by (simp add: ringCanvas_def)
qed

theorem applyStroke_outer_containment_witness:
  "strokesWithinBand idleEnv \<and> (1::nat) \<le> 1
   \<and> width ringCanvas \<le> 65536 \<and> height ringCanvas \<le> 65536
   \<and> 1 < width ringCanvas \<and> 1 < height ringCanvas
   \<and> pixelAt (applyStroke idleEnv ringCanvas ''#ff0000'' (real 1) False True) 1 1 = [255, 0, 0, 255]
   \<and> pixelAt ringCanvas 1 1 = [0, 0, 0, 0]
   \<and> \<not> opaqueAt ringCanvas 1 1 \<and> nearOpaque ringCanvas 1 1 1"
proof -
  have h: "(1::nat) \<le> 1" "width ringCanvas \<le> 65536" "height ringCanvas \<le> 65536"
    "1 < width ringCanvas" "1 < height ringCanvas"
    by (simp_all add: ringCanvas_def)
  have p: "pixelAt (applyStroke idleEnv ringCanvas ''#ff0000'' (real 1) False True) 1 1 = [255, 0, 0, 255]"
    by (simp add: ring_stroke pixelAt_def)
  have q: "pixelAt ringCanvas 1 1 = [0, 0, 0, 0]"
    by (simp add: ringCanvas_def pixelAt_def)
  have "\<not> opaqueAt ringCanvas 1 1 \<and> nearOpaque ringCanvas 1 1 1"
    using applyStroke_outer_containment [OF idleEnv_strokesWithinBand h(1,2,3,4,5), of "''#ff0000''"] p q
    by simp
  then show ?thesis using idleEnv_strokesWithinBand h p q by simp
qed

section \<open>Facet\<close>

definition setRGB :: "nat list \<Rightarrow> nat \<Rightarrow> nat \<Rightarrow> nat \<Rightarrow> nat \<Rightarrow> nat list" where
  \<comment> \<open>the three stores \<^verbatim>\<open>out[i] = r; out[i + 1] = g; out[i + 2] = b\<close>\<close>
  "setRGB d i r g b = d[i := r, i + 1 := g, i + 2 := b]"

definition inCanvas :: "nat \<Rightarrow> nat \<Rightarrow> int \<times> int \<Rightarrow> bool" where
  "inCanvas w h = (\<lambda>(px, py). px \<ge> 0 \<and> px < int w \<and> py \<ge> 0 \<and> py < int h)"

definition pixelIndex :: "nat \<Rightarrow> int \<Rightarrow> int \<Rightarrow> nat" where
  \<comment> \<open>\<^verbatim>\<open>(py * w + px) * 4\<close>\<close>
  "pixelIndex w px py = nat ((py * int w + px) * 4)"

definition darken85 :: "nat \<Rightarrow> nat list \<Rightarrow> nat list" where
  \<comment> \<open>\<^verbatim>\<open>out[ei] = Math.round(out[ei] * 0.85)\<close> on the three colour channels\<close>
  "darken85 ei out =
     (let out = out[ei := storeInt (Math_round (real (out ! ei) * 0.85))];
          out = out[ei + 1 := storeInt (Math_round (real (out ! (ei + 1)) * 0.85))];
          out = out[ei + 2 := storeInt (Math_round (real (out ! (ei + 2)) * 0.85))]
      in out)"

definition fillBlock :: "nat \<Rightarrow> nat \<Rightarrow> nat list \<Rightarrow> (int \<times> int) list \<Rightarrow> int \<Rightarrow> int \<Rightarrow> int \<Rightarrow> int
     \<Rightarrow> nat list \<Rightarrow> nat list" where
  "fillBlock w h src pixels x0 y0 x1 y1 out =
     (let (tr, tg, tb, cnt) = fold (\<lambda>(px, py) (tr, tg, tb, cnt).
              if inCanvas w h (px, py) then
                (let si = pixelIndex w px py
                 in (tr + real (src ! si), tg + real (src ! (si + 1)), tb + real (src ! (si + 2)), cnt + 1))
              else (tr, tg, tb, cnt)) pixels (0, 0, 0, 0 :: real)
      in if cnt = 0 then out
         else
           (let ar = storeInt (Math_round (tr / cnt));
                ag = storeInt (Math_round (tg / cnt));
                ab = storeInt (Math_round (tb / cnt));
                out = fold (\<lambda>(px, py) out.
                        if inCanvas w h (px, py) then setRGB out (pixelIndex w px py) ar ag ab else out)
                      pixels out;
                out = fold (\<lambda>xx out.
                        if y0 \<ge> 0 \<and> y0 < int h then darken85 (pixelIndex w xx y0) out else out)
                      [x0..min x1 (int w - 1)] out;
                out = fold (\<lambda>yy out.
                        if x0 \<ge> 0 \<and> x0 < int w then darken85 (pixelIndex w x0 yy) out else out)
                      [y0..min y1 (int h - 1)] out
            in out))"

definition blockStarts :: "nat \<Rightarrow> nat \<Rightarrow> int list" where
  \<comment> \<open>the values of \<^verbatim>\<open>for (b = 0; b < n; b += bs)\<close>, for \<open>bs > 0\<close>\<close>
  "blockStarts n bs = map (\<lambda>k. int (k * bs)) [0..<(n + bs - 1) div bs]"

definition blockPixels :: "int \<Rightarrow> int \<Rightarrow> int \<Rightarrow> int \<Rightarrow> (int \<times> int) list" where
  \<comment> \<open>\<^verbatim>\<open>for (yy = y0; yy <= y1; yy++) for (xx = x0; xx <= x1; xx++) pixels.push([xx, yy])\<close>\<close>
  "blockPixels x0 y0 x1 y1 = concat (map (\<lambda>yy. map (\<lambda>xx. (xx, yy)) [x0..x1]) [y0..y1])"

definition facetRectangles :: "('a env_scheme) \<Rightarrow> nat \<Rightarrow> nat \<Rightarrow> nat \<Rightarrow> nat list \<Rightarrow> nat list \<times> nat \<Rightarrow> nat list \<times> nat" where
  "facetRectangles E w h bs src =
     fold (\<lambda>by. fold (\<lambda>bx (out, k).
             let vw = max 2 (int bs + Math_round ((rnd E k - 0.5) * real bs * 0.6));
                 vh = max 2 (int bs + Math_round ((rnd E (k + 1) - 0.5) * real bs * 0.6));
                 x1 = min (int w - 1) (bx + vw);
                 y1 = min (int h - 1) (by + vh);
                 pixels = blockPixels bx by x1 y1
             in (fillBlock w h src pixels bx by x1 y1 out, k + 2))
           (blockStarts w bs)) (blockStarts h bs)"

definition facetTriangles :: "nat \<Rightarrow> nat \<Rightarrow> nat \<Rightarrow> nat list \<Rightarrow> nat list \<Rightarrow> nat list" where
  "facetTriangles w h bs src =
     fold (\<lambda>by. fold (\<lambda>bx out.
             let x1 = min (int w - 1) (bx + int bs);
                 y1 = min (int h - 1) (by + int bs);
                 inA = (\<lambda>(xx, yy).
                    let fx = real_of_int (xx - bx) / real_of_int (max 1 (x1 - bx));
                        fy = real_of_int (yy - by) / real_of_int (max 1 (y1 - by))
                    in fx + fy \<le> 1);
                 triA = filter inA (blockPixels bx by x1 y1);
                 triB = filter (\<lambda>p. \<not> inA p) (blockPixels bx by x1 y1);
                 out = fillBlock w h src triA bx by x1 y1 out;
                 out = fillBlock w h src triB bx by x1 y1 out
             in out)
           (blockStarts w bs)) (blockStarts h bs)"

record seed =
  seed_x :: int
  seed_y :: int
  seed_r :: nat
  seed_g :: nat
  seed_b :: nat

definition voronoiSeeds :: "('a env_scheme) \<Rightarrow> nat \<Rightarrow> nat \<Rightarrow> nat list \<Rightarrow> nat \<Rightarrow> nat \<Rightarrow> seed list \<times> nat" where
  \<comment> \<open>\<^verbatim>\<open>Math.random()\<close> is below 1, so the seed lies in the canvas\<close>
  "voronoiSeeds E w h src numSeeds k0 =
     fold (\<lambda>i (seeds, k).
             let sx = \<lfloor>rnd E k * real w\<rfloor>;
                 sy = \<lfloor>rnd E (k + 1) * real h\<rfloor>;
                 si = pixelIndex w sx sy
             in (seeds @ [\<lparr>seed_x = sx, seed_y = sy, seed_r = src ! si, seed_g = src ! (si + 1),
                           seed_b = src ! (si + 2)\<rparr>], k + 2))
          [0..<numSeeds] ([], k0)"

definition voronoiGrid :: "seed list \<Rightarrow> int \<Rightarrow> int \<Rightarrow> int \<Rightarrow> nat list list" where
  \<comment> \<open>the seeds' numbers, bucketed by grid cell\<close>
  "voronoiGrid seeds cellSz gridW gridH =
     fold (\<lambda>i grid.
             let gx = min (gridW - 1) (seed_x (seeds ! i) div cellSz);
                 gy = min (gridH - 1) (seed_y (seeds ! i) div cellSz);
                 gi = nat (gy * gridW + gx)
             in grid[gi := grid ! gi @ [i]])
          [0..<length seeds] (replicate (nat (gridW * gridH)) [])"

definition voronoiNearest :: "seed list \<Rightarrow> nat list list \<Rightarrow> int \<Rightarrow> int \<Rightarrow> int \<Rightarrow> int \<Rightarrow> int \<Rightarrow> int \<Rightarrow> nat" where
  \<comment> \<open>\<^verbatim>\<open>bestIdx\<close> after the search of the 5x5 cells around cell \<open>(gx, gy)\<close>; \<open>None\<close> is the
      initial \<^verbatim>\<open>minDist = Infinity\<close>\<close>
  "voronoiNearest seeds grid gridW gridH gx gy x y =
     snd (fold (\<lambda>dy. fold (\<lambda>dx (minDist, bestIdx).
             let ny = gy + dy; nx = gx + dx
             in if ny < 0 \<or> ny \<ge> gridH \<or> nx < 0 \<or> nx \<ge> gridW then (minDist, bestIdx)
                else fold (\<lambda>si (minDist, bestIdx).
                        let s = seeds ! si;
                            ddx = x - seed_x s; ddy = y - seed_y s;
                            dist = ddx * ddx + ddy * ddy
                        in if (case minDist of None \<Rightarrow> True | Some m \<Rightarrow> dist < m)
                           then (Some dist, si) else (minDist, bestIdx))
                      (grid ! nat (ny * gridW + nx)) (minDist, bestIdx))
           [- 2..2]) [- 2..2] (None, 0))"

definition facetVoronoi :: "('a env_scheme) \<Rightarrow> nat \<Rightarrow> nat \<Rightarrow> nat \<Rightarrow> nat list \<Rightarrow> nat list \<times> nat \<Rightarrow> nat list \<times> nat" where
  "facetVoronoi E w h bs src = (\<lambda>(out, k).
     let numSeeds = nat (max 20 (Math_round (real (w * h) / real (bs * bs * 2))));
         (seeds, k) = voronoiSeeds E w h src numSeeds k;
         cellSz = max 1 \<lfloor>sqrt (real (w * h) / real numSeeds)\<rfloor>;
         gridW = \<lceil>real w / real_of_int cellSz\<rceil>;
         gridH = \<lceil>real h / real_of_int cellSz\<rceil>;
         grid = voronoiGrid seeds cellSz gridW gridH;
         out = forYX h w (\<lambda>x y out.
                 let gy = min (gridH - 1) (int y div cellSz);
                     gx = min (gridW - 1) (int x div cellSz);
                     best = seeds ! voronoiNearest seeds grid gridW gridH gx gy (int x) (int y);
                     di = (y * w + x) * 4
                 in setRGB out di (seed_r best) (seed_g best) (seed_b best)) out
     in (out, k))"

definition facetDiamonds :: "nat \<Rightarrow> nat \<Rightarrow> nat \<Rightarrow> nat list \<Rightarrow> nat list \<Rightarrow> nat list" where
  "facetDiamonds w h bs src =
     (let halfBS = max 2 (Math_round (real bs / 2))
      in fold (\<lambda>by. fold (\<lambda>bx out.
             let cx = bx + halfBS; cy = by + halfBS;
                 cellPixels = blockPixels bx by (min (int w) (bx + int bs) - 1) (min (int h) (by + int bs) - 1);
                 inDiamond = (\<lambda>(xx, yy). \<bar>xx - cx\<bar> + \<bar>yy - cy\<bar> \<le> halfBS);
                 diamond = filter inDiamond cellPixels;
                 out = (if length diamond > 0
                        then fillBlock w h src diamond bx by (min (int w - 1) (bx + int bs)) (min (int h - 1) (by + int bs)) out
                        else out);
                 out = fold (\<lambda>(xx, yy) out.
                         if \<not> inDiamond (xx, yy) then
                           (let si = pixelIndex w xx yy
                            in setRGB out si (storeInt (Math_round (real (src ! si) * 0.8)))
                                 (storeInt (Math_round (real (src ! (si + 1)) * 0.8)))
                                 (storeInt (Math_round (real (src ! (si + 2)) * 0.8))))
                         else out) cellPixels out
             in out)
           (blockStarts w bs)) (blockStarts h bs))"

definition applyFacet :: "('a env_scheme) \<Rightarrow> real \<Rightarrow> real \<Rightarrow> world \<Rightarrow> world" where
  "applyFacet E mode blockSize = (\<lambda>(c, k).
     let w = width c; h = height c;
         src = data c;
         out = data c;
         bs = nat (max 3 (Math_round blockSize));
         (out, k) = (if mode = 1 then facetRectangles E w h bs src (out, k)
                     else if mode = 2 then (facetTriangles w h bs src out, k)
                     else if mode = 3 then facetVoronoi E w h bs src (out, k)
                     else if mode = 4 then (facetDiamonds w h bs src out, k)
                     else (out, k))
     in (c\<lparr>data := out\<rparr>, k))"

section \<open>Oil paint and palette knife\<close>

definition toInt32 :: "real \<Rightarrow> int" where
  \<comment> \<open>\<^verbatim>\<open>v | 0\<close>: truncate towards zero, then wrap to a signed 32-bit integer\<close>
  "toInt32 v =
     (let t = (if 0 \<le> v then \<lfloor>v\<rfloor> else \<lceil>v\<rceil>);
          m = t mod 2 ^ 32
      in if m \<ge> 2 ^ 31 then m - 2 ^ 32 else m)"

definition steppedRange :: "int \<Rightarrow> int \<Rightarrow> nat \<Rightarrow> int list" where
  \<comment> \<open>the values of \<^verbatim>\<open>for (s = a; s <= b; s += step)\<close>, for \<open>step > 0\<close>\<close>
  "steppedRange a b step =
     (if b < a then [] else map (\<lambda>k. a + int (k * step)) [0..<nat (b - a) div step + 1])"

type_synonym bins = "nat list \<times> nat list \<times> nat list \<times> nat list"

definition addToBin :: "nat list \<Rightarrow> nat \<Rightarrow> nat \<Rightarrow> bins \<Rightarrow> bins" where
  \<comment> \<open>\<^verbatim>\<open>bins[bin]++; binsR[bin] += src[si]; binsG[bin] += src[si + 1]; binsB[bin] += src[si + 2]\<close>;
      a store beyond the end of a typed array is ignored\<close>
  "addToBin src si bin = (\<lambda>(bins, binsR, binsG, binsB).
     (bins[bin := bins ! bin + 1], binsR[bin := binsR ! bin + src ! si],
      binsG[bin := binsG ! bin + src ! (si + 1)], binsB[bin := binsB ! bin + src ! (si + 2)]))"

definition largestBin :: "nat list \<Rightarrow> nat list \<Rightarrow> nat \<times> nat" where
  \<comment> \<open>\<^verbatim>\<open>maxBin\<close> and \<^verbatim>\<open>maxCount\<close> after the scan over the given bin numbers; reading beyond
      the end gives \<^verbatim>\<open>undefined\<close>, which compares false\<close>
  "largestBin bins bs =
     fold (\<lambda>b (maxBin, maxCount).
             if b < length bins \<and> bins ! b > maxCount then (b, bins ! b) else (maxBin, maxCount))
          bs (0, if bins = [] then 0 else bins ! 0)"

definition modeColour :: "nat list \<Rightarrow> nat \<Rightarrow> bins \<Rightarrow> nat list \<Rightarrow> nat list \<Rightarrow> nat list" where
  \<comment> \<open>the stores into \<^verbatim>\<open>out\<close> at pixel offset \<open>di\<close> that end the body of both filters\<close>
  "modeColour src di = (\<lambda>(bins, binsR, binsG, binsB) bs out.
     let (maxBin, maxCount) = largestBin bins bs;
         out = (if maxCount > 0
                then setRGB out di (toUint8Clamp (real (binsR ! maxBin) / real maxCount))
                       (toUint8Clamp (real (binsG ! maxBin) / real maxCount))
                       (toUint8Clamp (real (binsB ! maxBin) / real maxCount))
                else setRGB out di (src ! di) (src ! (di + 1)) (src ! (di + 2)))
     in out[di + 3 := src ! (di + 3)])"

definition oilPaintPixel :: "nat \<Rightarrow> nat \<Rightarrow> int \<Rightarrow> nat \<Rightarrow> real \<Rightarrow> nat list \<Rightarrow> nat list \<Rightarrow> nat \<Rightarrow> nat
     \<Rightarrow> nat list \<Rightarrow> nat list" where
  "oilPaintPixel w h r step levels grayMap src x y out =
     (let y0 = max 0 (int y - r); y1 = min (int h - 1) (int y + r);
          x0 = max 0 (int x - r); x1 = min (int w - 1) (int x + r);
          n = nat (toInt32 levels);
          empty = (replicate n 0, replicate n 0, replicate n 0, replicate n 0);
          filled = fold (\<lambda>sy. fold (\<lambda>sx.
                      let idx = nat (sy * int w + sx)
                      in addToBin src (idx * 4) (grayMap ! idx))
                    (steppedRange x0 x1 step)) (steppedRange y0 y1 step) empty;
          di = (y * w + x) * 4
      in modeColour src di filled (map nat [1..\<lceil>levels\<rceil> - 1]) out)"

definition applyOilPaint :: "canvas \<Rightarrow> real \<Rightarrow> real \<Rightarrow> canvas" where
  \<comment> \<open>a negative \<^verbatim>\<open>levels\<close>, for which the typed-array constructors throw, is outside the model\<close>
  "applyOilPaint c radius levels =
     (let w = width c; h = height c;
          src = data c;
          out = replicate (length src) 0;
          r = min 5 (max 1 (Math_round radius));
          step = (if r > 3 then 2 else 1);
          totalPixels = w * h;
          levScale = (levels - 1) / 255;
          grayMap = map (\<lambda>i. let si = i * 4
                          in toUint8 (real_of_int (toInt32 (real ((src ! si * 77 + src ! (si + 1) * 150
                                 + src ! (si + 2) * 29) div 256) * levScale))))
                      [0..<totalPixels];
          out = forYX h w (oilPaintPixel w h r step levels grayMap src) out
      in \<lparr>width = w, height = h, data = out\<rparr>)"

definition paletteKnifePixel :: "nat \<Rightarrow> nat \<Rightarrow> (int \<times> int) list \<Rightarrow> nat list \<Rightarrow> nat \<Rightarrow> nat \<Rightarrow> nat list \<Rightarrow> nat list" where
  "paletteKnifePixel w h samples src x y out =
     (let numBins = 6;
          binScale = real numBins / 766;
          empty = (replicate numBins 0, replicate numBins 0, replicate numBins 0, replicate numBins 0);
          filled = fold (\<lambda>(s0, s1).
                      let sx = nat (max 0 (min (int w - 1) (int x + s0)));
                          sy = nat (max 0 (min (int h - 1) (int y + s1)));
                          si = (sy * w + sx) * 4;
                          bin = nat (min (int numBins - 1)
                                  (toInt32 (real (src ! si + src ! (si + 1) + src ! (si + 2)) * binScale)))
                      in addToBin src si bin) samples empty;
          di = (y * w + x) * 4
      in modeColour src di filled [1..<numBins] out)"

definition applyPaletteKnife :: "canvas \<Rightarrow> real \<Rightarrow> real \<Rightarrow> canvas" where
  "applyPaletteKnife c strokeLen direction =
     (let w = width c; h = height c;
          src = data c;
          out = replicate (length src) 0;
          rad = (direction * Math_PI) / 180;
          ddx = cos rad;
          ddy = sin rad;
          len = min 20 (max 2 (Math_round strokeLen));
          step = (if len > 10 then 2 else 1);
          samples = map (\<lambda>t. (Math_round (real_of_int t * ddx), Math_round (real_of_int t * ddy)))
                      (steppedRange (- len) len step);
          out = forYX h w (paletteKnifePixel w h samples src) out
      in \<lparr>width = w, height = h, data = out\<rparr>)"

section \<open>Metal\<close>

definition metalEmboss :: "nat \<Rightarrow> nat list \<Rightarrow> nat \<Rightarrow> nat \<Rightarrow> nat list \<Rightarrow> nat list" where
  "metalEmboss w src x y out =
     (let p = (y * w + x) * 4;
          tl = (y - 1) * w + (x - 1);
          br = (y + 1) * w + (x + 1)
      in fold (\<lambda>ch out.
            let emboss = real (src ! (p + ch)) * 2 - real (src ! (tl * 4 + ch)) * 0.5
                           - real (src ! (br * 4 + ch)) * 0.5;
                v = clamp255 emboss
            in out[p + ch := toUint8Clamp v]) [0..<3] out)"

definition metalTint :: "real \<Rightarrow> nat \<Rightarrow> nat list \<Rightarrow> nat list" where
  "metalTint intensity i out =
     (let r = real (out ! i); g = real (out ! (i + 1)); b = real (out ! (i + 2));
          gray = r * 0.299 + g * 0.587 + b * 0.114;
          desat = 0.3 + 0.7 * (1 - intensity * 0.5);
          mr = gray * (1 - desat) + r * desat;
          mg = gray * (1 - desat) + g * desat;
          mb = gray * (1 - desat) + b * desat;
          mr = mr * (1 - intensity * 0.15);
          mg = mg * (1 - intensity * 0.05);
          mb = mb * (1 + intensity * 0.12);
          contrast = 1 + intensity * 0.4;
          mr = (mr - 128) * contrast + 128;
          mg = (mg - 128) * contrast + 128;
          mb = (mb - 128) * contrast + 128;
          (mr, mg, mb) = (if gray > 200 then
                            (let spec = ((gray - 200) / 55) * intensity * 80
                             in (mr + spec, mg + spec, mb + spec * 1.1))
                          else (mr, mg, mb))
      in setRGB out i (toUint8Clamp (clamp255 mr)) (toUint8Clamp (clamp255 mg)) (toUint8Clamp (clamp255 mb)))"

definition applyMetal :: "canvas \<Rightarrow> real \<Rightarrow> canvas" where
  "applyMetal c intensity =
     (let w = width c; h = height c;
          src = data c;
          out = data c;
          out = fold (\<lambda>y. fold (\<lambda>x. metalEmboss w src x y) [1..<w - 1]) [1..<h - 1] out;
          out = forPixels (metalTint intensity) (length out) out
      in c\<lparr>data := out\<rparr>)"

section \<open>Texture\<close>

definition js_rem_int :: "int \<Rightarrow> int \<Rightarrow> int" where
  \<comment> \<open>\<^verbatim>\<open>a % m\<close> on integers: the remainder has the sign of the dividend\<close>
  "js_rem_int a m = (if 0 \<le> a then a mod m else - ((- a) mod m))"

definition luminance :: "nat list \<Rightarrow> nat \<Rightarrow> real" where
  \<comment> \<open>\<^verbatim>\<open>d[i] * 0.299 + d[i + 1] * 0.587 + d[i + 2] * 0.114\<close>\<close>
  "luminance d i = real (d ! i) * 0.299 + real (d ! (i + 1)) * 0.587 + real (d ! (i + 2)) * 0.114"

definition scaleRGB :: "nat list \<Rightarrow> nat list \<Rightarrow> nat \<Rightarrow> (real \<Rightarrow> real) \<Rightarrow> nat list" where
  \<comment> \<open>the three stores \<^verbatim>\<open>out[i + ch] = f(src[i + ch])\<close>\<close>
  "scaleRGB src out i f =
     setRGB out i (toUint8Clamp (f (real (src ! i)))) (toUint8Clamp (f (real (src ! (i + 1)))))
       (toUint8Clamp (f (real (src ! (i + 2)))))"

definition textureCanvas :: "real \<Rightarrow> nat \<Rightarrow> nat list \<Rightarrow> nat \<Rightarrow> nat \<Rightarrow> nat list \<Rightarrow> nat list" where
  "textureCanvas intensity w src x y out =
     (let i = (y * w + x) * 4;
          tx = sin (real x * 0.8) * 0.5 + 0.5;
          ty = sin (real y * 0.8) * 0.5 + 0.5;
          pattern = (tx * ty) * 0.3 + 0.7;
          lum = real (src ! i + src ! (i + 1) + src ! (i + 2)) / 765;
          texFactor = 1 - (1 - pattern) * intensity * (0.3 + lum * 0.7);
          out = scaleRGB src out i (\<lambda>v. clamp255 (v * texFactor))
      in out[i + 3 := src ! (i + 3)])"

definition watercolorBleed :: "('a env_scheme) \<Rightarrow> int \<Rightarrow> nat \<Rightarrow> nat \<Rightarrow> nat list \<Rightarrow> nat \<Rightarrow> nat
     \<Rightarrow> nat list \<times> nat \<Rightarrow> nat list \<times> nat" where
  "watercolorBleed E disp w h src x y = (\<lambda>(out, k).
     let i = (y * w + x) * 4;
         ox = nat (max 0 (min (int w - 1) (int x + Math_round ((rnd E k - 0.5) * real_of_int disp))));
         oy = nat (max 0 (min (int h - 1) (int y + Math_round ((rnd E (k + 1) - 0.5) * real_of_int disp))));
         si = (oy * w + ox) * 4;
         out = setRGB out i (src ! si) (src ! (si + 1)) (src ! (si + 2))
     in (out[i + 3 := src ! (i + 3)], k + 2))"

definition watercolorEdges :: "('a env_scheme) \<Rightarrow> real \<Rightarrow> nat \<Rightarrow> nat list \<Rightarrow> nat \<Rightarrow> nat
     \<Rightarrow> nat list \<times> nat \<Rightarrow> nat list \<times> nat" where
  "watercolorEdges E intensity w copy x y = (\<lambda>(out, k).
     let i = (y * w + x) * 4;
         grayL = luminance copy ((y * w + x - 1) * 4);
         grayR = luminance copy ((y * w + x + 1) * 4);
         grayU = luminance copy (((y - 1) * w + x) * 4);
         grayD = luminance copy (((y + 1) * w + x) * 4);
         edgeH = \<bar>grayR - grayL\<bar>;
         edgeV = \<bar>grayD - grayU\<bar>;
         edge = min 1 ((edgeH + edgeV) / 200 * intensity);
         darken = 1 - edge * 0.5;
         out = scaleRGB out out i (\<lambda>v. max 0 (v * darken));
         variation = (rnd E k - 0.5) * 10 * intensity;
         out = scaleRGB out out i (\<lambda>v. clamp255 (v + variation))
     in (out, k + 1))"

definition textureCrayon :: "('a env_scheme) \<Rightarrow> real \<Rightarrow> nat \<Rightarrow> nat list \<Rightarrow> nat \<Rightarrow> nat
     \<Rightarrow> nat list \<times> nat \<Rightarrow> nat list \<times> nat" where
  "textureCrayon E intensity w src x y = (\<lambda>(out, k).
     let i = (y * w + x) * 4;
         hatch = sin (real (x + y) * 0.4) * 0.5 + 0.5;
         gap = (if rnd E k < 0.15 * intensity then 0.6 else 1.0);
         factor = (0.7 + hatch * 0.3) * gap;
         colorVar = (rnd E (k + 1) - 0.5) * 15 * intensity;
         out = scaleRGB src out i (\<lambda>v. clamp255 (v * factor + colorVar))
     in (out[i + 3 := src ! (i + 3)], k + 2))"

definition impastoPixel :: "real \<Rightarrow> nat \<Rightarrow> nat list \<Rightarrow> nat \<Rightarrow> nat \<Rightarrow> nat list \<Rightarrow> nat list" where
  "impastoPixel intensity w src x y out =
     (let i = (y * w + x) * 4;
          out = fold (\<lambda>ch out.
                  let tl = real (src ! (((y - 1) * w + (x - 1)) * 4 + ch));
                      br = real (src ! (((y + 1) * w + (x + 1)) * 4 + ch));
                      emboss = real (src ! (i + ch)) + (real (src ! (i + ch)) - tl) * 0.5 * intensity
                                 - (br - real (src ! (i + ch))) * 0.3 * intensity
                  in out[i + ch := toUint8Clamp (clamp255 emboss)]) [0..<3] out
      in out[i + 3 := src ! (i + 3)])"

definition copyPixel :: "nat list \<Rightarrow> nat \<Rightarrow> nat list \<Rightarrow> nat list" where
  \<comment> \<open>\<^verbatim>\<open>out[t] = src[t]; ...; out[t + 3] = src[t + 3]\<close>\<close>
  "copyPixel src t out = out[t := src ! t, t + 1 := src ! (t + 1), t + 2 := src ! (t + 2), t + 3 := src ! (t + 3)]"

definition textureImpasto :: "real \<Rightarrow> nat \<Rightarrow> nat \<Rightarrow> nat list \<Rightarrow> nat list \<Rightarrow> nat list" where
  "textureImpasto intensity w h src out =
     (let out = fold (\<lambda>y. fold (\<lambda>x. impastoPixel intensity w src x y) [1..<w - 1]) [1..<h - 1] out;
          out = fold (\<lambda>x out.
                  let t = x * 4; b2 = nat ((int h - 1) * int w + int x) * 4
                  in copyPixel src b2 (copyPixel src t out)) [0..<w] out;
          out = fold (\<lambda>y out.
                  let l = (y * w) * 4; r = nat (int (y * w) + int w - 1) * 4
                  in copyPixel src r (copyPixel src l out)) [0..<h] out
      in out)"

definition textureCrosshatch :: "real \<Rightarrow> nat \<Rightarrow> nat list \<Rightarrow> nat \<Rightarrow> nat \<Rightarrow> nat list \<Rightarrow> nat list" where
  "textureCrosshatch intensity w src x y out =
     (let i = (y * w + x) * 4;
          gray = luminance src i;
          darkness = 1 - gray / 255;
          ink = (0::nat);
          ink = (if darkness > 0.2 * (2 - intensity) then ink + (if y mod 4 < 1 then 1 else 0) else ink);
          ink = (if darkness > 0.4 * (2 - intensity) then ink + (if x mod 4 < 1 then 1 else 0) else ink);
          ink = (if darkness > 0.6 * (2 - intensity) then ink + (if (x + y) mod 5 < 1 then 1 else 0) else ink);
          ink = (if darkness > 0.8 * (2 - intensity)
                 then ink + (if js_rem_int (int x - int y + 500) 5 < 1 then 1 else 0) else ink);
          v = (if ink > 0 then 0 else 255);
          out = setRGB out i v v v
      in out[i + 3 := src ! (i + 3)])"

definition textureStipple :: "('a env_scheme) \<Rightarrow> real \<Rightarrow> nat \<Rightarrow> nat list \<Rightarrow> nat \<Rightarrow> nat
     \<Rightarrow> nat list \<times> nat \<Rightarrow> nat list \<times> nat" where
  "textureStipple E intensity w src x y = (\<lambda>(out, k).
     let i = (y * w + x) * 4;
         gray = luminance src i;
         darkness = 1 - gray / 255;
         dotProb = darkness * intensity * 0.8;
         out = (if rnd E k < dotProb then setRGB out i 0 0 0 else setRGB out i 255 255 255)
     in (out[i + 3 := src ! (i + 3)], k + 1))"

definition applyTextureFilter :: "('a env_scheme) \<Rightarrow> real \<Rightarrow> real \<Rightarrow> world \<Rightarrow> world" where
  "applyTextureFilter E mode intensity = (\<lambda>(c, k).
     if mode = 0 then (c, k)
     else
       (let w = width c; h = height c;
            src = data c;
            out = data c;
            (out, k) =
              (if mode = 1 then (forYX h w (textureCanvas intensity w src) out, k)
               else if mode = 2 then
                 (let disp = Math_round (3 * intensity);
                      (out, k) = forYX h w (watercolorBleed E disp w h src) (out, k);
                      copy = out
                  in fold (\<lambda>y. fold (\<lambda>x. watercolorEdges E intensity w copy x y) [1..<w - 1])
                       [1..<h - 1] (out, k))
               else if mode = 3 then forYX h w (textureCrayon E intensity w src) (out, k)
               else if mode = 4 then (textureImpasto intensity w h src out, k)
               else if mode = 5 then (forYX h w (textureCrosshatch intensity w src) out, k)
               else if mode = 6 then forYX h w (textureStipple E intensity w src) (out, k)
               else (out, k))
        in (c\<lparr>data := out\<rparr>, k)))"

section \<open>Alpha preservation\<close>

definition alphaKept :: "nat list \<Rightarrow> nat list \<Rightarrow> bool" where
  \<comment> \<open>the second buffer has the size of the first and the same byte in every alpha position\<close>
  "alphaKept d0 d \<longleftrightarrow> length d = length d0 \<and> (\<forall>j < length d0. j mod 4 = 3 \<longrightarrow> d ! j = d0 ! j)"

lemma alphaKept_refl: "alphaKept d d"
  by (simp add: alphaKept_def)

lemma alphaKept_update:
  assumes "alphaKept d0 d" and "j mod 4 \<noteq> 3"
  shows "alphaKept d0 (d[j := v])"
proof -
  have "d[j := v] ! i = d ! i" if "i mod 4 = 3" for i
    using that assms(2) by (cases "i = j") simp_all
  then show ?thesis using assms(1) by (simp add: alphaKept_def)
qed

lemma alphaKept_restore:
  assumes "alphaKept d0 d"
  shows "alphaKept d0 (d[j := d0 ! j])"
proof -
  have "d[j := d0 ! j] ! i = d0 ! i" if "i < length d0" "i mod 4 = 3" for i
    using that assms by (cases "i = j") (simp_all add: alphaKept_def)
  then show ?thesis using assms by (simp add: alphaKept_def)
qed

lemma alphaKept_rgb:
  assumes "alphaKept d0 d" and "i mod 4 = 0"
  shows "alphaKept d0 (d[i := r])" "alphaKept d0 (d[i + 1 := g])" "alphaKept d0 (d[i + 2 := b])"
proof -
  have "i mod 4 \<noteq> 3" "(i + 1) mod 4 \<noteq> 3" "(i + 2) mod 4 \<noteq> 3"
    using assms(2) by presburger+
  then show "alphaKept d0 (d[i := r])" "alphaKept d0 (d[i + 1 := g])" "alphaKept d0 (d[i + 2 := b])"
    using assms(1) by (simp_all add: alphaKept_update)
qed

lemma alphaKept_setRGB:
  assumes "alphaKept d0 d" and "i mod 4 = 0"
  shows "alphaKept d0 (setRGB d i r g b)"
  unfolding setRGB_def using assms by (intro alphaKept_rgb) simp_all

lemma alphaKept_alpha:
  assumes "alphaKept d0 d" and "i mod 4 = 0"
  shows "alphaKept d0 (d[i + 3 := d0 ! (i + 3)])"
  using assms(1) by (rule alphaKept_restore)

lemma forYX_invariant:
  assumes "P s" and "\<And>x y s. x < w \<Longrightarrow> y < h \<Longrightarrow> P s \<Longrightarrow> P (body x y s)"
  shows "P (forYX h w body s)"
  unfolding forYX_def
proof (rule fold_invariant [where P = P, OF assms(1)])
  fix y t assume y: "y \<in> set [0..<h]" and t: "P t"
  show "P (fold (\<lambda>x s. body x y s) [0..<w] t)"
    by (rule fold_invariant [where P = P, OF t]) (use y assms(2) in auto)
qed

lemma pixel_offset_mod: "(4 * k) mod 4 = 0" "(k * 4) mod 4 = (0::nat)"
  by simp_all

lemma alphaKept_three:
  assumes "alphaKept d0 d" and "i mod 4 = 0"
  shows "alphaKept d0 (d[i := r, i + 1 := g, i + 2 := b])"
  using assms by (intro alphaKept_rgb) simp_all

lemma alphaKept_four:
  assumes "alphaKept d0 d" and "i mod 4 = 0"
  shows "alphaKept d0 (d[i := r, i + 1 := g, i + 2 := b, i + 3 := d0 ! (i + 3)])"
  by (rule alphaKept_restore) (rule alphaKept_three [OF assms])

lemma applyBrightnessContrast_alpha:
  "alphaKept (data c) (data (applyBrightnessContrast c b ct))"
proof -
  have "alphaKept (data c) (forPixels (\<lambda>i d.
            let d = d[i := bcChannel f b (d ! i)];
                d = d[i + 1 := bcChannel f b (d ! (i + 1))];
                d = d[i + 2 := bcChannel f b (d ! (i + 2))]
            in d) n (data c))" for f n
  proof (rule forPixels_invariant [where P = "alphaKept (data c)"])
    show "alphaKept (data c) (data c)" by (rule alphaKept_refl)
    show "alphaKept (data c) (let d = s[4 * k := bcChannel f b (s ! (4 * k))];
                d = d[4 * k + 1 := bcChannel f b (d ! (4 * k + 1))];
                d = d[4 * k + 2 := bcChannel f b (d ! (4 * k + 2))]
            in d)" if "alphaKept (data c) s" for k s
      unfolding Let_def by (rule alphaKept_three [OF that]) simp
  qed
  then show ?thesis by (simp add: applyBrightnessContrast_def Let_def)
qed

lemma applyPosterize_alpha:
  "alphaKept (data c) (data (applyPosterize c lv))"
proof -
  have "alphaKept (data c) (forPixels (\<lambda>i d.
            let d = d[i := posterizeChannel step (d ! i)];
                d = d[i + 1 := posterizeChannel step (d ! (i + 1))];
                d = d[i + 2 := posterizeChannel step (d ! (i + 2))]
            in d) n (data c))" for step n
  proof (rule forPixels_invariant [where P = "alphaKept (data c)"])
    show "alphaKept (data c) (data c)" by (rule alphaKept_refl)
    show "alphaKept (data c) (let d = s[4 * k := posterizeChannel step (s ! (4 * k))];
                d = d[4 * k + 1 := posterizeChannel step (d ! (4 * k + 1))];
                d = d[4 * k + 2 := posterizeChannel step (d ! (4 * k + 2))]
            in d)" if "alphaKept (data c) s" for k s
      unfolding Let_def by (rule alphaKept_three [OF that]) simp
  qed
  then show ?thesis by (simp add: applyPosterize_def Let_def)
qed

lemma applyInvert_alpha:
  "alphaKept (data c) (data (applyInvert c))"
proof -
  have "alphaKept (data c) (forPixels (\<lambda>i d.
            let d = d[i := 255 - d ! i];
                d = d[i + 1 := 255 - d ! (i + 1)];
                d = d[i + 2 := 255 - d ! (i + 2)]
            in d) n (data c))" for n
  proof (rule forPixels_invariant [where P = "alphaKept (data c)"])
    show "alphaKept (data c) (data c)" by (rule alphaKept_refl)
    show "alphaKept (data c) (let d = s[4 * k := 255 - s ! (4 * k)];
                d = d[4 * k + 1 := 255 - d ! (4 * k + 1)];
                d = d[4 * k + 2 := 255 - d ! (4 * k + 2)]
            in d)" if "alphaKept (data c) s" for k s
      unfolding Let_def by (rule alphaKept_three [OF that]) simp
  qed
  then show ?thesis by (simp add: applyInvert_def)
qed

lemma levelsPixel_alpha:
  assumes "alphaKept d0 d" and "i mod 4 = 0"
  shows "alphaKept d0 (levelsPixel lut m i d)"
  by (cases m) (simp_all only: levelsPixel_def Let_def if_True if_False alphaKept_three [OF assms])

lemma applyLevels_alpha:
  "alphaKept (data c) (data (applyLevels c black white gamma m))"
proof -
  have "alphaKept (data c) (forPixels (levelsPixel lut m) n (data c))" for lut n
    by (rule forPixels_invariant [where P = "alphaKept (data c)"])
      (simp_all add: alphaKept_refl levelsPixel_alpha)
  then show ?thesis by (simp add: applyLevels_def Let_def)
qed

lemma hueSatTempPixel_alpha:
  assumes "alphaKept d0 d" and "i mod 4 = 0"
  shows "alphaKept d0 (hueSatTempPixel hueShift sF tempShift i d)"
  by (simp only: hueSatTempPixel_def Let_def split_def alphaKept_three [OF assms])

lemma applyHueSatTemp_alpha:
  "alphaKept (data c) (data (applyHueSatTemp c hueShift satShift tempShift))"
proof -
  have "alphaKept (data c) (forPixels (hueSatTempPixel hueShift sF tempShift) n (data c))" for sF n
    by (rule forPixels_invariant [where P = "alphaKept (data c)"])
      (simp_all add: alphaKept_refl hueSatTempPixel_alpha)
  then show ?thesis by (simp add: applyHueSatTemp_def Let_def)
qed

lemma canvas_offset_mod: "((y * w + x) * 4) mod 4 = (0::nat)"
  by simp

lemma boxHorizontal_alpha:
  assumes "alphaKept d0 d"
  shows "alphaKept d0 (boxHorizontal w r cp x y d)"
  by (simp only: boxHorizontal_def Let_def split_def alphaKept_three [OF assms canvas_offset_mod])

lemma boxVertical_alpha:
  assumes "alphaKept d0 d"
  shows "alphaKept d0 (boxVertical w h r cp x y d)"
  by (simp only: boxVertical_def Let_def split_def alphaKept_three [OF assms canvas_offset_mod])

lemma boxBlur_alpha: "alphaKept (data c) (data (boxBlur c radius))"
proof -
  let ?w = "width c" and ?h = "height c" and ?r = "Math_round radius"
  let ?d1 = "forYX ?h ?w (boxHorizontal ?w ?r (data c)) (data c)"
  have 1: "alphaKept (data c) ?d1"
    by (rule forYX_invariant [where P = "alphaKept (data c)"])
      (simp_all add: alphaKept_refl boxHorizontal_alpha)
  have "alphaKept (data c) (forYX ?h ?w (boxVertical ?w ?h ?r ?d1) ?d1)"
    by (rule forYX_invariant [where P = "alphaKept (data c)", OF 1]) (simp add: boxVertical_alpha)
  then show ?thesis by (simp add: boxBlur_def Let_def)
qed

lemma applyNewBlur_alpha:
  assumes "type \<noteq> 1" and "type \<noteq> 3" and "type \<noteq> 4"
  shows "alphaKept (data c) (data (applyNewBlur E c type radius angle))"
  using assms by (simp add: applyNewBlur_def boxBlur_alpha alphaKept_refl)

lemma addNoise_alpha:
  assumes "alphaKept d0 d" and "i mod 4 = 0"
  shows "alphaKept d0 (addNoise (addNoise (addNoise d i n1) (i + 1) n2) (i + 2) n3)"
  unfolding addNoise_def by (intro alphaKept_rgb assms)

lemma gaussianNoisePixel_alpha:
  assumes "alphaKept d0 (fst s)" and "i mod 4 = 0"
  shows "alphaKept d0 (fst (gaussianNoisePixel E strength densityF i s))"
proof (cases s)
  case (Pair d k)
  then have d: "alphaKept d0 d" using assms(1) by simp
  show ?thesis
    unfolding Pair gaussianNoisePixel_def
    by (cases "rnd E k > densityF")
      (simp_all only: prod.case if_True if_False fst_conv snd_conv Let_def split_def d addNoise_alpha [OF d assms(2)])
qed

lemma filmGrainPixel_alpha:
  assumes "alphaKept d0 (fst s)" and "i mod 4 = 0"
  shows "alphaKept d0 (fst (filmGrainPixel E strength densityF i s))"
proof (cases s)
  case (Pair d k)
  then have d: "alphaKept d0 d" using assms(1) by simp
  show ?thesis
    unfolding Pair filmGrainPixel_def
    by (cases "rnd E k > densityF")
      (simp_all only: prod.case if_True if_False fst_conv snd_conv Let_def split_def d addNoise_alpha [OF d assms(2)])
qed

lemma colorNoisePixel_alpha:
  assumes "alphaKept d0 (fst s)" and "i mod 4 = 0"
  shows "alphaKept d0 (fst (colorNoisePixel E strength densityF i s))"
proof (cases s)
  case (Pair d k)
  then have d: "alphaKept d0 d" using assms(1) by simp
  show ?thesis
    unfolding Pair colorNoisePixel_def
    by (cases "rnd E k > densityF")
      (simp_all only: prod.case if_True if_False fst_conv snd_conv Let_def split_def d addNoise_alpha [OF d assms(2)])
qed

lemma monoNoisePixel_alpha:
  assumes "alphaKept d0 (fst s)" and "i mod 4 = 0"
  shows "alphaKept d0 (fst (monoNoisePixel E strength densityF i s))"
proof (cases s)
  case (Pair d k)
  then have d: "alphaKept d0 d" using assms(1) by simp
  show ?thesis
    unfolding Pair monoNoisePixel_def
    by (cases "rnd E k > densityF")
      (simp_all only: prod.case if_True if_False fst_conv snd_conv Let_def split_def d addNoise_alpha [OF d assms(2)])
qed

lemma applyNewNoise_alpha:
  "alphaKept (data c) (data (fst (applyNewNoise E type amount density (c, k))))"
proof -
  let ?P = "\<lambda>s. alphaKept (data c) (fst s)"
  have init: "?P (data c, k)" by (simp add: alphaKept_refl)
  have a: "?P (forPixels (gaussianNoisePixel E st df) n (data c, k))" for st df n
    by (rule forPixels_invariant [where P = ?P, OF init]) (simp add: gaussianNoisePixel_alpha)
  have b: "?P (forPixels (filmGrainPixel E st df) n (data c, k))" for st df n
    by (rule forPixels_invariant [where P = ?P, OF init]) (simp add: filmGrainPixel_alpha)
  have c: "?P (forPixels (colorNoisePixel E st df) n (data c, k))" for st df n
    by (rule forPixels_invariant [where P = ?P, OF init]) (simp add: colorNoisePixel_alpha)
  have d: "?P (forPixels (monoNoisePixel E st df) n (data c, k))" for st df n
    by (rule forPixels_invariant [where P = ?P, OF init]) (simp add: monoNoisePixel_alpha)
  show ?thesis
    by (simp add: applyNewNoise_def Let_def split_def alphaKept_refl a b c d)
qed

lemma alphaKept_scaleRGB:
  assumes "alphaKept d0 out" and "i mod 4 = 0"
  shows "alphaKept d0 (scaleRGB s out i f)"
  unfolding scaleRGB_def by (rule alphaKept_setRGB [OF assms])

lemma alphaKept_channels:
  assumes "alphaKept d0 out" and "i mod 4 = 0"
  shows "alphaKept d0 (fold (\<lambda>ch out. out[i + ch := v ch out]) [0..<3] out)"
proof (rule fold_invariant [where P = "alphaKept d0", OF assms(1)])
  fix ch t assume ch: "ch \<in> set [0..<3]" and t: "alphaKept d0 t"
  have "ch < 3" using ch by simp
  then have "(i + ch) mod 4 \<noteq> 3" using assms(2) by presburger
  then show "alphaKept d0 (t[i + ch := v ch t])" using t by (rule alphaKept_update [rotated])
qed

lemma metalEmboss_alpha:
  assumes "alphaKept d0 out"
  shows "alphaKept d0 (metalEmboss w src x y out)"
  unfolding metalEmboss_def Let_def
  by (rule alphaKept_channels [OF assms canvas_offset_mod])

lemma metalTint_alpha:
  assumes "alphaKept d0 out" and "i mod 4 = 0"
  shows "alphaKept d0 (metalTint intensity i out)"
  by (simp only: metalTint_def Let_def split_def alphaKept_setRGB [OF assms])

lemma applyMetal_alpha: "alphaKept (data c) (data (applyMetal c intensity))"
proof -
  let ?P = "alphaKept (data c)"
  let ?o1 = "fold (\<lambda>y. fold (\<lambda>x. metalEmboss (width c) (data c) x y) [1..<width c - 1])
               [1..<height c - 1] (data c)"
  have 1: "?P ?o1"
  proof (rule fold_invariant [where P = ?P, OF alphaKept_refl])
    fix y t assume "?P t"
    then show "?P (fold (\<lambda>x. metalEmboss (width c) (data c) x y) [1..<width c - 1] t)"
      by (rule fold_invariant [where P = ?P]) (rule metalEmboss_alpha)
  qed
  have "?P (forPixels (metalTint intensity) n ?o1)" for n
    by (rule forPixels_invariant [where P = ?P, OF 1]) (simp add: metalTint_alpha)
  then show ?thesis by (simp add: applyMetal_def Let_def)
qed

lemma textureCanvas_alpha:
  assumes "alphaKept src out"
  shows "alphaKept src (textureCanvas intensity w src x y out)"
  unfolding textureCanvas_def Let_def
  by (intro alphaKept_restore alphaKept_scaleRGB assms canvas_offset_mod)

lemma watercolorBleed_alpha:
  assumes "alphaKept src (fst s)"
  shows "alphaKept src (fst (watercolorBleed E disp w h src x y s))"
proof (cases s)
  case (Pair out k)
  then have o: "alphaKept src out" using assms by simp
  show ?thesis
    unfolding Pair watercolorBleed_def Let_def prod.case fst_conv
    by (intro alphaKept_restore alphaKept_setRGB o canvas_offset_mod)
qed

lemma watercolorEdges_alpha:
  assumes "alphaKept src (fst s)"
  shows "alphaKept src (fst (watercolorEdges E intensity w cp x y s))"
proof (cases s)
  case (Pair out k)
  then have o: "alphaKept src out" using assms by simp
  show ?thesis
    unfolding Pair watercolorEdges_def Let_def prod.case fst_conv
    by (intro alphaKept_scaleRGB o canvas_offset_mod)
qed

lemma textureCrayon_alpha:
  assumes "alphaKept src (fst s)"
  shows "alphaKept src (fst (textureCrayon E intensity w src x y s))"
proof (cases s)
  case (Pair out k)
  then have o: "alphaKept src out" using assms by simp
  show ?thesis
    unfolding Pair textureCrayon_def Let_def prod.case fst_conv
    by (intro alphaKept_restore alphaKept_scaleRGB o canvas_offset_mod)
qed

lemma impastoPixel_alpha:
  assumes "alphaKept src out"
  shows "alphaKept src (impastoPixel intensity w src x y out)"
  unfolding impastoPixel_def Let_def
  by (intro alphaKept_restore alphaKept_channels assms canvas_offset_mod)

lemma copyPixel_alpha:
  assumes "alphaKept src out"
  shows "alphaKept src (copyPixel src t out)"
  unfolding copyPixel_def by (intro alphaKept_restore assms)

lemma textureImpasto_alpha:
  assumes "alphaKept src out"
  shows "alphaKept src (textureImpasto intensity w h src out)"
proof -
  let ?P = "alphaKept src"
  let ?o1 = "fold (\<lambda>y. fold (\<lambda>x. impastoPixel intensity w src x y) [1..<w - 1]) [1..<h - 1] out"
  have 1: "?P ?o1"
  proof (rule fold_invariant [where P = ?P, OF assms])
    fix y t assume "?P t"
    then show "?P (fold (\<lambda>x. impastoPixel intensity w src x y) [1..<w - 1] t)"
      by (rule fold_invariant [where P = ?P]) (rule impastoPixel_alpha)
  qed
  let ?o2 = "fold (\<lambda>x out. let t = x * 4; b2 = nat ((int h - 1) * int w + int x) * 4
                  in copyPixel src b2 (copyPixel src t out)) [0..<w] ?o1"
  have 2: "?P ?o2"
    by (rule fold_invariant [where P = ?P, OF 1]) (simp add: Let_def copyPixel_alpha)
  have "?P (fold (\<lambda>y out. let l = (y * w) * 4; r = nat (int (y * w) + int w - 1) * 4
                  in copyPixel src r (copyPixel src l out)) [0..<h] ?o2)"
    by (rule fold_invariant [where P = ?P, OF 2]) (simp add: Let_def copyPixel_alpha)
  then show ?thesis by (simp add: textureImpasto_def Let_def)
qed

lemma textureCrosshatch_alpha:
  assumes "alphaKept src out"
  shows "alphaKept src (textureCrosshatch intensity w src x y out)"
  unfolding textureCrosshatch_def Let_def
  by (intro alphaKept_restore alphaKept_setRGB assms canvas_offset_mod)

lemma textureStipple_alpha:
  assumes "alphaKept src (fst s)"
  shows "alphaKept src (fst (textureStipple E intensity w src x y s))"
proof (cases s)
  case (Pair out k)
  then have o: "alphaKept src out" using assms by simp
  have "alphaKept src (if b then setRGB out i 0 0 0 else setRGB out i 255 255 255)"
    if "i mod 4 = 0" for b i
    using alphaKept_setRGB [OF o that] by simp
  then show ?thesis
    unfolding Pair textureStipple_def Let_def prod.case fst_conv
    by (intro alphaKept_restore) (simp add: canvas_offset_mod)
qed

lemma applyTextureFilter_alpha:
  "alphaKept (data c) (data (fst (applyTextureFilter E mode intensity (c, k))))"
proof -
  let ?P = "alphaKept (data c)" and ?w = "width c" and ?h = "height c"
  let ?Q = "\<lambda>s :: nat list \<times> nat. alphaKept (data c) (fst s)"
  have q0: "?Q (data c, k)" by (simp add: alphaKept_refl)
  have m1: "?P (forYX ?h ?w (textureCanvas intensity ?w (data c)) (data c))"
    by (rule forYX_invariant [where P = ?P, OF alphaKept_refl]) (rule textureCanvas_alpha)
  have m2a: "?Q (forYX ?h ?w (watercolorBleed E disp ?w ?h (data c)) (data c, k))" for disp
    by (rule forYX_invariant [where P = ?Q, OF q0]) (rule watercolorBleed_alpha)
  have m2: "?Q (fold (\<lambda>y. fold (\<lambda>x. watercolorEdges E intensity ?w cp x y) xs) ys s)"
    if "?Q s" for s cp xs ys
  proof (rule fold_invariant [where P = ?Q, OF that])
    fix y t assume "?Q t"
    then show "?Q (fold (\<lambda>x. watercolorEdges E intensity ?w cp x y) xs t)"
      by (rule fold_invariant [where P = ?Q]) (rule watercolorEdges_alpha)
  qed
  have m3: "?Q (forYX ?h ?w (textureCrayon E intensity ?w (data c)) (data c, k))"
    by (rule forYX_invariant [where P = ?Q, OF q0]) (rule textureCrayon_alpha)
  have m4: "?P (textureImpasto intensity ?w ?h (data c) (data c))"
    by (rule textureImpasto_alpha [OF alphaKept_refl])
  have m5: "?P (forYX ?h ?w (textureCrosshatch intensity ?w (data c)) (data c))"
    by (rule forYX_invariant [where P = ?P, OF alphaKept_refl]) (rule textureCrosshatch_alpha)
  have m6: "?Q (forYX ?h ?w (textureStipple E intensity ?w (data c)) (data c, k))"
    by (rule forYX_invariant [where P = ?Q, OF q0]) (rule textureStipple_alpha)
  show ?thesis
    by (simp add: applyTextureFilter_def Let_def split_def alphaKept_refl m1 m2 [OF m2a] m3 m4 m5 m6)
qed

lemma pixelIndex_mod: "pixelIndex w px py mod 4 = 0"
proof (cases "0 \<le> py * int w + px")
  case True
  then have "nat ((py * int w + px) * 4) = nat (py * int w + px) * 4"
    by (simp add: nat_mult_distrib)
  then show ?thesis by (simp add: pixelIndex_def)
next
  case False
  then show ?thesis by (simp add: pixelIndex_def)
qed

lemma darken85_alpha:
  assumes "alphaKept d0 out" and "ei mod 4 = 0"
  shows "alphaKept d0 (darken85 ei out)"
  unfolding darken85_def Let_def by (rule alphaKept_three [OF assms])

lemma fillBlock_alpha:
  assumes "alphaKept d0 out"
  shows "alphaKept d0 (fillBlock w h src pixels x0 y0 x1 y1 out)"
proof -
  let ?P = "alphaKept d0"
  have paint: "?P (fold (\<lambda>(px, py) out.
        if inCanvas w h (px, py) then setRGB out (pixelIndex w px py) ar ag ab else out) pixels t)"
    if "?P t" for t ar ag ab
    by (rule fold_invariant [where P = ?P, OF that])
      (auto simp: alphaKept_setRGB pixelIndex_mod)
  have row: "?P (fold (\<lambda>xx out.
        if y0 \<ge> 0 \<and> y0 < int h then darken85 (pixelIndex w xx y0) out else out) xs t)"
    if "?P t" for t xs
    by (rule fold_invariant [where P = ?P, OF that])
      (auto simp: darken85_alpha pixelIndex_mod)
  have col: "?P (fold (\<lambda>yy out.
        if x0 \<ge> 0 \<and> x0 < int w then darken85 (pixelIndex w x0 yy) out else out) ys t)"
    if "?P t" for t ys
    by (rule fold_invariant [where P = ?P, OF that])
      (auto simp: darken85_alpha pixelIndex_mod)
  have ifP: "?P a \<Longrightarrow> ?P b \<Longrightarrow> ?P (if q then a else b)" for a b q
    by simp
  have gen: "?P (case T of (tr, tg, tb, cnt) \<Rightarrow>
      if cnt = 0 then out
      else fold (\<lambda>yy out.
             if x0 \<ge> 0 \<and> x0 < int w then darken85 (pixelIndex w x0 yy) out else out) ys
           (fold (\<lambda>xx out.
             if y0 \<ge> 0 \<and> y0 < int h then darken85 (pixelIndex w xx y0) out else out) xs
           (fold (\<lambda>(px, py) out.
             if inCanvas w h (px, py)
             then setRGB out (pixelIndex w px py) (f1 tr cnt) (f2 tg cnt) (f3 tb cnt) else out) pixels out)))"
    for T :: "real \<times> real \<times> real \<times> real" and xs ys f1 f2 f3
  proof (cases T rule: prod_cases4)
    case (fields tr tg tb cnt)
    show ?thesis unfolding fields prod.case
      by (rule ifP, rule assms, intro col row paint assms)
  qed
  show ?thesis
    unfolding fillBlock_def Let_def by (rule gen)
qed

lemma facetRectangles_alpha:
  assumes "alphaKept d0 (fst s)"
  shows "alphaKept d0 (fst (facetRectangles E w h bs src s))"
  unfolding facetRectangles_def
proof (rule fold_invariant [where P = "\<lambda>s :: nat list \<times> nat. alphaKept d0 (fst s)", OF assms])
  fix y0 and t :: "nat list \<times> nat" assume t: "alphaKept d0 (fst t)"
  show "alphaKept d0 (fst (fold (\<lambda>bx (out, k).
             let vw = max 2 (int bs + Math_round ((rnd E k - 0.5) * real bs * 0.6));
                 vh = max 2 (int bs + Math_round ((rnd E (k + 1) - 0.5) * real bs * 0.6));
                 x1 = min (int w - 1) (bx + vw);
                 y1 = min (int h - 1) (y0 + vh);
                 pixels = blockPixels bx y0 x1 y1
             in (fillBlock w h src pixels bx y0 x1 y1 out, k + 2)) (blockStarts w bs) t))"
    by (rule fold_invariant [where P = "\<lambda>s :: nat list \<times> nat. alphaKept d0 (fst s)", OF t])
      (simp add: split_def Let_def fillBlock_alpha)
qed

lemma facetTriangles_alpha:
  assumes "alphaKept d0 out"
  shows "alphaKept d0 (facetTriangles w h bs src out)"
  unfolding facetTriangles_def
proof (rule fold_invariant [where P = "alphaKept d0", OF assms])
  fix y0 t assume t: "alphaKept d0 t"
  show "alphaKept d0 (fold (\<lambda>bx out.
             let x1 = min (int w - 1) (bx + int bs);
                 y1 = min (int h - 1) (y0 + int bs);
                 inA = (\<lambda>(xx, yy).
                    let fx = real_of_int (xx - bx) / real_of_int (max 1 (x1 - bx));
                        fy = real_of_int (yy - y0) / real_of_int (max 1 (y1 - y0))
                    in fx + fy \<le> 1);
                 triA = filter inA (blockPixels bx y0 x1 y1);
                 triB = filter (\<lambda>p. \<not> inA p) (blockPixels bx y0 x1 y1);
                 out = fillBlock w h src triA bx y0 x1 y1 out;
                 out = fillBlock w h src triB bx y0 x1 y1 out
             in out) (blockStarts w bs) t)"
    by (rule fold_invariant [where P = "alphaKept d0", OF t])
      (simp only: Let_def fillBlock_alpha)
qed

lemma facetVoronoi_alpha:
  assumes "alphaKept d0 (fst s)"
  shows "alphaKept d0 (fst (facetVoronoi E w h bs src s))"
proof (cases s)
  case (Pair out k)
  then have o: "alphaKept d0 out" using assms by simp
  show ?thesis
    unfolding Pair facetVoronoi_def Let_def split_def prod.case fst_conv
    by (rule forYX_invariant [where P = "alphaKept d0", OF o])
      (rule alphaKept_setRGB [OF _ canvas_offset_mod])
qed

lemma facetDiamonds_alpha:
  assumes "alphaKept d0 out"
  shows "alphaKept d0 (facetDiamonds w h bs src out)"
  unfolding facetDiamonds_def Let_def
proof (rule fold_invariant [where P = "alphaKept d0", OF assms])
  fix y0 t assume t: "alphaKept d0 t"
  let ?half = "max 2 (Math_round (real bs / 2))"
  show "alphaKept d0 (fold (\<lambda>bx out.
           fold (\<lambda>(xx, yy) out.
                  if \<not> (case (xx, yy) of (xx, yy) \<Rightarrow> \<bar>xx - (bx + ?half)\<bar> + \<bar>yy - (y0 + ?half)\<bar> \<le> ?half)
                  then setRGB out (pixelIndex w xx yy)
                         (storeInt (Math_round (real (src ! pixelIndex w xx yy) * 0.8)))
                         (storeInt (Math_round (real (src ! (pixelIndex w xx yy + 1)) * 0.8)))
                         (storeInt (Math_round (real (src ! (pixelIndex w xx yy + 2)) * 0.8)))
                  else out)
             (blockPixels bx y0 (min (int w) (bx + int bs) - 1) (min (int h) (y0 + int bs) - 1))
             (if 0 < length (filter (\<lambda>(xx, yy). \<bar>xx - (bx + ?half)\<bar> + \<bar>yy - (y0 + ?half)\<bar> \<le> ?half)
                       (blockPixels bx y0 (min (int w) (bx + int bs) - 1) (min (int h) (y0 + int bs) - 1)))
              then fillBlock w h src
                     (filter (\<lambda>(xx, yy). \<bar>xx - (bx + ?half)\<bar> + \<bar>yy - (y0 + ?half)\<bar> \<le> ?half)
                       (blockPixels bx y0 (min (int w) (bx + int bs) - 1) (min (int h) (y0 + int bs) - 1)))
                     bx y0 (min (int w - 1) (bx + int bs)) (min (int h - 1) (y0 + int bs)) out
              else out))
         (blockStarts w bs) t)"
  proof (rule fold_invariant [where P = "alphaKept d0", OF t])
    fix bx u assume u: "alphaKept d0 u"
    have start: "alphaKept d0 (if c then fillBlock w h src px bx y0 x1 y1 u else u)" for c px x1 y1
      using u by (simp add: fillBlock_alpha)
    show "alphaKept d0 (fold (\<lambda>(xx, yy) out.
                  if \<not> (case (xx, yy) of (xx, yy) \<Rightarrow> \<bar>xx - (bx + ?half)\<bar> + \<bar>yy - (y0 + ?half)\<bar> \<le> ?half)
                  then setRGB out (pixelIndex w xx yy)
                         (storeInt (Math_round (real (src ! pixelIndex w xx yy) * 0.8)))
                         (storeInt (Math_round (real (src ! (pixelIndex w xx yy + 1)) * 0.8)))
                         (storeInt (Math_round (real (src ! (pixelIndex w xx yy + 2)) * 0.8)))
                  else out)
             (blockPixels bx y0 (min (int w) (bx + int bs) - 1) (min (int h) (y0 + int bs) - 1))
             (if 0 < length (filter (\<lambda>(xx, yy). \<bar>xx - (bx + ?half)\<bar> + \<bar>yy - (y0 + ?half)\<bar> \<le> ?half)
                       (blockPixels bx y0 (min (int w) (bx + int bs) - 1) (min (int h) (y0 + int bs) - 1)))
              then fillBlock w h src
                     (filter (\<lambda>(xx, yy). \<bar>xx - (bx + ?half)\<bar> + \<bar>yy - (y0 + ?half)\<bar> \<le> ?half)
                       (blockPixels bx y0 (min (int w) (bx + int bs) - 1) (min (int h) (y0 + int bs) - 1)))
                     bx y0 (min (int w - 1) (bx + int bs)) (min (int h - 1) (y0 + int bs)) u
              else u))"
      by (rule fold_invariant [where P = "alphaKept d0", OF start])
        (auto simp: alphaKept_setRGB pixelIndex_mod)
  qed
qed

lemma applyFacet_alpha:
  "alphaKept (data c) (data (fst (applyFacet E mode blockSize (c, k))))"
proof -
  have q0: "alphaKept (data c) (fst (data c, k))" by (simp add: alphaKept_refl)
  show ?thesis
    by (simp add: applyFacet_def Let_def split_def alphaKept_refl
        facetRectangles_alpha [OF q0] facetVoronoi_alpha [OF q0]
        facetTriangles_alpha [OF alphaKept_refl] facetDiamonds_alpha [OF alphaKept_refl])
qed

lemma modeColour_length: "length (modeColour src di B bs out) = length out"
  by (simp add: modeColour_def setRGB_def split_def Let_def)

lemma modeColour_other:
  assumes "j div 4 \<noteq> p"
  shows "modeColour src (p * 4) B bs out ! j = out ! j"
proof -
  have "j \<noteq> p * 4" "j \<noteq> p * 4 + 1" "j \<noteq> p * 4 + 2" "j \<noteq> p * 4 + 3"
    using assms by auto
  then show ?thesis
    by (simp add: modeColour_def setRGB_def split_def Let_def)
qed

lemma modeColour_alpha:
  assumes "p * 4 + 3 < length out"
  shows "modeColour src (p * 4) B bs out ! (p * 4 + 3) = src ! (p * 4 + 3)"
  using assms by (simp add: modeColour_def setRGB_def split_def Let_def)

lemma modeColour_fold:
  "length (fold (\<lambda>p. modeColour src (p * 4) (F p) (G p)) [0..<n] out) = length out \<and>
   (\<forall>j < length out. j mod 4 = 3 \<longrightarrow> j div 4 < n \<longrightarrow>
      fold (\<lambda>p. modeColour src (p * 4) (F p) (G p)) [0..<n] out ! j = src ! j)"
proof (induction n)
  case 0
  then show ?case by simp
next
  case (Suc n)
  let ?r = "fold (\<lambda>p. modeColour src (p * 4) (F p) (G p)) [0..<n] out"
  have l: "length ?r = length out"
    and v: "\<And>j. j < length out \<Longrightarrow> j mod 4 = 3 \<Longrightarrow> j div 4 < n \<Longrightarrow> ?r ! j = src ! j"
    using Suc by simp_all
  have step: "fold (\<lambda>p. modeColour src (p * 4) (F p) (G p)) [0..<Suc n] out
      = modeColour src (n * 4) (F n) (G n) ?r" by simp
  show ?case unfolding step
  proof (intro conjI allI impI)
    show "length (modeColour src (n * 4) (F n) (G n) ?r) = length out"
      by (simp only: modeColour_length l)
  next
    fix j assume j: "j < length out" "j mod 4 = 3" "j div 4 < Suc n"
    show "modeColour src (n * 4) (F n) (G n) ?r ! j = src ! j"
    proof (cases "j div 4 = n")
      case True
      then have e: "j = n * 4 + 3" using j(2) by presburger
      show ?thesis unfolding e
        by (rule modeColour_alpha) (use e j(1) l in simp)
    next
      case False
      then have "modeColour src (n * 4) (F n) (G n) ?r ! j = ?r ! j"
        by (rule modeColour_other)
      moreover have "?r ! j = src ! j" using False j by (intro v) simp_all
      ultimately show ?thesis by simp
    qed
  qed
qed

lemma modeColour_loop_alpha:
  assumes body: "\<And>x y out. body x y out = modeColour src ((y * w + x) * 4) (F x y) (G x y) out"
    and len: "length src = 4 * (w * h)"
  shows "alphaKept src (forYX h w body (replicate (length src) 0))"
proof -
  let ?out = "replicate (length src) (0::nat)"
  have b: "(\<lambda>p. body (p mod w) (p div w))
      = (\<lambda>p. modeColour src (p * 4) (F (p mod w) (p div w)) (G (p mod w) (p div w)))"
    by (intro ext) (simp only: body div_mult_mod_eq)
  have flat: "forYX h w body ?out
      = fold (\<lambda>p. modeColour src (p * 4) (F (p mod w) (p div w)) (G (p mod w) (p div w))) [0..<h * w] ?out"
    unfolding forYX_flat b ..
  have f: "length (forYX h w body ?out) = length ?out \<and>
     (\<forall>j < length ?out. j mod 4 = 3 \<longrightarrow> j div 4 < h * w \<longrightarrow> forYX h w body ?out ! j = src ! j)"
    unfolding flat by (rule modeColour_fold)
  have "j div 4 < h * w" if "j < length src" for j
    using that len by (simp add: mult.commute)
  then show ?thesis
    using f by (simp add: alphaKept_def)
qed

lemma applyOilPaint_alpha:
  assumes "length (data c) = 4 * (width c * height c)"
  shows "alphaKept (data c) (data (applyOilPaint c radius levels))"
  unfolding applyOilPaint_def Let_def canvas.simps
  by (rule modeColour_loop_alpha [OF _ assms]) (simp only: oilPaintPixel_def Let_def)

lemma applyPaletteKnife_alpha:
  assumes "length (data c) = 4 * (width c * height c)"
  shows "alphaKept (data c) (data (applyPaletteKnife c strokeLen direction))"
  unfolding applyPaletteKnife_def Let_def canvas.simps
  by (rule modeColour_loop_alpha [OF _ assms]) (simp only: paletteKnifePixel_def Let_def)

subsection \<open>Gaussian blur convolves the alpha channel\<close>

definition edgeCanvas :: canvas where
  \<comment> \<open>2x1: an opaque black pixel beside a fully transparent one\<close>
  "edgeCanvas = \<lparr>width = 2, height = 1, data = [0, 0, 0, 255,  0, 0, 0, 0]\<rparr>"

lemma fold_upt_sum:
  fixes g :: "nat \<Rightarrow> real"
  shows "fold (\<lambda>k a. a + g k) [0..<n] a0 = a0 + sum g {0..<n}"
  by (induction n) simp_all

lemma fold_add_sum_list:
  fixes xs :: "real list"
  shows "fold (\<lambda>v s. s + v) xs a = a + sum_list xs"
  by (induction xs arbitrary: a) simp_all

lemma toUint8Clamp_le:
  assumes "x \<le> real n"
  shows "toUint8Clamp x \<le> n"
proof -
  have "\<lfloor>x\<rfloor> \<le> int n" using assms by (simp add: floor_le_iff)
  moreover have "\<lfloor>x\<rfloor> + 1 \<le> int n" if "of_int \<lfloor>x\<rfloor> + 1 / 2 \<le> x"
  proof -
    have "of_int \<lfloor>x\<rfloor> < real n" using that assms by linarith
    then show ?thesis by linarith
  qed
  ultimately show ?thesis
    using assms by (auto simp: toUint8Clamp_def Let_def)
qed

lemma upt_0_7: "[0..<7] = [0, 1, 2, 3, 4, 5, 6::nat]"
  by code_simp

lemma upt_0_2: "[0..<2] = [0, 1::nat]"
  by code_simp

lemma gaussKernel_1:
  "gaussKernel 1 = map (\<lambda>v. v / (1 + 2 * exp (- 1 / 2) + 2 * exp (- 2) + 2 * exp (- 9 / 2)))
     [exp (- 9 / 2), exp (- 2), exp (- 1 / 2), 1, exp (- 1 / 2), exp (- 2), exp (- 9 / 2)]"
proof -
  have c: "\<lceil>5 / 2 :: real\<rceil> = 3" by linarith
  show ?thesis
    unfolding gaussKernel_def Let_def
    by (simp add: c upt_0_7)
qed

lemma clampIndex_1: "clampIndex 1 i = 0" "clampIndex (Suc 0) i = 0"
  by (simp_all add: clampIndex_def)

lemma sum_list_divide:
  fixes xs :: "real list"
  shows "sum_list (map (\<lambda>v. v / S) xs) = sum_list xs / S"
  by (induction xs) (simp_all add: add_divide_distrib)

lemma gaussVertical_single_row:
  assumes "x * 4 + 3 < length src"
  shows "gaussVertical w 1 r kern tmp x 0 src ! (x * 4 + 3)
       = toUint8Clamp (real (tmp ! (x * 4 + 3)) * sum_list kern)"
proof -
  have "fold (\<lambda>k a. a + real (tmp ! (x * 4 + 3)) * kern ! k) [0..<length kern] 0
      = real (tmp ! (x * 4 + 3)) * sum_list kern"
    by (simp add: fold_upt_sum sum_list_sum_nth sum_distrib_left)
  then show ?thesis
    using assms by (simp add: gaussVertical_def Let_def clampIndex_1)
qed

lemma gaussVertical_other:
  assumes "j div 4 \<noteq> y * w + x"
  shows "gaussVertical w h r kern tmp x y src ! j = src ! j"
proof -
  let ?p = "y * w + x"
  have "j \<noteq> ?p * 4" "j \<noteq> ?p * 4 + 1" "j \<noteq> ?p * 4 + 2" "j \<noteq> ?p * 4 + 3"
    using assms by auto
  then show ?thesis
    unfolding gaussVertical_def Let_def by simp
qed

lemma gaussHorizontal_other:
  assumes "j div 4 \<noteq> y * w + x"
  shows "gaussHorizontal w r kern src x y tmp ! j = tmp ! j"
proof -
  let ?p = "y * w + x"
  have "j \<noteq> ?p * 4" "j \<noteq> ?p * 4 + 1" "j \<noteq> ?p * 4 + 2" "j \<noteq> ?p * 4 + 3"
    using assms by auto
  then show ?thesis
    unfolding gaussHorizontal_def Let_def by simp
qed

lemma gaussHorizontal_alpha:
  assumes "(y * w + x) * 4 + 3 < length tmp"
  shows "gaussHorizontal w r kern src x y tmp ! ((y * w + x) * 4 + 3)
       = toUint8Clamp (fold (\<lambda>k a. a + real (src ! ((y * w + clampIndex w (int x + int k - r)) * 4 + 3)) * kern ! k)
            [0..<length kern] 0)"
  using assms unfolding gaussHorizontal_def Let_def by simp

lemma gaussKernel_1_sum: "sum_list (gaussKernel 1) = 1"
proof -
  have "0 < 1 + 2 * exp (- 1 / 2 :: real) + 2 * exp (- 2) + 2 * exp (- 9 / 2)"
    by (simp add: add_pos_pos)
  then show ?thesis
    unfolding gaussKernel_1 sum_list_divide by simp
qed

lemma edge_horizontal:
  "fold (\<lambda>k a. a + real ([0, 0, 0, 255, 0, 0, 0, 0] ! ((0 * 2 + clampIndex 2 (int 0 + int k - 3)) * 4 + 3))
        * gaussKernel 1 ! k) [0..<length (gaussKernel 1)] 0 \<le> 237"
proof -
  define S :: real where "S = 1 + 2 * exp (- 1 / 2) + 2 * exp (- 2) + 2 * exp (- 9 / 2)"
  have K: "gaussKernel 1 = map (\<lambda>v. v / S)
      [exp (- 9 / 2), exp (- 2), exp (- 1 / 2), 1, exp (- 1 / 2), exp (- 2), exp (- 9 / 2)]"
    unfolding S_def by (rule gaussKernel_1)
  have e: "1 / 2 \<le> exp (- 1 / 2 :: real)"
    using exp_ge_add_one_self [of "- 1 / 2 :: real"] by simp
  have p2: "0 < exp (- 2 :: real)" and p3: "0 < exp (- 9 / 2 :: real)" by simp_all
  have S: "0 < S" unfolding S_def by (simp add: add_pos_pos)
  have lin: "255 * (c + b + a + 1) \<le> 237 * (1 + 2 * a + 2 * b + 2 * c)"
    if "1 / 2 \<le> a" "0 < b" "0 < c" for a b c :: real
    using that by (simp add: algebra_simps)
  have "255 * (exp (- 9 / 2) + exp (- 2) + exp (- 1 / 2) + 1) \<le> 237 * S"
    unfolding S_def by (rule lin [OF e p2 p3])
  then have "255 * (exp (- 9 / 2) + exp (- 2) + exp (- 1 / 2) + 1) / S \<le> 237"
    using S by (simp add: pos_divide_le_eq)
  moreover have "fold (\<lambda>k a. a + real ([0, 0, 0, 255, 0, 0, 0, 0] ! ((0 * 2 + clampIndex 2 (int 0 + int k - 3)) * 4 + 3))
        * gaussKernel 1 ! k) [0..<length (gaussKernel 1)] 0
      = 255 * (exp (- 9 / 2) + exp (- 2) + exp (- 1 / 2) + 1) / S"
    unfolding K by (simp add: upt_0_7 clampIndex_def add_divide_distrib distrib_left)
  ultimately show ?thesis by simp
qed

lemma forYX_1_2: "forYX 1 2 body s = body 1 0 (body 0 0 s)"
  by (simp add: forYX_def upt_0_2)

lemma replicate_8: "replicate 8 x = [x, x, x, x, x, x, x, x]"
  by (simp add: numeral_eq_Suc)

lemma edge_blurred_alpha:
  "data (applyNewBlur idleEnv edgeCanvas 1 1 0) ! 3 \<le> 237"
proof -
  let ?K = "gaussKernel 1"
  let ?src = "[0, 0, 0, 255, 0, 0, 0, 0] :: nat list"
  let ?Z = "replicate 8 (0::nat)"
  let ?tmp = "gaussHorizontal 2 3 ?K ?src 1 0 (gaussHorizontal 2 3 ?K ?src 0 0 ?Z)"
  let ?out = "gaussVertical 2 1 3 ?K ?tmp 1 0 (gaussVertical 2 1 3 ?K ?tmp 0 0 ?src)"
  have c: "\<lceil>5 / 2 :: real\<rceil> = 3" by linarith
  have d: "data (applyNewBlur idleEnv edgeCanvas 1 1 0) = ?out"
    by (simp add: applyNewBlur_def gaussianBlur_def edgeCanvas_def Let_def forYX_def upt_0_2 replicate_8 c)
  have hz: "toUint8Clamp (fold (\<lambda>k a. a + real (?src ! ((0 * 2 + clampIndex 2 (int 0 + int k - 3)) * 4 + 3))
        * ?K ! k) [0..<length ?K] 0) \<le> 237"
    by (rule toUint8Clamp_le) (simp only: of_nat_numeral edge_horizontal)
  have "?tmp ! 3 = gaussHorizontal 2 3 ?K ?src 0 0 ?Z ! 3"
    by (rule gaussHorizontal_other) simp
  also have "\<dots> \<le> 237"
    using gaussHorizontal_alpha [of 0 2 0 ?Z 3 ?K ?src] hz by simp
  finally have t: "?tmp ! 3 \<le> 237" .
  have "?out ! 3 = gaussVertical 2 1 3 ?K ?tmp 0 0 ?src ! 3"
    by (rule gaussVertical_other) simp
  also have "\<dots> = toUint8Clamp (real (?tmp ! 3))"
    using gaussVertical_single_row [of 0 ?src 2 3 ?K ?tmp] by (simp add: gaussKernel_1_sum)
  also have "\<dots> \<le> 237"
    by (rule toUint8Clamp_le) (use t in simp)
  finally show ?thesis unfolding d .
qed

definition sampleCanvas :: canvas where
  \<comment> \<open>2x1: a half-transparent pixel beside a fully transparent one\<close>
  "sampleCanvas = \<lparr>width = 2, height = 1, data = [10, 20, 30, 128,  200, 100, 50, 0]\<rparr>"

text \<open>
  C2: on a canvas with four bytes per pixel, brightness/contrast, hue/saturation/temperature,
  blur of every type but Gaussian, motion and radial (that is box blur, and the types that leave
  the canvas alone), noise, posterize, invert, levels, oil paint, metal, palette knife, texture
  and facet return a buffer of the same length whose alpha byte at every pixel is the input's.
  Gaussian blur is not among them: it convolves the alpha channel with the same kernel as the
  colour channels. Motion and radial blur redraw the image through the renderer at reduced
  opacity, so their alpha is the renderer's.
\<close>

theorem filters_keep_alpha:
  assumes "length (data c) = 4 * (width c * height c)"
    and "blurType \<noteq> 1" and "blurType \<noteq> 3" and "blurType \<noteq> 4"
  shows "alphaKept (data c) (data (applyBrightnessContrast c b ct))
     \<and> alphaKept (data c) (data (applyHueSatTemp c hueShift satShift tempShift))
     \<and> alphaKept (data c) (data (applyNewBlur E c blurType radius angle))
     \<and> alphaKept (data c) (data (fst (applyNewNoise E noiseType amount density (c, k))))
     \<and> alphaKept (data c) (data (applyPosterize c lv))
     \<and> alphaKept (data c) (data (applyInvert c))
     \<and> alphaKept (data c) (data (applyLevels c black white gamma m))
     \<and> alphaKept (data c) (data (applyOilPaint c oilRadius oilLevels))
     \<and> alphaKept (data c) (data (applyMetal c metalIntensity))
     \<and> alphaKept (data c) (data (applyPaletteKnife c strokeLen direction))
     \<and> alphaKept (data c) (data (fst (applyTextureFilter E textureMode intensity (c, k))))
     \<and> alphaKept (data c) (data (fst (applyFacet E facetMode blockSize (c, k))))"
  by (intro conjI applyBrightnessContrast_alpha applyHueSatTemp_alpha
      applyNewBlur_alpha [OF assms(2-4)] applyNewNoise_alpha applyPosterize_alpha applyInvert_alpha
      applyLevels_alpha applyOilPaint_alpha [OF assms(1)] applyMetal_alpha
      applyPaletteKnife_alpha [OF assms(1)] applyTextureFilter_alpha applyFacet_alpha)

theorem filters_keep_alpha_witness:
  "length (data sampleCanvas) = 4 * (width sampleCanvas * height sampleCanvas)
   \<and> alphaKept (data sampleCanvas) (data (applyBrightnessContrast sampleCanvas 20 30))
   \<and> alphaKept (data sampleCanvas) (data (applyHueSatTemp sampleCanvas 90 50 10))
   \<and> alphaKept (data sampleCanvas) (data (applyNewBlur idleEnv sampleCanvas 2 3 0))
   \<and> alphaKept (data sampleCanvas) (data (fst (applyNewNoise idleEnv 1 50 50 (sampleCanvas, 0))))
   \<and> alphaKept (data sampleCanvas) (data (applyPosterize sampleCanvas 4))
   \<and> alphaKept (data sampleCanvas) (data (applyInvert sampleCanvas))
   \<and> alphaKept (data sampleCanvas) (data (applyLevels sampleCanvas 10 240 2 False))
   \<and> alphaKept (data sampleCanvas) (data (applyOilPaint sampleCanvas 3 20))
   \<and> alphaKept (data sampleCanvas) (data (applyMetal sampleCanvas 50))
   \<and> alphaKept (data sampleCanvas) (data (applyPaletteKnife sampleCanvas 8 45))
   \<and> alphaKept (data sampleCanvas) (data (fst (applyTextureFilter idleEnv 1 50 (sampleCanvas, 0))))
   \<and> alphaKept (data sampleCanvas) (data (fst (applyFacet idleEnv 1 8 (sampleCanvas, 0))))"
proof -
  have l: "length (data sampleCanvas) = 4 * (width sampleCanvas * height sampleCanvas)"
    by (simp add: sampleCanvas_def)
  have t: "(2::real) \<noteq> 1" "(2::real) \<noteq> 3" "(2::real) \<noteq> 4" by simp_all
  show ?thesis
    using filters_keep_alpha [OF l t, of 20 30 90 50 10 idleEnv 3 0 1 50 50 0 4 10 240 2 False 3 20 50 8 45 1 50 1 8] l
    by simp
qed

theorem gaussianBlur_alpha_counterexample:
  "data edgeCanvas ! 3 = 255 \<and> data (applyNewBlur idleEnv edgeCanvas 1 1 0) ! 3 \<le> 237
   \<and> \<not> alphaKept (data edgeCanvas) (data (applyNewBlur idleEnv edgeCanvas 1 1 0))"
proof -
  have a: "data edgeCanvas ! 3 = 255" "length (data edgeCanvas) = 8"
    by (simp_all add: edgeCanvas_def)
  have "data (applyNewBlur idleEnv edgeCanvas 1 1 0) ! 3 = data edgeCanvas ! 3"
    if "alphaKept (data edgeCanvas) (data (applyNewBlur idleEnv edgeCanvas 1 1 0))"
    using that a(2) by (simp add: alphaKept_def)
  then show ?thesis
    using a(1) edge_blurred_alpha by auto
qed

section \<open>The filter pipeline\<close>

text \<open>
  An image and a canvas are both a width, a height and RGBA bytes; an optional argument is an
  \<open>option\<close>, \<open>None\<close> for \<^verbatim>\<open>undefined\<close>. The random-call counter is threaded through the
  steps in the order of the source.
\<close>

record LayerFilters =
  lineArt :: bool
  lineArtBlend :: real
  lineArtThreshold :: real
  lineArtColorBlend :: real
  findEdges :: bool
  findEdgesBlend :: real
  findEdgesStrength :: real
  blurType :: real
  blurRadius :: real
  blurAngle :: real
  noiseType :: real
  noiseAmount :: real
  noiseDensity :: real
  posterize :: real
  brightness :: real
  contrast :: real
  invert :: bool
  levels :: bool
  levelsBlack :: real
  levelsWhite :: real
  levelsGamma :: real
  levelsMono :: bool
  halftone :: bool
  halftoneSize :: real
  halftoneAngle :: real
  halftoneColorMode :: real
  halftoneColorBlend :: real
  halftoneBlendMode :: real
  hueShift :: real
  saturation :: real
  colorTempShift :: real
  posterizeStyle :: real
  posterizeColorShift :: real
  frostedGlass :: bool
  frostedGlassAmount :: real
  strokeEnabled :: bool
  strokeColor :: string
  strokeWidth :: real
  strokeInner :: bool
  strokeOuter :: bool
  gameFilter :: real
  gameFilterIntensity :: real
  facetFilter :: real
  facetSize :: real
  oilPaint :: bool
  oilPaintRadius :: real
  oilPaintLevels :: real
  metalFilter :: bool
  metalIntensity :: real
  paletteKnife :: bool
  paletteKnifeLength :: real
  paletteKnifeDirection :: real
  colorSepEnabled :: bool
  colorSepR :: real
  colorSepG :: real
  colorSepB :: real
  colorSepMix :: real
  textureFilter :: real
  textureIntensity :: real
  gradientFade :: bool
  gradientFadeDirection :: real
  gradientFadeAmount :: real
  channelShiftRG :: real
  channelShiftYB :: real
  channelShiftPC :: real

definition defaultFilters :: LayerFilters where
  "defaultFilters = \<lparr>
     lineArt = False,
     lineArtBlend = 0.5,
     lineArtThreshold = 50,
     lineArtColorBlend = 0,
     findEdges = False,
     findEdgesBlend = 0.5,
     findEdgesStrength = 1,
     blurType = 0,
     blurRadius = 0,
     blurAngle = 0,
     noiseType = 0,
     noiseAmount = 0,
     noiseDensity = 100,
     posterize = 0,
     brightness = 0,
     contrast = 0,
     invert = False,
     levels = False,
     levelsBlack = 0,
     levelsWhite = 255,
     levelsGamma = 1,
     levelsMono = False,
     halftone = False,
     halftoneSize = 6,
     halftoneAngle = 45,
     halftoneColorMode = 0,
     halftoneColorBlend = 0,
     halftoneBlendMode = 0,
     hueShift = 0,
     saturation = 0,
     colorTempShift = 0,
     posterizeStyle = 0,
     posterizeColorShift = 0,
     frostedGlass = False,
     frostedGlassAmount = 8,
     strokeEnabled = False,
     strokeColor = ''#000000'',
     strokeWidth = 3,
     strokeInner = False,
     strokeOuter = True,
     gameFilter = 0,
     gameFilterIntensity = 1,
     facetFilter = 0,
     facetSize = 15,
     oilPaint = False,
     oilPaintRadius = 4,
     oilPaintLevels = 20,
     metalFilter = False,
     metalIntensity = 1,
     paletteKnife = False,
     paletteKnifeLength = 20,
     paletteKnifeDirection = 45,
     colorSepEnabled = False,
     colorSepR = 8,
     colorSepG = 8,
     colorSepB = 8,
     colorSepMix = 1,
     textureFilter = 0,
     textureIntensity = 1,
     gradientFade = False,
     gradientFadeDirection = 0,
     gradientFadeAmount = 50,
     channelShiftRG = 0,
     channelShiftYB = 0,
     channelShiftPC = 0\<rparr>"

definition runIf :: "bool \<Rightarrow> ('s \<Rightarrow> 's) \<Rightarrow> 's \<Rightarrow> 's" where
  \<comment> \<open>\<^verbatim>\<open>if (cond) step(c);\<close>\<close>
  "runIf cond step s = (if cond then step s else s)"

definition targetSize :: "nat \<Rightarrow> nat \<Rightarrow> real option \<Rightarrow> nat \<times> nat" where
  \<comment> \<open>\<^verbatim>\<open>if (maxSize && (w > maxSize || h > maxSize)) { r = ...; w = Math.round(w * r); h = ... }\<close>;
      a negative \<^verbatim>\<open>maxSize\<close> is outside the model\<close>
  "targetSize w h maxSize =
     (case maxSize of
        None \<Rightarrow> (w, h)
      | Some m \<Rightarrow>
          if m \<noteq> 0 \<and> (real w > m \<or> real h > m) then
            (let r = min (fl (m / real w)) (fl (m / real h))
             in (nat (Math_round (fl (real w * r))), nat (Math_round (fl (real h * r)))))
          else (w, h))"

definition imgToCanvas :: "('a env_scheme) \<Rightarrow> canvas \<Rightarrow> real option \<Rightarrow> canvas" where
  "imgToCanvas E img maxSize =
     (let (w, h) = targetSize (width img) (height img) maxSize
      in drawImage E (blankCanvas w h) img
           \<lparr>cmd_alpha = 1, cmd_x = 0, cmd_y = 0, cmd_w = real w, cmd_h = real h\<rparr>)"

definition applyFilters :: "('a env_scheme) \<Rightarrow> canvas \<Rightarrow> LayerFilters \<Rightarrow> real option \<Rightarrow> nat \<Rightarrow> world" where
  "applyFilters E img filters maxSize k =
     (let s = (imgToCanvas E img maxSize, k);
          s = runIf (brightness filters \<noteq> 0 \<or> contrast filters \<noteq> 0)
                (apfst (\<lambda>c. applyBrightnessContrast c (brightness filters) (contrast filters))) s;
          s = runIf (hueShift filters \<noteq> 0 \<or> saturation filters \<noteq> 0 \<or> colorTempShift filters \<noteq> 0)
                (apfst (\<lambda>c. applyHueSatTemp c (hueShift filters) (saturation filters) (colorTempShift filters))) s;
          s = runIf (blurType filters > 0 \<and> blurRadius filters > 0)
                (apfst (\<lambda>c. applyNewBlur E c (blurType filters) (blurRadius filters) (blurAngle filters))) s;
          s = runIf (frostedGlass filters \<and> frostedGlassAmount filters > 0)
                (applyFrostedGlass E (frostedGlassAmount filters)) s;
          s = runIf (noiseType filters > 0 \<and> noiseAmount filters > 0)
                (applyNewNoise E (noiseType filters) (noiseAmount filters) (noiseDensity filters)) s;
          s = runIf (posterize filters > 0)
                (apfst (\<lambda>c. applyPosterize c (posterize filters))) s;
          s = runIf (posterizeStyle filters > 0)
                (apfst (\<lambda>c. applyPosterizeStyle c (posterizeStyle filters) (posterizeColorShift filters))) s;
          s = runIf (lineArt filters)
                (applyLineArt E (lineArtThreshold filters) (lineArtBlend filters) (lineArtColorBlend filters)) s;
          s = runIf (findEdges filters)
                (applyFindEdges E (findEdgesStrength filters) (findEdgesBlend filters)) s;
          s = runIf (invert filters)
                (apfst applyInvert) s;
          s = runIf (levels filters)
                (apfst (\<lambda>c. applyLevels c (levelsBlack filters) (levelsWhite filters) (levelsGamma filters) (levelsMono filters))) s;
          s = runIf (halftone filters)
                (applyHalftone E (halftoneSize filters) (halftoneAngle filters) (halftoneColorMode filters) (halftoneColorBlend filters) (halftoneBlendMode filters)) s;
          s = runIf (strokeEnabled filters)
                (apfst (\<lambda>c. applyStroke E c (strokeColor filters) (strokeWidth filters) (strokeInner filters) (strokeOuter filters))) s;
          s = runIf (facetFilter filters > 0)
                (applyFacet E (facetFilter filters) (facetSize filters)) s;
          s = runIf (oilPaint filters)
                (apfst (\<lambda>c. applyOilPaint c (oilPaintRadius filters) (oilPaintLevels filters))) s;
          s = runIf (metalFilter filters)
                (apfst (\<lambda>c. applyMetal c (metalIntensity filters))) s;
          s = runIf (paletteKnife filters)
                (apfst (\<lambda>c. applyPaletteKnife c (paletteKnifeLength filters) (paletteKnifeDirection filters))) s;
          s = runIf (textureFilter filters > 0)
                (applyTextureFilter E (textureFilter filters) (textureIntensity filters)) s;
          s = runIf (colorSepEnabled filters \<and> colorSepMix filters > 0)
                (apfst (\<lambda>c. applyColorSeparation c (colorSepR filters) (colorSepG filters) (colorSepB filters) (colorSepMix filters))) s;
          s = runIf (gameFilter filters > 0)
                (applyGameFilter E (gameFilter filters) (gameFilterIntensity filters)) s;
          s = runIf (channelShiftRG filters \<noteq> 0 \<or> channelShiftYB filters \<noteq> 0 \<or> channelShiftPC filters \<noteq> 0)
                (apfst (\<lambda>c. applyChannelShifts c (channelShiftRG filters) (channelShiftYB filters) (channelShiftPC filters))) s;
          s = runIf (gradientFade filters \<and> gradientFadeAmount filters > 0)
                (apfst (\<lambda>c. applyGradientFade c (gradientFadeDirection filters) (gradientFadeAmount filters))) s
      in s)"

definition processFiltersFromCanvas :: "('a env_scheme) \<Rightarrow> canvas \<Rightarrow> LayerFilters \<Rightarrow> real option
     \<Rightarrow> real option \<Rightarrow> real option \<Rightarrow> nat \<Rightarrow> world" where
  "processFiltersFromCanvas E srcCanvas filters maxSize globalHueRotate layerSaturation k =
     (let (w, h) = targetSize (width srcCanvas) (height srcCanvas) maxSize;
          c = drawImage E (blankCanvas w h) srcCanvas
                \<lparr>cmd_alpha = 1, cmd_x = 0, cmd_y = 0, cmd_w = real w, cmd_h = real h\<rparr>
      in
       (let s = (c, k);
          s = runIf (brightness filters \<noteq> 0 \<or> contrast filters \<noteq> 0)
                (apfst (\<lambda>c. applyBrightnessContrast c (brightness filters) (contrast filters))) s;
          s = runIf (hueShift filters \<noteq> 0 \<or> saturation filters \<noteq> 0 \<or> colorTempShift filters \<noteq> 0)
                (apfst (\<lambda>c. applyHueSatTemp c (hueShift filters) (saturation filters) (colorTempShift filters))) s;
          s = runIf (blurType filters > 0 \<and> blurRadius filters > 0)
                (apfst (\<lambda>c. applyNewBlur E c (blurType filters) (blurRadius filters) (blurAngle filters))) s;
          s = runIf (frostedGlass filters \<and> frostedGlassAmount filters > 0)
                (applyFrostedGlass E (frostedGlassAmount filters)) s;
          s = runIf (noiseType filters > 0 \<and> noiseAmount filters > 0)
                (applyNewNoise E (noiseType filters) (noiseAmount filters) (noiseDensity filters)) s;
          s = runIf (posterize filters > 0)
                (apfst (\<lambda>c. applyPosterize c (posterize filters))) s;
          s = runIf (posterizeStyle filters > 0)
                (apfst (\<lambda>c. applyPosterizeStyle c (posterizeStyle filters) (posterizeColorShift filters))) s;
          s = runIf (lineArt filters)
                (applyLineArt E (lineArtThreshold filters) (lineArtBlend filters) (lineArtColorBlend filters)) s;
          s = runIf (findEdges filters)
                (applyFindEdges E (findEdgesStrength filters) (findEdgesBlend filters)) s;
          s = runIf (invert filters)
                (apfst applyInvert) s;
          s = runIf (levels filters)
                (apfst (\<lambda>c. applyLevels c (levelsBlack filters) (levelsWhite filters) (levelsGamma filters) (levelsMono filters))) s;
          s = runIf (halftone filters)
                (applyHalftone E (halftoneSize filters) (halftoneAngle filters) (halftoneColorMode filters) (halftoneColorBlend filters) (halftoneBlendMode filters)) s;
          s = runIf (strokeEnabled filters)
                (apfst (\<lambda>c. applyStroke E c (strokeColor filters) (strokeWidth filters) (strokeInner filters) (strokeOuter filters))) s;
          s = runIf (facetFilter filters > 0)
                (applyFacet E (facetFilter filters) (facetSize filters)) s;
          s = runIf (oilPaint filters)
                (apfst (\<lambda>c. applyOilPaint c (oilPaintRadius filters) (oilPaintLevels filters))) s;
          s = runIf (metalFilter filters)
                (apfst (\<lambda>c. applyMetal c (metalIntensity filters))) s;
          s = runIf (paletteKnife filters)
                (apfst (\<lambda>c. applyPaletteKnife c (paletteKnifeLength filters) (paletteKnifeDirection filters))) s;
          s = runIf (textureFilter filters > 0)
                (applyTextureFilter E (textureFilter filters) (textureIntensity filters)) s;
          s = runIf (colorSepEnabled filters \<and> colorSepMix filters > 0)
                (apfst (\<lambda>c. applyColorSeparation c (colorSepR filters) (colorSepG filters) (colorSepB filters) (colorSepMix filters))) s;
          s = runIf (gameFilter filters > 0)
                (applyGameFilter E (gameFilter filters) (gameFilterIntensity filters)) s;
          s = runIf (channelShiftRG filters \<noteq> 0 \<or> channelShiftYB filters \<noteq> 0 \<or> channelShiftPC filters \<noteq> 0)
                (apfst (\<lambda>c. applyChannelShifts c (channelShiftRG filters) (channelShiftYB filters) (channelShiftPC filters))) s;
          s = runIf (gradientFade filters \<and> gradientFadeAmount filters > 0)
                (apfst (\<lambda>c. applyGradientFade c (gradientFadeDirection filters) (gradientFadeAmount filters))) s;
          s = (case globalHueRotate of
                 None \<Rightarrow> s
               | Some g \<Rightarrow> runIf (g \<noteq> 0) (apfst (\<lambda>c. applyGlobalHueRotate c g)) s);
          s = (case layerSaturation of
                 None \<Rightarrow> s
               | Some v \<Rightarrow> runIf (v \<noteq> 100) (apfst (\<lambda>c. applyLayerSaturation c v)) s)
        in s))"

definition processLayerFilters :: "('a env_scheme) \<Rightarrow> canvas option \<Rightarrow> LayerFilters \<Rightarrow> real option
     \<Rightarrow> real option \<Rightarrow> canvas option \<Rightarrow> real option \<Rightarrow> nat \<Rightarrow> js_error + world" where
  \<comment> \<open>\<^verbatim>\<open>applyFilters(img!, ...)\<close> on a \<^verbatim>\<open>null\<close> image throws when it reads \<^verbatim>\<open>img.naturalWidth\<close>\<close>
  "processLayerFilters E img filters maxSize globalHueRotate sourceCanvas layerSaturation k =
     (case sourceCanvas of
        Some sc \<Rightarrow> Inr (processFiltersFromCanvas E sc filters maxSize globalHueRotate layerSaturation k)
      | None \<Rightarrow>
          (case img of
             None \<Rightarrow> Inl TypeError
           | Some im \<Rightarrow>
               (let s = applyFilters E im filters maxSize k;
                    s = (case globalHueRotate of
                 None \<Rightarrow> s
               | Some g \<Rightarrow> runIf (g \<noteq> 0) (apfst (\<lambda>c. applyGlobalHueRotate c g)) s);
                    s = (case layerSaturation of
                 None \<Rightarrow> s
               | Some v \<Rightarrow> runIf (v \<noteq> 100) (apfst (\<lambda>c. applyLayerSaturation c v)) s)
                in Inr s)))"

definition plainEnv :: env where
  \<comment> \<open>an environment whose renderer copies the pixels of the source onto the target\<close>
  "plainEnv = idleEnv\<lparr>drawImage := (\<lambda>dst src cmd. dst\<lparr>data := data src\<rparr>)\<rparr>"

definition redPixel :: canvas where
  "redPixel = \<lparr>width = 1, height = 1, data = [255, 0, 0, 255]\<rparr>"

lemma runIf_simps: "runIf False step s = s" "runIf True step s = step s"
  by (simp_all add: runIf_def)

lemma imgToCanvas_unscaled:
  "imgToCanvas E img None = drawImage E (blankCanvas (width img) (height img)) img
     \<lparr>cmd_alpha = 1, cmd_x = 0, cmd_y = 0, cmd_w = real (width img), cmd_h = real (height img)\<rparr>"
  by (simp add: imgToCanvas_def targetSize_def)

lemma plainEnv_raster: "imgToCanvas plainEnv redPixel None = redPixel"
  by (simp add: imgToCanvas_unscaled plainEnv_def idleEnv_def blankCanvas_def redPixel_def)

text \<open>
  C1: with the default parameter record, applyFilters returns the canvas that imgToCanvas
  rasterised from the image, whatever the image and \<^verbatim>\<open>maxSize\<close>: no filter step runs, and no
  random number is drawn. Without \<^verbatim>\<open>maxSize\<close> that canvas is the image drawn at its own size.
\<close>

theorem applyFilters_default_identity:
  "applyFilters E img defaultFilters maxSize k = (imgToCanvas E img maxSize, k)
   \<and> applyFilters E img defaultFilters None k =
       (drawImage E (blankCanvas (width img) (height img)) img
          \<lparr>cmd_alpha = 1, cmd_x = 0, cmd_y = 0, cmd_w = real (width img), cmd_h = real (height img)\<rparr>, k)"
proof -
  have "applyFilters E img defaultFilters m k = (imgToCanvas E img m, k)" for m
    unfolding applyFilters_def Let_def by (simp add: defaultFilters_def runIf_simps)
  then show ?thesis by (simp add: imgToCanvas_unscaled)
qed

theorem applyFilters_default_identity_witness:
  "applyFilters plainEnv redPixel defaultFilters None 0 = (redPixel, 0)
   \<and> data (fst (applyFilters plainEnv redPixel defaultFilters None 0)) = [255, 0, 0, 255]"
  using applyFilters_default_identity [of plainEnv redPixel None 0] plainEnv_raster
  by (simp add: redPixel_def)

lemma processFiltersFromCanvas_steps:
  "processFiltersFromCanvas E srcCanvas filters maxSize globalHueRotate layerSaturation k =
     (let s = applyFilters E srcCanvas filters maxSize k;
          s = (case globalHueRotate of
                 None \<Rightarrow> s
               | Some g \<Rightarrow> runIf (g \<noteq> 0) (apfst (\<lambda>c. applyGlobalHueRotate c g)) s);
          s = (case layerSaturation of
                 None \<Rightarrow> s
               | Some v \<Rightarrow> runIf (v \<noteq> 100) (apfst (\<lambda>c. applyLayerSaturation c v)) s)
      in s)"
  unfolding processFiltersFromCanvas_def applyFilters_def imgToCanvas_def Let_def split_def
  by (rule refl)

lemma layerSaturation_redPixel:
  "applyLayerSaturation redPixel 0 = \<lparr>width = 1, height = 1, data = [76, 76, 76, 255]\<rparr>"
proof -
  have "applyLayerSaturation redPixel 0
      = \<lparr>width = 1, height = 1, data = layerSaturationPixel 0 0 [255, 0, 0, 255]\<rparr>"
    by (simp add: applyLayerSaturation_def redPixel_def forPixels_def)
  moreover have "layerSaturationPixel 0 0 [255, 0, 0, 255] = [76, 76, 76, 255]"
    by (simp add: layerSaturationPixel_def Let_def clamp255_def toUint8Clamp_def)
  ultimately show ?thesis by simp
qed

text \<open>
  C9 (as amended): processFiltersFromCanvas applies the filter operations of applyFilters, in
  the same order, to the canvas rasterised in the same way, and then, as processLayerFilters
  does after applyFilters, the global hue rotation when \<^verbatim>\<open>globalHueRotate\<close> is given and not 0
  and the layer saturation when \<^verbatim>\<open>layerSaturation\<close> is given and not 100. When neither of the two
  is to be applied, the two entry points return the same canvas for the same input.
\<close>

theorem processFiltersFromCanvas_refines_applyFilters:
  "processFiltersFromCanvas E srcCanvas filters maxSize globalHueRotate layerSaturation k =
     (let s = applyFilters E srcCanvas filters maxSize k;
          s = (case globalHueRotate of
                 None \<Rightarrow> s
               | Some g \<Rightarrow> runIf (g \<noteq> 0) (apfst (\<lambda>c. applyGlobalHueRotate c g)) s);
          s = (case layerSaturation of
                 None \<Rightarrow> s
               | Some v \<Rightarrow> runIf (v \<noteq> 100) (apfst (\<lambda>c. applyLayerSaturation c v)) s)
      in s)
   \<and> ((globalHueRotate = None \<or> globalHueRotate = Some 0) \<longrightarrow>
        (layerSaturation = None \<or> layerSaturation = Some 100) \<longrightarrow>
        processFiltersFromCanvas E srcCanvas filters maxSize globalHueRotate layerSaturation k
          = applyFilters E srcCanvas filters maxSize k)
   \<and> processLayerFilters E (Some srcCanvas) filters maxSize globalHueRotate None layerSaturation k
        = Inr (processFiltersFromCanvas E srcCanvas filters maxSize globalHueRotate layerSaturation k)"
proof (intro conjI impI)
  show "processFiltersFromCanvas E srcCanvas filters maxSize globalHueRotate layerSaturation k =
     (let s = applyFilters E srcCanvas filters maxSize k;
          s = (case globalHueRotate of
                 None \<Rightarrow> s
               | Some g \<Rightarrow> runIf (g \<noteq> 0) (apfst (\<lambda>c. applyGlobalHueRotate c g)) s);
          s = (case layerSaturation of
                 None \<Rightarrow> s
               | Some v \<Rightarrow> runIf (v \<noteq> 100) (apfst (\<lambda>c. applyLayerSaturation c v)) s)
      in s)"
    by (rule processFiltersFromCanvas_steps)
next
  assume "globalHueRotate = None \<or> globalHueRotate = Some 0"
    and "layerSaturation = None \<or> layerSaturation = Some 100"
  then show "processFiltersFromCanvas E srcCanvas filters maxSize globalHueRotate layerSaturation k
      = applyFilters E srcCanvas filters maxSize k"
    unfolding processFiltersFromCanvas_steps by (auto simp: runIf_simps)
next
  show "processLayerFilters E (Some srcCanvas) filters maxSize globalHueRotate None layerSaturation k
        = Inr (processFiltersFromCanvas E srcCanvas filters maxSize globalHueRotate layerSaturation k)"
    unfolding processFiltersFromCanvas_steps by (simp add: processLayerFilters_def Let_def)
qed

theorem processFiltersFromCanvas_refines_applyFilters_witness:
  "processFiltersFromCanvas plainEnv redPixel (defaultFilters\<lparr>invert := True\<rparr>) None (Some 0) (Some 100) 0
     = applyFilters plainEnv redPixel (defaultFilters\<lparr>invert := True\<rparr>) None 0
   \<and> processLayerFilters plainEnv (Some redPixel) (defaultFilters\<lparr>invert := True\<rparr>) None (Some 0) None (Some 100) 0
     = Inr (applyFilters plainEnv redPixel (defaultFilters\<lparr>invert := True\<rparr>) None 0)"
  using processFiltersFromCanvas_refines_applyFilters
    [of plainEnv redPixel "defaultFilters\<lparr>invert := True\<rparr>" None "Some 0" "Some 100" 0]
  by (simp add: runIf_simps)

theorem processFiltersFromCanvas_saturation_counterexample:
  "data (fst (processFiltersFromCanvas plainEnv redPixel defaultFilters None None (Some 0) 0)) = [76, 76, 76, 255]
   \<and> data (fst (applyFilters plainEnv redPixel defaultFilters None 0)) = [255, 0, 0, 255]"
proof -
  have a: "applyFilters plainEnv redPixel defaultFilters None 0 = (redPixel, 0)"
    unfolding applyFilters_def Let_def
    by (simp add: defaultFilters_def runIf_simps plainEnv_raster)
  have "processFiltersFromCanvas plainEnv redPixel defaultFilters None None (Some 0) 0
      = (applyLayerSaturation redPixel 0, 0)"
    unfolding processFiltersFromCanvas_steps a by (simp add: runIf_simps)
  then show ?thesis
    using a by (simp add: layerSaturation_redPixel) (simp add: redPixel_def)
qed

end
